theory Spec2Isabelle
  imports Main "HOL-Library.Word"
begin

unbundle bit_operations_syntax

section \<open>AP130X camera ISP driver: data model\<close>

text \<open>
  The theory embeds the control plane of \<^verbatim>\<open>drivers/media/i2c/ap130x.c\<close>: the paged
  register transport, the sensor register proxy (SIPM DMA), the firmware loader with its
  circular load window, the boot sequence with its retry loop, and stream start/stop.

  A C \<^verbatim>\<open>int\<close> return code that follows the kernel convention (0 on success, a negative
  errno on failure) is a value of \<open>errno option\<close>: \<open>None\<close> is 0 and \<open>Some e\<close> is \<open>-e\<close>.
  A function that also fills an out-parameter on success returns \<open>errno + value\<close>.
\<close>

datatype errno = EIO | EAGAIN | ENOMEM | EINVAL | ENODEV | ETIMEDOUT | ENOENT | ENXIO

type_synonym ret = "errno option"

datatype gpio = ResetGpio | StandbyGpio

datatype rail = IspSupply nat | SensorSupply nat nat | IspClock

text \<open>
  Everything the driver asks of the outside world, in the order it asks: register-map
  transfers on the two width-typed register spaces, raw block writes, and the calls to
  the regulator, clock, GPIO and firmware-loader frameworks. Sleeps are not recorded.
\<close>

datatype bus_op =
    Reg16Write "16 word" "32 word"
  | Reg32Write "16 word" "32 word"
  | Reg16Read "16 word"
  | Reg32Read "16 word"
  | RawWrite16 "32 word" "32 word" "8 word list"
  | RegulatorEnable rail
  | RegulatorDisable rail
  | RegulatorBulkDisable "rail list"
  | ClkPrepareEnable
  | ClkDisableUnprepare
  | GpioSet gpio bool
  | RequestFirmware string
  | ReleaseFirmware

datatype ctrl_id =
    CID_AUTO_N_PRESET_WHITE_BALANCE | CID_EXPOSURE | CID_EXPOSURE_METERING | CID_GAIN
  | CID_GAMMA | CID_CONTRAST | CID_BRIGHTNESS | CID_SATURATION | CID_ZOOM_ABSOLUTE
  | CID_COLORFX | CID_SCENE_MODE | CID_POWER_LINE_FREQUENCY | CID_LINK_FREQ

record ap130x_sensor =
  dev_present :: bool
  num_supplies :: nat

text \<open>
  \<^verbatim>\<open>struct ap130x_device\<close>, reduced to the fields the modelled functions read or write,
  plus \<open>trace\<close>, the history of operations issued so far (oldest first). \<open>fw\<close> is the
  blob \<^verbatim>\<open>ap130x->fw\<close> points to (header and payload). The two elements of
  \<^verbatim>\<open>sensors[2]\<close> are \<open>sensor0\<close> and \<open>sensor1\<close>.
\<close>

record ap130x_device =
  reg_page :: "32 word"
  streaming :: bool
  fw :: "8 word list"
  standby_gpio :: bool
  sensor_supplies :: bool
  sensor_name :: string
  i2c_addr :: "32 word"
  sensor0 :: ap130x_sensor
  sensor1 :: ap130x_sensor
  data_lanes :: "32 word"
  fmt_width :: "32 word"
  fmt_height :: "32 word"
  width_factor :: "32 word"
  out_fmt :: "32 word"
  ctrls :: "(ctrl_id \<times> 32 word) list"
  sipm_addr :: "32 word"
  trace :: "bus_op list"

text \<open>
  The platform the driver runs on: \<open>respond\<close> gives the outcome of an operation from
  the history before it (\<open>Inl e\<close> is the error \<open>-e\<close>, \<open>Inr v\<close> is success, with \<open>v\<close>
  the value read for a register read); \<open>firmware_file\<close> is what
  \<^verbatim>\<open>request_firmware\<close> finds under a name.
\<close>

record platform =
  respond :: "bus_op list \<Rightarrow> bus_op \<Rightarrow> errno + 32 word"
  firmware_file :: "string \<Rightarrow> errno + 8 word list"

definition bus :: "platform \<Rightarrow> bus_op \<Rightarrow> ap130x_device \<Rightarrow> (errno + 32 word) \<times> ap130x_device" where
  "bus env op d = (respond env (trace d) op, d\<lparr>trace := trace d @ [op]\<rparr>)"

definition emit :: "bus_op \<Rightarrow> ap130x_device \<Rightarrow> ap130x_device" where
  "emit op d = d\<lparr>trace := trace d @ [op]\<rparr>"

definition to_ret :: "errno + 32 word \<Rightarrow> ret" where
  "to_ret r = (case r of Inl e \<Rightarrow> Some e | Inr _ \<Rightarrow> None)"

section \<open>Register descriptors\<close>

definition AP130X_FW_WINDOW_SIZE :: "32 word" where "AP130X_FW_WINDOW_SIZE = 0x2000"
definition AP130X_FW_WINDOW_OFFSET :: "32 word" where "AP130X_FW_WINDOW_OFFSET = 0x8000"

definition AP130X_REG_16BIT :: "32 word \<Rightarrow> 32 word" where
  "AP130X_REG_16BIT n = (push_bit 24 2) OR n"

definition AP130X_REG_32BIT :: "32 word \<Rightarrow> 32 word" where
  "AP130X_REG_32BIT n = (push_bit 24 4) OR n"

definition AP130X_REG_SIZE :: "32 word \<Rightarrow> 32 word" where
  "AP130X_REG_SIZE n = drop_bit 24 n"

definition AP130X_REG_ADDR :: "32 word \<Rightarrow> 32 word" where
  "AP130X_REG_ADDR n = n AND 0x0000ffff"

definition AP130X_REG_PAGE :: "32 word \<Rightarrow> 32 word" where
  "AP130X_REG_PAGE n = n AND 0x00ff0000"

definition AP130X_REG_PAGE_MASK :: "32 word" where "AP130X_REG_PAGE_MASK = 0x00ff0000"
definition AP130X_REG_ADV_START :: "32 word" where "AP130X_REG_ADV_START = 0xe000"

definition AP130X_CHIP_VERSION :: "32 word" where "AP130X_CHIP_VERSION = AP130X_REG_16BIT 0x0000"
definition AP130X_CHIP_ID :: "32 word" where "AP130X_CHIP_ID = 0x0265"
definition AP130X_CHIP_REV :: "32 word" where "AP130X_CHIP_REV = AP130X_REG_16BIT 0x0050"
definition AP130X_BOOTDATA_STAGE :: "32 word" where "AP130X_BOOTDATA_STAGE = AP130X_REG_16BIT 0x6002"
definition AP130X_SYS_START :: "32 word" where "AP130X_SYS_START = AP130X_REG_16BIT 0x601a"
definition AP130X_DMA_SRC :: "32 word" where "AP130X_DMA_SRC = AP130X_REG_32BIT 0x60a0"
definition AP130X_DMA_DST :: "32 word" where "AP130X_DMA_DST = AP130X_REG_32BIT 0x60a4"
definition AP130X_DMA_SIZE :: "32 word" where "AP130X_DMA_SIZE = AP130X_REG_32BIT 0x60a8"
definition AP130X_DMA_CTRL :: "32 word" where "AP130X_DMA_CTRL = AP130X_REG_16BIT 0x60ac"
definition AP130X_ADVANCED_BASE :: "32 word" where "AP130X_ADVANCED_BASE = AP130X_REG_32BIT 0xf038"
definition AP130X_SIP_CRC :: "32 word" where "AP130X_SIP_CRC = AP130X_REG_16BIT 0xf052"
definition AP130X_ADV_IRQ_SYS_INTE :: "32 word" where
  "AP130X_ADV_IRQ_SYS_INTE = AP130X_REG_32BIT 0x00230000"

section \<open>Register transport\<close>

text \<open>
  \<^verbatim>\<open>__ap130x_write\<close> and \<^verbatim>\<open>__ap130x_read\<close>: dispatch on the width tag to one of the two
  register maps; any other tag is \<^verbatim>\<open>-EINVAL\<close> with no transfer. The address is the
  descriptor truncated to \<^verbatim>\<open>u16\<close>.
\<close>

definition ap130x_write_raw :: "platform \<Rightarrow> 32 word \<Rightarrow> 32 word \<Rightarrow> ap130x_device \<Rightarrow> ret \<times> ap130x_device" where
  "ap130x_write_raw env reg val d =
     (let size = AP130X_REG_SIZE reg; addr = (ucast (AP130X_REG_ADDR reg) :: 16 word) in
      if size = 2 then (case bus env (Reg16Write addr val) d of (r, d') \<Rightarrow> (to_ret r, d'))
      else if size = 4 then (case bus env (Reg32Write addr val) d of (r, d') \<Rightarrow> (to_ret r, d'))
      else (Some EINVAL, d))"

definition ap130x_read_raw :: "platform \<Rightarrow> 32 word \<Rightarrow> ap130x_device \<Rightarrow> (errno + 32 word) \<times> ap130x_device" where
  "ap130x_read_raw env reg d =
     (let size = AP130X_REG_SIZE reg; addr = (ucast (AP130X_REG_ADDR reg) :: 16 word) in
      if size = 2 then bus env (Reg16Read addr) d
      else if size = 4 then bus env (Reg32Read addr) d
      else (Inl EINVAL, d))"

text \<open>
  The sticky error slot \<^verbatim>\<open>int *err\<close>: \<open>None\<close> is a \<^verbatim>\<open>NULL\<close> pointer, \<open>Some r\<close> a pointer
  to a slot holding \<open>r\<close>. \<open>latch\<close> is the epilogue \<^verbatim>\<open>if (err && ret) *err = ret;\<close>.
\<close>

definition latch :: "ret \<Rightarrow> ret option \<Rightarrow> ret option" where
  "latch r err = (case err of None \<Rightarrow> None | Some old \<Rightarrow> (if r \<noteq> None then Some r else Some old))"

definition adv_reg :: "32 word \<Rightarrow> 32 word" where
  "adv_reg reg = (reg AND NOT AP130X_REG_PAGE_MASK) + AP130X_REG_ADV_START"

definition ap130x_write ::
  "platform \<Rightarrow> 32 word \<Rightarrow> 32 word \<Rightarrow> ret option \<Rightarrow> ap130x_device \<Rightarrow> ret \<times> ret option \<times> ap130x_device" where
  "ap130x_write env reg val err d =
     (case err of
        Some (Some e) \<Rightarrow> (Some e, err, d)
      | _ \<Rightarrow>
        (let page = AP130X_REG_PAGE reg in
         if page \<noteq> 0 then
           (if reg_page d \<noteq> page then
              (case ap130x_write_raw env AP130X_ADVANCED_BASE page d of
                 (Some e, d1) \<Rightarrow> (Some e, latch (Some e) err, d1)
               | (None, d1) \<Rightarrow>
                   (case ap130x_write_raw env (adv_reg reg) val (d1\<lparr>reg_page := page\<rparr>) of
                      (r, d2) \<Rightarrow> (r, latch r err, d2)))
            else
              (case ap130x_write_raw env (adv_reg reg) val d of
                 (r, d2) \<Rightarrow> (r, latch r err, d2)))
         else
           (case ap130x_write_raw env reg val d of
              (r, d2) \<Rightarrow> (r, latch r err, d2))))"

definition ap130x_read :: "platform \<Rightarrow> 32 word \<Rightarrow> ap130x_device \<Rightarrow> (errno + 32 word) \<times> ap130x_device" where
  "ap130x_read env reg d =
     (let page = AP130X_REG_PAGE reg in
      if page \<noteq> 0 then
        (if reg_page d \<noteq> page then
           (case ap130x_write_raw env AP130X_ADVANCED_BASE page d of
              (Some e, d1) \<Rightarrow> (Inl e, d1)
            | (None, d1) \<Rightarrow> ap130x_read_raw env (adv_reg reg) (d1\<lparr>reg_page := page\<rparr>))
         else ap130x_read_raw env (adv_reg reg) d)
      else ap130x_read_raw env reg d)"

section \<open>Sensor register proxy (SIPM DMA)\<close>

definition AP130X_DMA_SIP_DATA_16_BIT :: "32 word" where "AP130X_DMA_SIP_DATA_16_BIT = push_bit 25 1"
definition AP130X_DMA_SIP_ADDR_16_BIT :: "32 word" where "AP130X_DMA_SIP_ADDR_16_BIT = push_bit 24 1"
definition AP130X_DMA_CTRL_SCH_NORMAL :: "32 word" where "AP130X_DMA_CTRL_SCH_NORMAL = push_bit 12 0"
definition AP130X_DMA_CTRL_DST_REG :: "32 word" where "AP130X_DMA_CTRL_DST_REG = push_bit 8 0"
definition AP130X_DMA_CTRL_DST_SIP :: "32 word" where "AP130X_DMA_CTRL_DST_SIP = push_bit 8 3"
definition AP130X_DMA_CTRL_SRC_REG :: "32 word" where "AP130X_DMA_CTRL_SRC_REG = push_bit 4 0"
definition AP130X_DMA_CTRL_SRC_SIP :: "32 word" where "AP130X_DMA_CTRL_SRC_SIP = push_bit 4 3"
definition AP130X_DMA_CTRL_MODE_MASK :: "32 word" where "AP130X_DMA_CTRL_MODE_MASK = 7"
definition AP130X_DMA_CTRL_MODE_IDLE :: "32 word" where "AP130X_DMA_CTRL_MODE_IDLE = 0"
definition AP130X_DMA_CTRL_MODE_COPY :: "32 word" where "AP130X_DMA_CTRL_MODE_COPY = 2"

text \<open>
  \<^verbatim>\<open>ap130x_dma_wait_idle\<close>: the loop \<^verbatim>\<open>for (i = 50; i > 0; i--)\<close> with the counter as the
  recursion argument; leaving the loop with \<^verbatim>\<open>i == 0\<close> is the timeout.
\<close>

fun dma_wait_idle_loop :: "platform \<Rightarrow> nat \<Rightarrow> ap130x_device \<Rightarrow> ret \<times> ap130x_device" where
  "dma_wait_idle_loop env 0 d = (Some ETIMEDOUT, d)"
| "dma_wait_idle_loop env (Suc i) d =
     (case ap130x_read env AP130X_DMA_CTRL d of
        (Inl e, d1) \<Rightarrow> (Some e, d1)
      | (Inr ctrl, d1) \<Rightarrow>
          if ctrl AND AP130X_DMA_CTRL_MODE_MASK = AP130X_DMA_CTRL_MODE_IDLE then (None, d1)
          else dma_wait_idle_loop env i d1)"

definition ap130x_dma_wait_idle :: "platform \<Rightarrow> ap130x_device \<Rightarrow> ret \<times> ap130x_device" where
  "ap130x_dma_wait_idle env d = dma_wait_idle_loop env 50 d"

text \<open>
  \<^verbatim>\<open>ap130x_sipm_read\<close>. The four programming writes share the sticky slot \<^verbatim>\<open>&ret\<close>,
  which holds 0 when the first is issued. The final shift is
  \<^verbatim>\<open>*val >>= 32 - size * 8\<close>, a count of 24 or 16 for the width tags 1 and 2. For a width
  tag of 0, which the guard \<^verbatim>\<open>size > 2\<close> lets through, the count is 32: C leaves a shift
  of a 32-bit value by 32 undefined, and the shift instructions of the targets the driver
  is built for take the count modulo 32, leaving the word unshifted. The model takes the
  count modulo 32.
\<close>

definition ap130x_sipm_read ::
  "platform \<Rightarrow> 32 word \<Rightarrow> 32 word \<Rightarrow> ap130x_device \<Rightarrow> (errno + 32 word) \<times> ap130x_device" where
  "ap130x_sipm_read env port reg d =
     (let size = AP130X_REG_SIZE reg in
      if size > 2 then (Inl EINVAL, d)
      else
        (case ap130x_dma_wait_idle env d of
           (Some e, d1) \<Rightarrow> (Inl e, d1)
         | (None, d1) \<Rightarrow>
           (case ap130x_write env AP130X_DMA_SIZE size (Some None) d1 of (_, err1, d2) \<Rightarrow>
            (let src = push_bit 26 port
                       OR (if size = 2 then AP130X_DMA_SIP_DATA_16_BIT else 0)
                       OR AP130X_DMA_SIP_ADDR_16_BIT
                       OR push_bit 17 (i2c_addr d)
                       OR push_bit 0 (AP130X_REG_ADDR reg) in
             case ap130x_write env AP130X_DMA_SRC src err1 d2 of (_, err2, d3) \<Rightarrow>
             (case ap130x_write env AP130X_DMA_DST (AP130X_REG_ADDR AP130X_DMA_DST) err2 d3 of
                (_, err3, d4) \<Rightarrow>
              (case ap130x_write env AP130X_DMA_CTRL
                      (AP130X_DMA_CTRL_SCH_NORMAL OR AP130X_DMA_CTRL_DST_REG OR
                       AP130X_DMA_CTRL_SRC_SIP OR AP130X_DMA_CTRL_MODE_COPY) err3 d4 of
                 (_, err4, d5) \<Rightarrow>
               (case err4 of
                  Some (Some e) \<Rightarrow> (Inl e, d5)
                | _ \<Rightarrow>
                  (case ap130x_dma_wait_idle env d5 of
                     (Some e, d6) \<Rightarrow> (Inl e, d6)
                   | (None, d6) \<Rightarrow>
                     (case ap130x_read env AP130X_DMA_DST d6 of
                        (Inl e, d7) \<Rightarrow> (Inl e, d7)
                      | (Inr val, d7) \<Rightarrow> (Inr (drop_bit (unat (32 - size * 8) mod 32) val), d7))))))))))"

text \<open>
  \<^verbatim>\<open>ap130x_sipm_write\<close>. The value goes to \<^verbatim>\<open>DMA_SRC\<close> as
  \<^verbatim>\<open>(val << 16) | AP130X_REG_ADDR(AP130X_DMA_SRC)\<close>, and \<^verbatim>\<open>ret\<close> is tested right after
  that write.
\<close>

definition ap130x_sipm_write ::
  "platform \<Rightarrow> 32 word \<Rightarrow> 32 word \<Rightarrow> 32 word \<Rightarrow> ap130x_device \<Rightarrow> ret \<times> ap130x_device" where
  "ap130x_sipm_write env port reg val d =
     (let size = AP130X_REG_SIZE reg in
      if size > 2 then (Some EINVAL, d)
      else
        (case ap130x_dma_wait_idle env d of
           (Some e, d1) \<Rightarrow> (Some e, d1)
         | (None, d1) \<Rightarrow>
           (case ap130x_write env AP130X_DMA_SIZE size (Some None) d1 of (_, err1, d2) \<Rightarrow>
            (case ap130x_write env AP130X_DMA_SRC
                    (push_bit 16 val OR AP130X_REG_ADDR AP130X_DMA_SRC) err1 d2 of
               (_, err2, d3) \<Rightarrow>
             (case err2 of
                Some (Some e) \<Rightarrow> (Some e, d3)
              | _ \<Rightarrow>
                (let dst = push_bit 26 port
                           OR (if size = 2 then AP130X_DMA_SIP_DATA_16_BIT else 0)
                           OR AP130X_DMA_SIP_ADDR_16_BIT
                           OR push_bit 17 (i2c_addr d)
                           OR push_bit 0 (AP130X_REG_ADDR reg) in
                 case ap130x_write env AP130X_DMA_DST dst err2 d3 of (_, err3, d4) \<Rightarrow>
                 (case ap130x_write env AP130X_DMA_CTRL
                         (AP130X_DMA_CTRL_SCH_NORMAL OR AP130X_DMA_CTRL_DST_SIP OR
                          AP130X_DMA_CTRL_SRC_REG OR AP130X_DMA_CTRL_MODE_COPY) err3 d4 of
                    (_, err4, d5) \<Rightarrow>
                  (case err4 of
                     Some (Some e) \<Rightarrow> (Some e, d5)
                   | _ \<Rightarrow> ap130x_dma_wait_idle env d5))))))))"

text \<open>
  The debugfs front end of the proxy. \<^verbatim>\<open>ap130x_sipm_addr_set\<close> takes a \<^verbatim>\<open>u64\<close> and stores
  it truncated to \<^verbatim>\<open>u32\<close>; the mask \<^verbatim>\<open>~0x8700ffff\<close> is an \<^verbatim>\<open>unsigned int\<close>, zero-extended
  for the test against the 64-bit value; \<^verbatim>\<open>ap130x_sipm_data_get\<close> and \<^verbatim>\<open>ap130x_sipm_data_set\<close> call the
  proxy with port \<^verbatim>\<open>addr >> 30\<close> and descriptor \<^verbatim>\<open>addr & ~BIT(31)\<close>.
\<close>

definition ap130x_sipm_addr_set :: "64 word \<Rightarrow> ap130x_device \<Rightarrow> ret \<times> ap130x_device" where
  "ap130x_sipm_addr_set val d =
     (if val AND ucast (NOT (0x8700ffff :: 32 word)) \<noteq> 0 then (Some EINVAL, d)
      else if drop_bit 24 val AND 7 = 1 \<or> drop_bit 24 val AND 7 = 2
      then (None, d\<lparr>sipm_addr := ucast val\<rparr>)
      else (Some EINVAL, d))"

definition ap130x_sipm_data_get :: "platform \<Rightarrow> ap130x_device \<Rightarrow> (errno + 32 word) \<times> ap130x_device" where
  "ap130x_sipm_data_get env d =
     (let addr = sipm_addr d in
      if addr = 0 then (Inl EINVAL, d)
      else ap130x_sipm_read env (drop_bit 30 addr) (addr AND NOT (push_bit 31 1)) d)"

definition ap130x_sipm_data_set :: "platform \<Rightarrow> 64 word \<Rightarrow> ap130x_device \<Rightarrow> ret \<times> ap130x_device" where
  "ap130x_sipm_data_set env val d =
     (let addr = sipm_addr d in
      if addr = 0 then (Some EINVAL, d)
      else ap130x_sipm_write env (drop_bit 30 addr) (addr AND NOT (push_bit 31 1)) (ucast val) d)"

section \<open>Stream stall\<close>

definition AP130X_SYS_START_PLL_LOCK :: "32 word" where "AP130X_SYS_START_PLL_LOCK = push_bit 15 1"
definition AP130X_SYS_START_STALL_STATUS :: "32 word" where "AP130X_SYS_START_STALL_STATUS = push_bit 9 1"
definition AP130X_SYS_START_STALL_EN :: "32 word" where "AP130X_SYS_START_STALL_EN = push_bit 8 1"
definition AP130X_SYS_START_STALL_MODE_DISABLED :: "32 word" where
  "AP130X_SYS_START_STALL_MODE_DISABLED = push_bit 6 1"
definition AP130X_ADV_IRQ_SYS_INTE_SIPM :: "32 word" where "AP130X_ADV_IRQ_SYS_INTE_SIPM = push_bit 6 3"
definition AP130X_ADV_IRQ_SYS_INTE_SIPS_FIFO_WRITE :: "32 word" where
  "AP130X_ADV_IRQ_SYS_INTE_SIPS_FIFO_WRITE = push_bit 3 1"

definition ap130x_stall :: "platform \<Rightarrow> bool \<Rightarrow> ap130x_device \<Rightarrow> ret \<times> ap130x_device" where
  "ap130x_stall env stall d =
     (if stall then
        (case ap130x_write env AP130X_SYS_START
                (AP130X_SYS_START_PLL_LOCK OR AP130X_SYS_START_STALL_MODE_DISABLED) (Some None) d of
           (_, err1, d1) \<Rightarrow>
         (case ap130x_write env AP130X_SYS_START
                 (AP130X_SYS_START_PLL_LOCK OR AP130X_SYS_START_STALL_EN OR
                  AP130X_SYS_START_STALL_MODE_DISABLED) err1 d1 of
            (_, err2, d2) \<Rightarrow>
          (case err2 of
             Some (Some e) \<Rightarrow> (Some e, d2)
           | _ \<Rightarrow>
             (case ap130x_write env AP130X_ADV_IRQ_SYS_INTE
                     (AP130X_ADV_IRQ_SYS_INTE_SIPM OR AP130X_ADV_IRQ_SYS_INTE_SIPS_FIFO_WRITE)
                     None d2 of
                (r, _, d3) \<Rightarrow> (r, d3)))))
      else
        (case ap130x_write env AP130X_SYS_START
                (AP130X_SYS_START_PLL_LOCK OR AP130X_SYS_START_STALL_STATUS OR
                 AP130X_SYS_START_STALL_EN OR AP130X_SYS_START_STALL_MODE_DISABLED) None d of
           (r, _, d1) \<Rightarrow> (r, d1)))"

section \<open>Firmware image and load window\<close>

text \<open>
  \<^verbatim>\<open>struct ap130x_firmware_header\<close> is packed and read in place from the blob: four
  \<^verbatim>\<open>u32\<close> in host byte order, little-endian on the i.MX. A byte beyond the end of the blob
  reads as 0 here; the driver reads the header only after checking the blob holds 16 bytes.
\<close>

record ap130x_firmware_header =
  crc :: "32 word"
  checksum :: "32 word"
  pll_init_size :: "32 word"
  total_size :: "32 word"

definition byte_at :: "8 word list \<Rightarrow> nat \<Rightarrow> 32 word" where
  "byte_at bs i = (if i < length bs then ucast (bs ! i) else 0)"

definition le32 :: "8 word list \<Rightarrow> nat \<Rightarrow> 32 word" where
  "le32 bs off = byte_at bs off OR push_bit 8 (byte_at bs (off + 1))
                 OR push_bit 16 (byte_at bs (off + 2)) OR push_bit 24 (byte_at bs (off + 3))"

definition fw_header :: "8 word list \<Rightarrow> ap130x_firmware_header" where
  "fw_header blob = \<lparr>crc = le32 blob 0, checksum = le32 blob 4,
                     pll_init_size = le32 blob 8, total_size = le32 blob 12\<rparr>"

definition suffixes :: "nat \<Rightarrow> string" where
  "suffixes n = (if n = 0 then '''' else if n = 1 then ''_single'' else ''_dual'')"

text \<open>
  \<^verbatim>\<open>ap130x_request_firmware\<close>. \<open>fw_name\<close> is the name built by \<^verbatim>\<open>snprintf\<close> from the
  sensor name and the number of sensors present; a name of 64 characters or more does
  not fit the buffer.
\<close>

definition fw_name :: "ap130x_device \<Rightarrow> string" where
  "fw_name d =
     (let num_sensors = (if dev_present (sensor0 d) then 1 else 0)
                        + (if dev_present (sensor1 d) then 1 else (0::nat))
      in ''ap130x_'' @ sensor_name d @ suffixes num_sensors @ ''_fw.bin'')"

definition ap130x_request_firmware :: "platform \<Rightarrow> ap130x_device \<Rightarrow> ret \<times> ap130x_device" where
  "ap130x_request_firmware env d =
     (let name = fw_name d
      in if length name \<ge> 64 then (Some EINVAL, d)
         else
           (case firmware_file env name of
              Inl e \<Rightarrow> (Some e, emit (RequestFirmware name) d)
            | Inr blob \<Rightarrow>
              (let d1 = (emit (RequestFirmware name) d)\<lparr>fw := blob\<rparr> in
               if length blob < 16 then (Some EINVAL, d1)
               else
                 (let fw_size = (of_nat (length blob) - 16 :: 32 word) in
                  if pll_init_size (fw_header blob) > fw_size then (Some EINVAL, d1)
                  else (None, d1)))))"

text \<open>
  \<^verbatim>\<open>ap130x_write_fw_window\<close>. \<^verbatim>\<open>buf += write_size\<close> is \<open>drop\<close>, the block handed to
  \<^verbatim>\<open>regmap_raw_write\<close> is the next \<^verbatim>\<open>write_size\<close> bytes of the buffer, and the result carries
  the updated \<^verbatim>\<open>*win_pos\<close>. All arithmetic is on \<^verbatim>\<open>unsigned int\<close>.
\<close>

function ap130x_write_fw_window ::
  "platform \<Rightarrow> 8 word list \<Rightarrow> 32 word \<Rightarrow> 32 word \<Rightarrow> ap130x_device \<Rightarrow> ret \<times> 32 word \<times> ap130x_device" where
  "ap130x_write_fw_window env buf len win_pos d =
     (if len > 0 then
        (let write_addr = win_pos + AP130X_FW_WINDOW_OFFSET;
             write_size = min len (AP130X_FW_WINDOW_SIZE - win_pos) in
         case bus env (RawWrite16 write_addr write_size (take (unat write_size) buf)) d of
           (Inl e, d1) \<Rightarrow> (Some e, win_pos, d1)
         | (Inr _, d1) \<Rightarrow>
             ap130x_write_fw_window env (drop (unat write_size) buf) (len - write_size)
               (if win_pos + write_size \<ge> AP130X_FW_WINDOW_SIZE then 0 else win_pos + write_size) d1)
      else (None, win_pos, d))"
  by pat_completeness auto

termination ap130x_write_fw_window
proof (relation "measure (\<lambda>(env, buf, len, win_pos, d).
        2 * unat len + (if win_pos = AP130X_FW_WINDOW_SIZE then 1 else 0))", goal_cases)
  case 1
  show ?case by simp
next
  case (2 env buf len win_pos d x xa xb y b)
  define ws where "ws = min len (AP130X_FW_WINDOW_SIZE - win_pos)"
  have step: "2 * unat (len - ws)
           + (if (if win_pos + ws \<ge> AP130X_FW_WINDOW_SIZE then 0 else win_pos + ws)
                 = AP130X_FW_WINDOW_SIZE then 1 else 0)
         < 2 * unat len + (if win_pos = AP130X_FW_WINDOW_SIZE then 1 else (0::nat))"
  proof (cases "win_pos = AP130X_FW_WINDOW_SIZE")
    case True
    then show ?thesis by (simp add: ws_def AP130X_FW_WINDOW_SIZE_def)
  next
    case False
    have le: "ws \<le> len" by (simp add: ws_def)
    have "AP130X_FW_WINDOW_SIZE - win_pos \<noteq> 0" using False by simp
    then have "ws \<noteq> 0" using \<open>0 < len\<close> by (auto simp: ws_def min_def)
    then have pos: "0 < unat ws" by (simp add: unat_gt_0)
    have "unat ws \<le> unat len" using le by (simp add: word_le_nat_alt)
    moreover have "unat (len - ws) = unat len - unat ws" using le by (simp add: unat_sub)
    ultimately have "2 * unat (len - ws) + 1 < 2 * unat len" using pos by arith
    then show ?thesis using False by simp
  qed
  show ?case
    unfolding in_measure prod.case \<open>xa = min len (AP130X_FW_WINDOW_SIZE - win_pos)\<close>
    using step unfolding ws_def .
qed

declare ap130x_write_fw_window.simps [simp del]

text \<open>
  \<^verbatim>\<open>ap130x_load_firmware\<close>. \<^verbatim>\<open>fw_data\<close> is the blob past the 16-byte header and
  \<^verbatim>\<open>fw_size\<close> its length; \<^verbatim>\<open>win_pos\<close> starts at 0 and the value left by the PLL segment
  is handed to the second call. The read-back and comparison of \<^verbatim>\<open>AP130X_SIP_CRC\<close> is
  inside \<^verbatim>\<open>#if 0\<close> in the source, so it is not part of the function. The sleeps are
  omitted.
\<close>

definition ap130x_load_firmware :: "platform \<Rightarrow> ap130x_device \<Rightarrow> ret \<times> ap130x_device" where
  "ap130x_load_firmware env d =
     (let fw_hdr = fw_header (fw d);
          fw_data = drop 16 (fw d);
          fw_size = (of_nat (length (fw d)) - 16 :: 32 word) in
      case ap130x_write env AP130X_SIP_CRC 0xffff None d of
        (Some e, _, d1) \<Rightarrow> (Some e, d1)
      | (None, _, d1) \<Rightarrow>
        (case ap130x_write_fw_window env fw_data (pll_init_size fw_hdr) 0 d1 of
           (Some e, _, d2) \<Rightarrow> (Some e, d2)
         | (None, win_pos, d2) \<Rightarrow>
           (case ap130x_write env AP130X_BOOTDATA_STAGE 0x0002 None d2 of
              (Some e, _, d3) \<Rightarrow> (Some e, d3)
            | (None, _, d3) \<Rightarrow>
              (case ap130x_write_fw_window env (drop (unat (pll_init_size fw_hdr)) fw_data)
                      (fw_size - pll_init_size fw_hdr) win_pos d3 of
                 (Some e, _, d4) \<Rightarrow> (Some e, d4)
               | (None, _, d4) \<Rightarrow>
                 (case ap130x_write env AP130X_BOOTDATA_STAGE 0xffff None d4 of
                    (Some e, _, d5) \<Rightarrow> (Some e, d5)
                  | (None, _, d5) \<Rightarrow>
                    (case ap130x_stall env True d5 of
                       (None, d6) \<Rightarrow> (None, d6\<lparr>streaming := False\<rparr>)
                     | (Some e, d6) \<Rightarrow> (Some e, d6)))))))"

definition ap130x_detect_chip :: "platform \<Rightarrow> ap130x_device \<Rightarrow> ret \<times> ap130x_device" where
  "ap130x_detect_chip env d =
     (case ap130x_read env AP130X_CHIP_VERSION d of
        (Inl e, d1) \<Rightarrow> (Some e, d1)
      | (Inr version, d1) \<Rightarrow>
        (case ap130x_read env AP130X_CHIP_REV d1 of
           (Inl e, d2) \<Rightarrow> (Some e, d2)
         | (Inr revision, d2) \<Rightarrow>
             if version \<noteq> AP130X_CHIP_ID then (Some EINVAL, d2) else (None, d2)))"

section \<open>Power handling\<close>

definition sensor_at :: "ap130x_device \<Rightarrow> nat \<Rightarrow> ap130x_sensor" where
  "sensor_at d i = (if i = 0 then sensor0 d else sensor1 d)"

text \<open>The rails \<^verbatim>\<open>regulator_bulk_disable(sensor->num_supplies, sensor->supplies)\<close> releases.\<close>

definition sensor_rails :: "ap130x_device \<Rightarrow> nat \<Rightarrow> rail list" where
  "sensor_rails d i = map (SensorSupply i) [0..<num_supplies (sensor_at d i)]"

text \<open>
  \<^verbatim>\<open>ap130x_power_on_sensors\<close>. The inner loop over the supplies \<open>j\<close> of sensor \<open>i\<close>
  returns the failing index with the error; the two loops after the \<^verbatim>\<open>error\<close> label
  disable the supplies below \<open>j\<close> one by one and the sensors below \<open>i\<close> in bulk.
\<close>

function sensor_supplies_on ::
  "platform \<Rightarrow> nat \<Rightarrow> nat \<Rightarrow> nat \<Rightarrow> ap130x_device \<Rightarrow> (errno \<times> nat) option \<times> ap130x_device" where
  "sensor_supplies_on env i n j d =
     (if j < n then
        (case bus env (RegulatorEnable (SensorSupply i j)) d of
           (Inl e, d1) \<Rightarrow> (Some (e, j), d1)
         | (Inr _, d1) \<Rightarrow> sensor_supplies_on env i n (Suc j) d1)
      else (None, d))"
  by pat_completeness auto
termination sensor_supplies_on
  by (relation "measure (\<lambda>(env, i, n, j, d). n - j)") auto

declare sensor_supplies_on.simps [simp del]

fun sensor_supplies_unwind :: "nat \<Rightarrow> nat \<Rightarrow> ap130x_device \<Rightarrow> ap130x_device" where
  "sensor_supplies_unwind i 0 d = d"
| "sensor_supplies_unwind i (Suc j) d =
     sensor_supplies_unwind i j (emit (RegulatorDisable (SensorSupply i j)) d)"

fun sensors_unwind :: "nat \<Rightarrow> ap130x_device \<Rightarrow> ap130x_device" where
  "sensors_unwind 0 d = d"
| "sensors_unwind (Suc i) d =
     sensors_unwind i (emit (RegulatorBulkDisable (sensor_rails d i)) d)"

function power_on_sensors_loop :: "platform \<Rightarrow> nat \<Rightarrow> ap130x_device \<Rightarrow> ret \<times> ap130x_device" where
  "power_on_sensors_loop env i d =
     (if i < 2 then
        (case sensor_supplies_on env i (num_supplies (sensor_at d i)) 0 d of
           (Some (e, j), d1) \<Rightarrow> (Some e, sensors_unwind i (sensor_supplies_unwind i j d1))
         | (None, d1) \<Rightarrow> power_on_sensors_loop env (Suc i) d1)
      else (None, d))"
  by pat_completeness auto
termination power_on_sensors_loop
  by (relation "measure (\<lambda>(env, i, d). 2 - i)") auto

declare power_on_sensors_loop.simps [simp del]

definition ap130x_power_on_sensors :: "platform \<Rightarrow> ap130x_device \<Rightarrow> ret \<times> ap130x_device" where
  "ap130x_power_on_sensors env d =
     (if \<not> sensor_supplies d then (None, d) else power_on_sensors_loop env 0 d)"

definition ap130x_power_off_sensors :: "ap130x_device \<Rightarrow> ap130x_device" where
  "ap130x_power_off_sensors d =
     (if \<not> sensor_supplies d then d
      else fold (\<lambda>i. emit (RegulatorBulkDisable (sensor_rails d i))) [0..<2] d)"

definition AP130X_NUM_SUPPLIES :: nat where "AP130X_NUM_SUPPLIES = 3"

function isp_supplies_on :: "platform \<Rightarrow> nat \<Rightarrow> ap130x_device \<Rightarrow> ret \<times> ap130x_device" where
  "isp_supplies_on env i d =
     (if i < AP130X_NUM_SUPPLIES then
        (case bus env (RegulatorEnable (IspSupply i)) d of
           (Inl e, d1) \<Rightarrow> (Some e, d1)
         | (Inr _, d1) \<Rightarrow> isp_supplies_on env (Suc i) d1)
      else (None, d))"
  by pat_completeness auto
termination isp_supplies_on
  by (relation "measure (\<lambda>(env, i, d). AP130X_NUM_SUPPLIES - i)") auto

declare isp_supplies_on.simps [simp del]

definition ap130x_power_on :: "platform \<Rightarrow> ap130x_device \<Rightarrow> ret \<times> ap130x_device" where
  "ap130x_power_on env d =
     (let d1 = (if standby_gpio d then emit (GpioSet StandbyGpio True) d else d) in
      case isp_supplies_on env 0 d1 of
        (Some e, d2) \<Rightarrow> (Some e, d2)
      | (None, d2) \<Rightarrow>
        (let d3 = (if standby_gpio d then emit (GpioSet StandbyGpio False) d2 else d2) in
         case bus env ClkPrepareEnable d3 of
           (Inl e, d4) \<Rightarrow> (Some e, d4)
         | (Inr _, d4) \<Rightarrow> (None, emit (GpioSet ResetGpio False) d4)))"

definition ap130x_power_off :: "ap130x_device \<Rightarrow> ap130x_device" where
  "ap130x_power_off d =
     (let d1 = emit (GpioSet ResetGpio True) d;
          d2 = emit ClkDisableUnprepare d1;
          d3 = (if standby_gpio d then emit (GpioSet StandbyGpio True) d2 else d2);
          d4 = emit (RegulatorBulkDisable (map IspSupply [0..<AP130X_NUM_SUPPLIES])) d3
      in if standby_gpio d then emit (GpioSet StandbyGpio False) d4 else d4)"

section \<open>Boot sequence\<close>

definition MAX_FW_LOAD_RETRIES :: nat where "MAX_FW_LOAD_RETRIES = 3"

text \<open>
  How control leaves the retry loop of \<^verbatim>\<open>ap130x_hw_init\<close>: by one of the two \<^verbatim>\<open>goto\<close>s
  with \<^verbatim>\<open>ret\<close> set, or past its end (by \<^verbatim>\<open>break\<close> or by the loop condition) with the
  value of \<^verbatim>\<open>retries\<close>.
\<close>

datatype loop_exit = GotoErrorPower errno | GotoErrorPowerSensors errno | LoopDone nat

function hw_init_loop :: "platform \<Rightarrow> nat \<Rightarrow> ap130x_device \<Rightarrow> loop_exit \<times> ap130x_device" where
  "hw_init_loop env retries d =
     (if retries < MAX_FW_LOAD_RETRIES then
        (case ap130x_power_on env d of
           (Some e, d1) \<Rightarrow> (GotoErrorPowerSensors e, d1)
         | (None, d1) \<Rightarrow>
           (case ap130x_detect_chip env d1 of
              (Some e, d2) \<Rightarrow> (GotoErrorPower e, d2)
            | (None, d2) \<Rightarrow>
              (case ap130x_load_firmware env d2 of
                 (None, d3) \<Rightarrow> (LoopDone retries, d3)
               | (Some e, d3) \<Rightarrow>
                   if e \<noteq> EAGAIN then (GotoErrorPower e, d3)
                   else hw_init_loop env (Suc retries) (ap130x_power_off d3))))
      else (LoopDone retries, d))"
  by pat_completeness auto
termination hw_init_loop
  by (relation "measure (\<lambda>(env, retries, d). MAX_FW_LOAD_RETRIES - retries)") auto

declare hw_init_loop.simps [simp del]

definition error_firmware :: "ap130x_device \<Rightarrow> ap130x_device" where
  "error_firmware d = emit ReleaseFirmware d"

definition error_power_sensors :: "ap130x_device \<Rightarrow> ap130x_device" where
  "error_power_sensors d = error_firmware (ap130x_power_off_sensors d)"

definition error_power :: "ap130x_device \<Rightarrow> ap130x_device" where
  "error_power d = error_power_sensors (ap130x_power_off d)"

definition ap130x_hw_init :: "platform \<Rightarrow> ap130x_device \<Rightarrow> ret \<times> ap130x_device" where
  "ap130x_hw_init env d =
     (case ap130x_request_firmware env d of
        (Some e, d1) \<Rightarrow> (Some e, d1)
      | (None, d1) \<Rightarrow>
        (case ap130x_power_on_sensors env d1 of
           (Some e, d2) \<Rightarrow> (Some e, error_firmware d2)
         | (None, d2) \<Rightarrow>
           (case hw_init_loop env 0 d2 of
              (GotoErrorPowerSensors e, d3) \<Rightarrow> (Some e, error_power_sensors d3)
            | (GotoErrorPower e, d3) \<Rightarrow> (Some e, error_power d3)
            | (LoopDone retries, d3) \<Rightarrow>
                if retries = MAX_FW_LOAD_RETRIES then (Some ETIMEDOUT, error_power_sensors d3)
                else (None, d3))))"

definition ap130x_hw_cleanup :: "ap130x_device \<Rightarrow> ap130x_device" where
  "ap130x_hw_cleanup d = ap130x_power_off_sensors (ap130x_power_off d)"

text \<open>
  \<^verbatim>\<open>ap130x_remove\<close>, as far as it touches power and the firmware image: the debugfs, V4L2
  and media clean-up calls around these two steps do neither.
\<close>

definition ap130x_remove :: "ap130x_device \<Rightarrow> ap130x_device" where
  "ap130x_remove d = emit ReleaseFirmware (ap130x_hw_cleanup d)"

section \<open>Controls, output configuration and streaming\<close>

definition AP130X_DZ_TGT_FCT :: "32 word" where "AP130X_DZ_TGT_FCT = AP130X_REG_16BIT 0x1010"
definition AP130X_SFX_MODE :: "32 word" where "AP130X_SFX_MODE = AP130X_REG_16BIT 0x1016"
definition AP130X_PREVIEW_WIDTH :: "32 word" where "AP130X_PREVIEW_WIDTH = AP130X_REG_16BIT 0x2000"
definition AP130X_PREVIEW_HEIGHT :: "32 word" where "AP130X_PREVIEW_HEIGHT = AP130X_REG_16BIT 0x2002"
definition AP130X_PREVIEW_OUT_FMT :: "32 word" where "AP130X_PREVIEW_OUT_FMT = AP130X_REG_16BIT 0x2012"
definition AP130X_PREVIEW_HINF_CTRL :: "32 word" where "AP130X_PREVIEW_HINF_CTRL = AP130X_REG_16BIT 0x2030"
definition AP130X_PREVIEW_HINF_CTRL_SPOOF :: "32 word" where "AP130X_PREVIEW_HINF_CTRL_SPOOF = push_bit 4 1"
definition AP130X_AE_CTRL :: "32 word" where "AP130X_AE_CTRL = AP130X_REG_16BIT 0x5002"
definition AP130X_AE_CTRL_MODE_MASK :: "32 word" where "AP130X_AE_CTRL_MODE_MASK = 0x000f"
definition AP130X_AE_MANUAL_GAIN :: "32 word" where "AP130X_AE_MANUAL_GAIN = AP130X_REG_16BIT 0x5006"
definition AP130X_AE_MET :: "32 word" where "AP130X_AE_MET = AP130X_REG_16BIT 0x503E"
definition AP130X_AWB_CTRL :: "32 word" where "AP130X_AWB_CTRL = AP130X_REG_16BIT 0x5100"
definition AP130X_AWB_CTRL_FLASH :: "32 word" where "AP130X_AWB_CTRL_FLASH = push_bit 8 1"
definition AP130X_AWB_CTRL_MODE_MASK :: "32 word" where "AP130X_AWB_CTRL_MODE_MASK = 0x000f"
definition AP130X_FLICK_CTRL :: "32 word" where "AP130X_FLICK_CTRL = AP130X_REG_16BIT 0x5440"
definition AP130X_SCENE_CTRL :: "32 word" where "AP130X_SCENE_CTRL = AP130X_REG_16BIT 0x5454"
definition AP130X_BRIGHTNESS :: "32 word" where "AP130X_BRIGHTNESS = AP130X_REG_16BIT 0x7000"
definition AP130X_CONTRAST :: "32 word" where "AP130X_CONTRAST = AP130X_REG_16BIT 0x7002"
definition AP130X_SATURATION :: "32 word" where "AP130X_SATURATION = AP130X_REG_16BIT 0x7006"
definition AP130X_GAMMA :: "32 word" where "AP130X_GAMMA = AP130X_REG_16BIT 0x700A"
definition V4L2_WHITE_BALANCE_FLASH :: "32 word" where "V4L2_WHITE_BALANCE_FLASH = 7"

text \<open>
  The value tables, indexed by the control value. The V4L2 control framework keeps a
  control value within the bounds registered for it, which lie inside each table; an
  index outside a table is an out-of-bounds read in C and unspecified here.
\<close>

definition ap130x_wb_values :: "32 word list" where
  "ap130x_wb_values = [0, 15, 2, 4, 5, 1, 5, 15, 6, 6]"

definition ap130x_sfx_values :: "32 word list" where
  "ap130x_sfx_values = [0, 3, 13, 7, 4, 15, 8, 9, 10, 0, 0, 0, 0, 16, 2, 0]"

definition ap130x_scene_mode_values :: "32 word list" where
  "ap130x_scene_mode_values = [0, 7, 10, 6, 0, 0, 13, 2, 5, 12, 1, 3, 14, 11]"

definition ap130x_flicker_values :: "32 word list" where
  "ap130x_flicker_values = [0, push_bit 8 50 OR 1, push_bit 8 60 OR 1, 2]"

text \<open>A call \<^verbatim>\<open>ap130x_write(ap130x, reg, val, NULL)\<close>, keeping the return code and the device.\<close>

definition write_null :: "platform \<Rightarrow> 32 word \<Rightarrow> 32 word \<Rightarrow> ap130x_device \<Rightarrow> ret \<times> ap130x_device" where
  "write_null env reg val d = (case ap130x_write env reg val None d of (r, _, d') \<Rightarrow> (r, d'))"

definition ap130x_set_wb_mode :: "platform \<Rightarrow> 32 word \<Rightarrow> ap130x_device \<Rightarrow> ret \<times> ap130x_device" where
  "ap130x_set_wb_mode env mode d =
     (case ap130x_read env AP130X_AWB_CTRL d of
        (Inl e, d1) \<Rightarrow> (Some e, d1)
      | (Inr val, d1) \<Rightarrow>
        (let val1 = val AND NOT AP130X_AWB_CTRL_MODE_MASK;
             val2 = val1 OR ap130x_wb_values ! unat mode;
             val3 = (if mode = V4L2_WHITE_BALANCE_FLASH then val2 OR AP130X_AWB_CTRL_FLASH
                     else val2 AND NOT AP130X_AWB_CTRL_FLASH)
         in write_null env AP130X_AWB_CTRL val3 d1))"

definition ap130x_set_exposure :: "platform \<Rightarrow> 32 word \<Rightarrow> ap130x_device \<Rightarrow> ret \<times> ap130x_device" where
  "ap130x_set_exposure env mode d =
     (case ap130x_read env AP130X_AE_CTRL d of
        (Inl e, d1) \<Rightarrow> (Some e, d1)
      | (Inr val, d1) \<Rightarrow>
          write_null env AP130X_AE_CTRL ((val AND NOT AP130X_AE_CTRL_MODE_MASK) OR mode) d1)"

fun ap130x_s_ctrl :: "platform \<Rightarrow> ctrl_id \<Rightarrow> 32 word \<Rightarrow> ap130x_device \<Rightarrow> ret \<times> ap130x_device" where
  "ap130x_s_ctrl env CID_AUTO_N_PRESET_WHITE_BALANCE val d = ap130x_set_wb_mode env val d"
| "ap130x_s_ctrl env CID_EXPOSURE val d = ap130x_set_exposure env val d"
| "ap130x_s_ctrl env CID_EXPOSURE_METERING val d = write_null env AP130X_AE_MET val d"
| "ap130x_s_ctrl env CID_GAIN val d = write_null env AP130X_AE_MANUAL_GAIN val d"
| "ap130x_s_ctrl env CID_GAMMA val d = write_null env AP130X_GAMMA val d"
| "ap130x_s_ctrl env CID_CONTRAST val d = write_null env AP130X_CONTRAST val d"
| "ap130x_s_ctrl env CID_BRIGHTNESS val d = write_null env AP130X_BRIGHTNESS val d"
| "ap130x_s_ctrl env CID_SATURATION val d = write_null env AP130X_SATURATION val d"
| "ap130x_s_ctrl env CID_ZOOM_ABSOLUTE val d = write_null env AP130X_DZ_TGT_FCT val d"
| "ap130x_s_ctrl env CID_COLORFX val d =
     write_null env AP130X_SFX_MODE (ap130x_sfx_values ! unat val) d"
| "ap130x_s_ctrl env CID_SCENE_MODE val d =
     write_null env AP130X_SCENE_CTRL (ap130x_scene_mode_values ! unat val) d"
| "ap130x_s_ctrl env CID_POWER_LINE_FREQUENCY val d =
     write_null env AP130X_FLICK_CTRL (ap130x_flicker_values ! unat val) d"
| "ap130x_s_ctrl env CID_LINK_FREQ val d = (Some EINVAL, d)"

text \<open>
  \<^verbatim>\<open>__v4l2_ctrl_handler_setup\<close> belongs to the V4L2 core: it calls the driver's
  \<^verbatim>\<open>s_ctrl\<close> for the registered controls with their current values, in the handler's
  order, and stops at the first failure. \<open>ctrls\<close> holds the controls in that order.
  \<^verbatim>\<open>ap130x_configure\<close> discards its result.
\<close>

fun v4l2_ctrl_handler_setup ::
  "platform \<Rightarrow> (ctrl_id \<times> 32 word) list \<Rightarrow> ap130x_device \<Rightarrow> ret \<times> ap130x_device" where
  "v4l2_ctrl_handler_setup env [] d = (None, d)"
| "v4l2_ctrl_handler_setup env ((cid, val) # cs) d =
     (case ap130x_s_ctrl env cid val d of
        (Some e, d1) \<Rightarrow> (Some e, d1)
      | (None, d1) \<Rightarrow> v4l2_ctrl_handler_setup env cs d1)"

text \<open>
  \<^verbatim>\<open>ap130x_configure\<close>. The width written is \<^verbatim>\<open>format.width / width_factor\<close>, an unsigned
  division; \<^verbatim>\<open>width_factor\<close> is 1 or the number of sensors, never 0.
\<close>

definition ap130x_configure :: "platform \<Rightarrow> ap130x_device \<Rightarrow> ret \<times> ap130x_device" where
  "ap130x_configure env d =
     (case ap130x_write env AP130X_PREVIEW_HINF_CTRL
             (AP130X_PREVIEW_HINF_CTRL_SPOOF OR push_bit 0 (data_lanes d)) (Some None) d of
        (_, err1, d1) \<Rightarrow>
      (case ap130x_write env AP130X_PREVIEW_WIDTH (fmt_width d div width_factor d) err1 d1 of
         (_, err2, d2) \<Rightarrow>
       (case ap130x_write env AP130X_PREVIEW_HEIGHT (fmt_height d) err2 d2 of
          (_, err3, d3) \<Rightarrow>
        (case ap130x_write env AP130X_PREVIEW_OUT_FMT (out_fmt d) err3 d3 of
           (_, err4, d4) \<Rightarrow>
         (case err4 of
            Some (Some e) \<Rightarrow> (Some e, d4)
          | _ \<Rightarrow> (None, snd (v4l2_ctrl_handler_setup env (ctrls d4) d4)))))))"

text \<open>
  \<^verbatim>\<open>ap130x_s_stream\<close>. \<^verbatim>\<open>enable\<close> is a C \<^verbatim>\<open>int\<close>; the test \<^verbatim>\<open>enable == ap130x->streaming\<close>
  compares it with the flag promoted to 0 or 1.
\<close>

definition ap130x_s_stream :: "platform \<Rightarrow> int \<Rightarrow> ap130x_device \<Rightarrow> ret \<times> ap130x_device" where
  "ap130x_s_stream env enable d =
     (if enable = (if streaming d then 1 else 0) then (None, d)
      else if enable \<noteq> 0 then
        (case ap130x_configure env d of
           (Some e, d1) \<Rightarrow> (Some e, d1)
         | (None, d1) \<Rightarrow>
           (case ap130x_stall env False d1 of
              (None, d2) \<Rightarrow> (None, d2\<lparr>streaming := True\<rparr>)
            | (Some e, d2) \<Rightarrow> (Some e, d2)))
      else
        (case ap130x_stall env True d of
           (None, d1) \<Rightarrow> (None, d1\<lparr>streaming := False\<rparr>)
         | (Some e, d1) \<Rightarrow> (Some e, d1)))"

section \<open>Vocabulary of the properties\<close>

text \<open>
  A register access is a call of \<^verbatim>\<open>ap130x_read\<close> or of \<^verbatim>\<open>ap130x_write\<close>; a write carries
  the sticky slot it is called with (\<open>None\<close> for \<^verbatim>\<open>NULL\<close>, \<open>Some None\<close> for a slot holding 0,
  \<open>Some (Some e)\<close> for a slot that already holds an error). A write whose slot already holds
  an error is \<open>skipped\<close>: \<^verbatim>\<open>ap130x_write\<close> returns before touching the bus. \<open>page_select\<close> is
  the write of a page to \<^verbatim>\<open>AP130X_ADVANCED_BASE\<close> (register \<^verbatim>\<open>0xf038\<close> of the 32-bit space);
  \<open>target_ops\<close> is the transfer the access itself makes once the page is right: one
  transfer on the register map its width tag names, none for any other tag.
\<close>

datatype access = RegRead "32 word" | RegWrite "32 word" "32 word" "ret option"

fun access_reg :: "access \<Rightarrow> 32 word" where
  "access_reg (RegRead reg) = reg"
| "access_reg (RegWrite reg val err) = reg"

fun skipped :: "access \<Rightarrow> bool" where
  "skipped (RegRead reg) = False"
| "skipped (RegWrite reg val err) = (case err of Some (Some e) \<Rightarrow> True | _ \<Rightarrow> False)"

fun do_access :: "platform \<Rightarrow> access \<Rightarrow> ap130x_device \<Rightarrow> ret \<times> ap130x_device" where
  "do_access env (RegRead reg) d = (case ap130x_read env reg d of (r, d') \<Rightarrow> (to_ret r, d'))"
| "do_access env (RegWrite reg val err) d =
     (case ap130x_write env reg val err d of (r, err', d') \<Rightarrow> (r, d'))"

definition page_select :: "32 word \<Rightarrow> bus_op" where
  "page_select page = Reg32Write 0xf038 page"

definition write_ops :: "32 word \<Rightarrow> 32 word \<Rightarrow> bus_op list" where
  "write_ops reg val =
     (if AP130X_REG_SIZE reg = 2 then [Reg16Write (ucast (AP130X_REG_ADDR reg)) val]
      else if AP130X_REG_SIZE reg = 4 then [Reg32Write (ucast (AP130X_REG_ADDR reg)) val]
      else [])"

definition read_ops :: "32 word \<Rightarrow> bus_op list" where
  "read_ops reg =
     (if AP130X_REG_SIZE reg = 2 then [Reg16Read (ucast (AP130X_REG_ADDR reg))]
      else if AP130X_REG_SIZE reg = 4 then [Reg32Read (ucast (AP130X_REG_ADDR reg))]
      else [])"

fun target_ops :: "access \<Rightarrow> bus_op list" where
  "target_ops (RegRead reg) = read_ops (if AP130X_REG_PAGE reg = 0 then reg else adv_reg reg)"
| "target_ops (RegWrite reg val err) =
     write_ops (if AP130X_REG_PAGE reg = 0 then reg else adv_reg reg) val"

text \<open>Concrete platforms and a concrete device, used to instantiate the theorems.\<close>

definition env_ok :: platform where
  "env_ok = \<lparr>respond = (\<lambda>h op. Inr 0), firmware_file = (\<lambda>name. Inl ENOENT)\<rparr>"

definition env_fail :: platform where
  "env_fail = \<lparr>respond = (\<lambda>h op. Inl EIO), firmware_file = (\<lambda>name. Inl ENOENT)\<rparr>"

definition dev0 :: ap130x_device where
  "dev0 = \<lparr>reg_page = 0, streaming = False, fw = [], standby_gpio = True,
           sensor_supplies = True, sensor_name = ''ar0144'', i2c_addr = 0x10,
           sensor0 = \<lparr>dev_present = True, num_supplies = 3\<rparr>,
           sensor1 = \<lparr>dev_present = False, num_supplies = 0\<rparr>,
           data_lanes = 4, fmt_width = 1280, fmt_height = 800, width_factor = 1,
           out_fmt = 0x50,
           ctrls = [(CID_BRIGHTNESS, 0x100), (CID_CONTRAST, 0x100), (CID_EXPOSURE, 0xC)],
           sipm_addr = 0, trace = []\<rparr>"

definition AP130X_ADV_CAPTURE_A_FV_CNT :: "32 word" where
  "AP130X_ADV_CAPTURE_A_FV_CNT = AP130X_REG_32BIT 0x00490040"

text \<open>
  The proxy's vocabulary: the poll of \<^verbatim>\<open>AP130X_DMA_CTRL\<close> made while waiting for the DMA
  engine, and the descriptor word that names the sensor register (written to \<^verbatim>\<open>DMA_SRC\<close>
  by a proxy read and to \<^verbatim>\<open>DMA_DST\<close> by a proxy write).
\<close>

definition dma_poll :: bus_op where "dma_poll = Reg16Read 0x60ac"

definition sip_descriptor :: "ap130x_device \<Rightarrow> 32 word \<Rightarrow> 32 word \<Rightarrow> 32 word" where
  "sip_descriptor d port reg =
     push_bit 26 port
     OR (if AP130X_REG_SIZE reg = 2 then AP130X_DMA_SIP_DATA_16_BIT else 0)
     OR AP130X_DMA_SIP_ADDR_16_BIT
     OR push_bit 17 (i2c_addr d)
     OR push_bit 0 (AP130X_REG_ADDR reg)"

text \<open>A platform whose DMA engine is always idle and whose scratch register reads \<open>0xAB120000\<close>.\<close>

definition env_sensor :: platform where
  "env_sensor = \<lparr>respond = (\<lambda>h op. case op of Reg32Read a \<Rightarrow> Inr 0xAB120000 | _ \<Rightarrow> Inr 0),
                  firmware_file = (\<lambda>name. Inl ENOENT)\<rparr>"

text \<open>
  \<open>evolves P d d'\<close>: the device \<open>d'\<close> is \<open>d\<close> after some more operations, each satisfying
  \<open>P\<close>; besides the history only the cached page and the streaming flag may differ.
\<close>

definition evolves :: "(bus_op \<Rightarrow> bool) \<Rightarrow> ap130x_device \<Rightarrow> ap130x_device \<Rightarrow> bool" where
  "evolves P d d' =
     (\<exists>ops rp st. d' = d\<lparr>reg_page := rp, streaming := st, trace := trace d @ ops\<rparr> \<and> list_all P ops)"

fun is_reg_op :: "bus_op \<Rightarrow> bool" where
  "is_reg_op (Reg16Write a v) = True"
| "is_reg_op (Reg32Write a v) = True"
| "is_reg_op (Reg16Read a) = True"
| "is_reg_op (Reg32Read a) = True"
| "is_reg_op _ = False"

text \<open>A raw block write lies in the firmware load window \<^verbatim>\<open>[0x8000, 0xa000)\<close>, end included.\<close>

fun raw_in_window :: "bus_op \<Rightarrow> bool" where
  "raw_in_window (RawWrite16 a s b) =
     (AP130X_FW_WINDOW_OFFSET \<le> a \<and> a < AP130X_FW_WINDOW_OFFSET + AP130X_FW_WINDOW_SIZE \<and>
      unat a + unat s \<le> unat AP130X_FW_WINDOW_OFFSET + unat AP130X_FW_WINDOW_SIZE)"
| "raw_in_window _ = True"

fun is_raw_write :: "bus_op \<Rightarrow> bool" where
  "is_raw_write (RawWrite16 a s b) = True"
| "is_raw_write _ = False"

text \<open>The bytes a history streams through the load window, in order.\<close>

fun payload :: "bus_op \<Rightarrow> 8 word list" where
  "payload (RawWrite16 a s b) = b"
| "payload _ = []"

definition fw_bytes :: "bus_op list \<Rightarrow> 8 word list" where
  "fw_bytes ops = concat (map payload ops)"

text \<open>Every transfer succeeds on the platform.\<close>

definition all_ok :: "platform \<Rightarrow> bool" where
  "all_ok env = (\<forall>h op. \<exists>v. respond env h op = Inr v)"

text \<open>
  A device holding a firmware blob of 16 + 10000 bytes: header \<open>crc = 0\<close>,
  \<open>checksum = 0\<close>, \<open>pll_init_size = 100\<close>, \<open>total_size = 10000\<close> (little-endian),
  then the payload.
\<close>

definition fw_example :: "8 word list" where
  "fw_example = [0, 0, 0, 0, 0, 0, 0, 0, 100, 0, 0, 0, 0x10, 0x27, 0, 0] @ replicate 10000 0x5a"

definition dev_fw :: ap130x_device where
  "dev_fw = dev0\<lparr>fw := fw_example\<rparr>"

text \<open>
  Power vocabulary. \<open>is_power_op\<close> singles out the calls to the regulator, clock and GPIO
  frameworks; \<open>power_ok\<close> platforms never fail one. \<open>power_cycles\<close> counts the completed
  ISP power-ons of a history (each ends by releasing \<^verbatim>\<open>RESET\<close>). \<open>rail_level\<close> is the
  enable count a rail has after a history: a successful enable adds one, a disable (alone
  or in bulk) takes one away; the ISP clock counts as a rail.
\<close>

fun is_power_op :: "bus_op \<Rightarrow> bool" where
  "is_power_op (RegulatorEnable r) = True"
| "is_power_op (RegulatorDisable r) = True"
| "is_power_op (RegulatorBulkDisable rs) = True"
| "is_power_op ClkPrepareEnable = True"
| "is_power_op ClkDisableUnprepare = True"
| "is_power_op (GpioSet g b) = True"
| "is_power_op _ = False"

definition power_ok :: "platform \<Rightarrow> bool" where
  "power_ok env = (\<forall>h op. is_power_op op \<longrightarrow> (\<exists>v. respond env h op = Inr v))"

definition power_cycles :: "bus_op list \<Rightarrow> nat" where
  "power_cycles t = length (filter (\<lambda>op. op = GpioSet ResetGpio False) t)"

fun rail_delta :: "platform \<Rightarrow> bus_op list \<Rightarrow> rail \<Rightarrow> bus_op \<Rightarrow> int" where
  "rail_delta env h r (RegulatorEnable r') =
     (if r' = r \<and> to_ret (respond env h (RegulatorEnable r')) = None then 1 else 0)"
| "rail_delta env h r (RegulatorDisable r') = (if r' = r then - 1 else 0)"
| "rail_delta env h r (RegulatorBulkDisable rs) = - int (count_list rs r)"
| "rail_delta env h r ClkPrepareEnable =
     (if r = IspClock \<and> to_ret (respond env h ClkPrepareEnable) = None then 1 else 0)"
| "rail_delta env h r ClkDisableUnprepare = (if r = IspClock then - 1 else 0)"
| "rail_delta env h r _ = 0"

fun level_from :: "platform \<Rightarrow> rail \<Rightarrow> bus_op list \<Rightarrow> bus_op list \<Rightarrow> int" where
  "level_from env r h [] = 0"
| "level_from env r h (op # ops) = rail_delta env h r op + level_from env r (h @ [op]) ops"

definition rail_level :: "platform \<Rightarrow> rail \<Rightarrow> bus_op list \<Rightarrow> int" where
  "rail_level env r t = level_from env r [] t"

text \<open>The operations of a successful \<^verbatim>\<open>ap130x_power_on\<close> and of \<^verbatim>\<open>ap130x_power_off\<close>.\<close>

definition isp_on_ops :: "bool \<Rightarrow> bus_op list" where
  "isp_on_ops standby =
     (if standby then [GpioSet StandbyGpio True] else [])
     @ map (\<lambda>i. RegulatorEnable (IspSupply i)) [0..<3]
     @ (if standby then [GpioSet StandbyGpio False] else [])
     @ [ClkPrepareEnable, GpioSet ResetGpio False]"

definition isp_off_ops :: "bool \<Rightarrow> bus_op list" where
  "isp_off_ops standby =
     [GpioSet ResetGpio True, ClkDisableUnprepare]
     @ (if standby then [GpioSet StandbyGpio True] else [])
     @ [RegulatorBulkDisable (map IspSupply [0..<3])]
     @ (if standby then [GpioSet StandbyGpio False] else [])"

text \<open>
  \<open>appends P d d'\<close>: the device \<open>d'\<close> is \<open>d\<close> with more operations in its history, each
  satisfying \<open>P\<close>, and nothing else changed.
\<close>

definition appends :: "(bus_op \<Rightarrow> bool) \<Rightarrow> ap130x_device \<Rightarrow> ap130x_device \<Rightarrow> bool" where
  "appends P d d' = (\<exists>ops. d' = d\<lparr>trace := trace d @ ops\<rparr> \<and> list_all P ops)"



text \<open>
  \<open>attempt_start env k d\<close>: the device on which pass number \<open>k\<close> (counted from 0, the value
  of \<^verbatim>\<open>retries\<close>) of the retry loop of \<^verbatim>\<open>ap130x_hw_init\<close> starts, when the loop is entered
  with the device \<open>d\<close>; \<open>None\<close> when the loop does not get that far. Pass \<open>k + 1\<close> starts
  only if pass \<open>k\<close> powered the chip on, detected it, got \<^verbatim>\<open>-EAGAIN\<close> from
  \<^verbatim>\<open>ap130x_load_firmware\<close> and powered the chip off.
\<close>

fun attempt_start :: "platform \<Rightarrow> nat \<Rightarrow> ap130x_device \<Rightarrow> ap130x_device option" where
  "attempt_start env 0 d = Some d"
| "attempt_start env (Suc k) d =
     (case attempt_start env k d of
        None \<Rightarrow> None
      | Some x \<Rightarrow>
          if k < MAX_FW_LOAD_RETRIES then
            (case ap130x_power_on env x of
               (Some e, x1) \<Rightarrow> None
             | (None, x1) \<Rightarrow>
               (case ap130x_detect_chip env x1 of
                  (Some e, x2) \<Rightarrow> None
                | (None, x2) \<Rightarrow>
                  (case ap130x_load_firmware env x2 of
                     (None, x3) \<Rightarrow> None
                   | (Some e, x3) \<Rightarrow>
                       if e = EAGAIN then Some (ap130x_power_off x3) else None)))
          else None)"

text \<open>
  Two platforms with a chip of the right version and a transient fault of the revision
  register. On \<open>env_rev_once\<close> the first read of the revision register fails with \<^verbatim>\<open>-EIO\<close>
  and every later one succeeds. On \<open>env_rev_second\<close> the first write of \<^verbatim>\<open>AP130X_SIP_CRC\<close>
  (the first transfer of a firmware load) fails with \<^verbatim>\<open>-EAGAIN\<close>, the first read of the
  revision register succeeds and the later ones fail with \<^verbatim>\<open>-EIO\<close>. Everything else
  succeeds, and the firmware loader finds \<open>fw_example\<close>.
\<close>

definition env_rev_once :: platform where
  "env_rev_once =
     \<lparr>respond = (\<lambda>h op. case op of
                    Reg16Read a \<Rightarrow>
                      (if a = 0x50 \<and> Reg16Read 0x50 \<notin> set h then Inl EIO else Inr 0x265)
                  | _ \<Rightarrow> Inr 0),
      firmware_file = (\<lambda>name. Inr fw_example)\<rparr>"

definition env_rev_second :: platform where
  "env_rev_second =
     \<lparr>respond = (\<lambda>h op. case op of
                    Reg16Read a \<Rightarrow>
                      (if a = 0x50 \<and> Reg16Read 0x50 \<in> set h then Inl EIO else Inr 0x265)
                  | Reg16Write a v \<Rightarrow>
                      (if a = 0xf052 \<and> Reg16Write 0xf052 0xffff \<notin> set h then Inl EAGAIN
                       else Inr 0)
                  | _ \<Rightarrow> Inr 0),
      firmware_file = (\<lambda>name. Inr fw_example)\<rparr>"

text \<open>
  A platform on which every transfer succeeds, every 16-bit register (the chip version
  among them) reads \<open>0x0265\<close>, and the firmware loader finds \<open>fw_example\<close>.
\<close>

definition env_boot :: platform where
  "env_boot =
     \<lparr>respond = (\<lambda>h op. case op of Reg16Read a \<Rightarrow> Inr 0x265 | _ \<Rightarrow> Inr 0),
      firmware_file = (\<lambda>name. Inr fw_example)\<rparr>"

text \<open>A write to the stall register \<^verbatim>\<open>AP130X_SYS_START\<close> (\<^verbatim>\<open>0x601a\<close> of the 16-bit space).\<close>

fun is_stall_write :: "bus_op \<Rightarrow> bool" where
  "is_stall_write (Reg16Write a v) = (a = 0x601a)"
| "is_stall_write _ = False"

definition stall_writes :: "bus_op list \<Rightarrow> nat" where
  "stall_writes t = length (filter is_stall_write t)"

section \<open>Facts about the named registers\<close>

lemma reg16_size:
  "AP130X_REG_SIZE AP130X_CHIP_VERSION = 2"
  "AP130X_REG_SIZE AP130X_CHIP_REV = 2"
  "AP130X_REG_SIZE AP130X_BOOTDATA_STAGE = 2"
  "AP130X_REG_SIZE AP130X_SYS_START = 2"
  "AP130X_REG_SIZE AP130X_DMA_CTRL = 2"
  "AP130X_REG_SIZE AP130X_SIP_CRC = 2"
  "AP130X_REG_SIZE AP130X_DZ_TGT_FCT = 2"
  "AP130X_REG_SIZE AP130X_SFX_MODE = 2"
  "AP130X_REG_SIZE AP130X_PREVIEW_WIDTH = 2"
  "AP130X_REG_SIZE AP130X_PREVIEW_HEIGHT = 2"
  "AP130X_REG_SIZE AP130X_PREVIEW_OUT_FMT = 2"
  "AP130X_REG_SIZE AP130X_PREVIEW_HINF_CTRL = 2"
  "AP130X_REG_SIZE AP130X_AE_CTRL = 2"
  "AP130X_REG_SIZE AP130X_AE_MANUAL_GAIN = 2"
  "AP130X_REG_SIZE AP130X_AE_MET = 2"
  "AP130X_REG_SIZE AP130X_AWB_CTRL = 2"
  "AP130X_REG_SIZE AP130X_FLICK_CTRL = 2"
  "AP130X_REG_SIZE AP130X_SCENE_CTRL = 2"
  "AP130X_REG_SIZE AP130X_BRIGHTNESS = 2"
  "AP130X_REG_SIZE AP130X_CONTRAST = 2"
  "AP130X_REG_SIZE AP130X_SATURATION = 2"
  "AP130X_REG_SIZE AP130X_GAMMA = 2"
  by (simp_all add: AP130X_REG_SIZE_def AP130X_REG_PAGE_def AP130X_REG_ADDR_def
        AP130X_REG_16BIT_def AP130X_REG_32BIT_def
        AP130X_CHIP_VERSION_def AP130X_CHIP_REV_def AP130X_BOOTDATA_STAGE_def
        AP130X_SYS_START_def AP130X_DMA_CTRL_def AP130X_SIP_CRC_def
        AP130X_DZ_TGT_FCT_def AP130X_SFX_MODE_def AP130X_PREVIEW_WIDTH_def
        AP130X_PREVIEW_HEIGHT_def AP130X_PREVIEW_OUT_FMT_def AP130X_PREVIEW_HINF_CTRL_def
        AP130X_AE_CTRL_def AP130X_AE_MANUAL_GAIN_def AP130X_AE_MET_def
        AP130X_AWB_CTRL_def AP130X_FLICK_CTRL_def AP130X_SCENE_CTRL_def
        AP130X_BRIGHTNESS_def AP130X_CONTRAST_def AP130X_SATURATION_def
        AP130X_GAMMA_def)

lemma reg32_size:
  "AP130X_REG_SIZE AP130X_DMA_SRC = 4"
  "AP130X_REG_SIZE AP130X_DMA_DST = 4"
  "AP130X_REG_SIZE AP130X_DMA_SIZE = 4"
  "AP130X_REG_SIZE AP130X_ADVANCED_BASE = 4"
  by (simp_all add: AP130X_REG_SIZE_def AP130X_REG_PAGE_def AP130X_REG_ADDR_def
        AP130X_REG_16BIT_def AP130X_REG_32BIT_def
        AP130X_DMA_SRC_def AP130X_DMA_DST_def AP130X_DMA_SIZE_def
        AP130X_ADVANCED_BASE_def)

lemma reg_page0:
  "AP130X_REG_PAGE AP130X_CHIP_VERSION = 0"
  "AP130X_REG_PAGE AP130X_CHIP_REV = 0"
  "AP130X_REG_PAGE AP130X_BOOTDATA_STAGE = 0"
  "AP130X_REG_PAGE AP130X_SYS_START = 0"
  "AP130X_REG_PAGE AP130X_DMA_CTRL = 0"
  "AP130X_REG_PAGE AP130X_SIP_CRC = 0"
  "AP130X_REG_PAGE AP130X_DZ_TGT_FCT = 0"
  "AP130X_REG_PAGE AP130X_SFX_MODE = 0"
  "AP130X_REG_PAGE AP130X_PREVIEW_WIDTH = 0"
  "AP130X_REG_PAGE AP130X_PREVIEW_HEIGHT = 0"
  "AP130X_REG_PAGE AP130X_PREVIEW_OUT_FMT = 0"
  "AP130X_REG_PAGE AP130X_PREVIEW_HINF_CTRL = 0"
  "AP130X_REG_PAGE AP130X_AE_CTRL = 0"
  "AP130X_REG_PAGE AP130X_AE_MANUAL_GAIN = 0"
  "AP130X_REG_PAGE AP130X_AE_MET = 0"
  "AP130X_REG_PAGE AP130X_AWB_CTRL = 0"
  "AP130X_REG_PAGE AP130X_FLICK_CTRL = 0"
  "AP130X_REG_PAGE AP130X_SCENE_CTRL = 0"
  "AP130X_REG_PAGE AP130X_BRIGHTNESS = 0"
  "AP130X_REG_PAGE AP130X_CONTRAST = 0"
  "AP130X_REG_PAGE AP130X_SATURATION = 0"
  "AP130X_REG_PAGE AP130X_GAMMA = 0"
  "AP130X_REG_PAGE AP130X_DMA_SRC = 0"
  "AP130X_REG_PAGE AP130X_DMA_DST = 0"
  "AP130X_REG_PAGE AP130X_DMA_SIZE = 0"
  "AP130X_REG_PAGE AP130X_ADVANCED_BASE = 0"
  by (simp_all add: AP130X_REG_SIZE_def AP130X_REG_PAGE_def AP130X_REG_ADDR_def
        AP130X_REG_16BIT_def AP130X_REG_32BIT_def
        AP130X_CHIP_VERSION_def AP130X_CHIP_REV_def AP130X_BOOTDATA_STAGE_def
        AP130X_SYS_START_def AP130X_DMA_CTRL_def AP130X_SIP_CRC_def
        AP130X_DZ_TGT_FCT_def AP130X_SFX_MODE_def AP130X_PREVIEW_WIDTH_def
        AP130X_PREVIEW_HEIGHT_def AP130X_PREVIEW_OUT_FMT_def AP130X_PREVIEW_HINF_CTRL_def
        AP130X_AE_CTRL_def AP130X_AE_MANUAL_GAIN_def AP130X_AE_MET_def
        AP130X_AWB_CTRL_def AP130X_FLICK_CTRL_def AP130X_SCENE_CTRL_def
        AP130X_BRIGHTNESS_def AP130X_CONTRAST_def AP130X_SATURATION_def
        AP130X_GAMMA_def AP130X_DMA_SRC_def AP130X_DMA_DST_def
        AP130X_DMA_SIZE_def AP130X_ADVANCED_BASE_def)

lemma reg_addr:
  "(ucast (AP130X_REG_ADDR AP130X_CHIP_VERSION) :: 16 word) = 0x0000"
  "(ucast (AP130X_REG_ADDR AP130X_CHIP_REV) :: 16 word) = 0x0050"
  "(ucast (AP130X_REG_ADDR AP130X_BOOTDATA_STAGE) :: 16 word) = 0x6002"
  "(ucast (AP130X_REG_ADDR AP130X_SYS_START) :: 16 word) = 0x601a"
  "(ucast (AP130X_REG_ADDR AP130X_DMA_CTRL) :: 16 word) = 0x60ac"
  "(ucast (AP130X_REG_ADDR AP130X_SIP_CRC) :: 16 word) = 0xf052"
  "(ucast (AP130X_REG_ADDR AP130X_DZ_TGT_FCT) :: 16 word) = 0x1010"
  "(ucast (AP130X_REG_ADDR AP130X_SFX_MODE) :: 16 word) = 0x1016"
  "(ucast (AP130X_REG_ADDR AP130X_PREVIEW_WIDTH) :: 16 word) = 0x2000"
  "(ucast (AP130X_REG_ADDR AP130X_PREVIEW_HEIGHT) :: 16 word) = 0x2002"
  "(ucast (AP130X_REG_ADDR AP130X_PREVIEW_OUT_FMT) :: 16 word) = 0x2012"
  "(ucast (AP130X_REG_ADDR AP130X_PREVIEW_HINF_CTRL) :: 16 word) = 0x2030"
  "(ucast (AP130X_REG_ADDR AP130X_AE_CTRL) :: 16 word) = 0x5002"
  "(ucast (AP130X_REG_ADDR AP130X_AE_MANUAL_GAIN) :: 16 word) = 0x5006"
  "(ucast (AP130X_REG_ADDR AP130X_AE_MET) :: 16 word) = 0x503e"
  "(ucast (AP130X_REG_ADDR AP130X_AWB_CTRL) :: 16 word) = 0x5100"
  "(ucast (AP130X_REG_ADDR AP130X_FLICK_CTRL) :: 16 word) = 0x5440"
  "(ucast (AP130X_REG_ADDR AP130X_SCENE_CTRL) :: 16 word) = 0x5454"
  "(ucast (AP130X_REG_ADDR AP130X_BRIGHTNESS) :: 16 word) = 0x7000"
  "(ucast (AP130X_REG_ADDR AP130X_CONTRAST) :: 16 word) = 0x7002"
  "(ucast (AP130X_REG_ADDR AP130X_SATURATION) :: 16 word) = 0x7006"
  "(ucast (AP130X_REG_ADDR AP130X_GAMMA) :: 16 word) = 0x700a"
  "(ucast (AP130X_REG_ADDR AP130X_DMA_SRC) :: 16 word) = 0x60a0"
  "(ucast (AP130X_REG_ADDR AP130X_DMA_DST) :: 16 word) = 0x60a4"
  "(ucast (AP130X_REG_ADDR AP130X_DMA_SIZE) :: 16 word) = 0x60a8"
  "(ucast (AP130X_REG_ADDR AP130X_ADVANCED_BASE) :: 16 word) = 0xf038"
  by (simp_all add: AP130X_REG_SIZE_def AP130X_REG_PAGE_def AP130X_REG_ADDR_def
        AP130X_REG_16BIT_def AP130X_REG_32BIT_def
        AP130X_CHIP_VERSION_def AP130X_CHIP_REV_def AP130X_BOOTDATA_STAGE_def
        AP130X_SYS_START_def AP130X_DMA_CTRL_def AP130X_SIP_CRC_def
        AP130X_DZ_TGT_FCT_def AP130X_SFX_MODE_def AP130X_PREVIEW_WIDTH_def
        AP130X_PREVIEW_HEIGHT_def AP130X_PREVIEW_OUT_FMT_def AP130X_PREVIEW_HINF_CTRL_def
        AP130X_AE_CTRL_def AP130X_AE_MANUAL_GAIN_def AP130X_AE_MET_def
        AP130X_AWB_CTRL_def AP130X_FLICK_CTRL_def AP130X_SCENE_CTRL_def
        AP130X_BRIGHTNESS_def AP130X_CONTRAST_def AP130X_SATURATION_def
        AP130X_GAMMA_def AP130X_DMA_SRC_def AP130X_DMA_DST_def
        AP130X_DMA_SIZE_def AP130X_ADVANCED_BASE_def)

text \<open>What a transfer on a register of page 0 does, by width.\<close>

lemma write_raw_16:
  "AP130X_REG_SIZE reg = 2 \<Longrightarrow>
   ap130x_write_raw env reg val d =
     (to_ret (respond env (trace d) (Reg16Write (ucast (AP130X_REG_ADDR reg)) val)),
      d\<lparr>trace := trace d @ [Reg16Write (ucast (AP130X_REG_ADDR reg)) val]\<rparr>)"
  by (simp add: ap130x_write_raw_def bus_def Let_def)

lemma write_raw_32:
  "AP130X_REG_SIZE reg = 4 \<Longrightarrow>
   ap130x_write_raw env reg val d =
     (to_ret (respond env (trace d) (Reg32Write (ucast (AP130X_REG_ADDR reg)) val)),
      d\<lparr>trace := trace d @ [Reg32Write (ucast (AP130X_REG_ADDR reg)) val]\<rparr>)"
  by (simp add: ap130x_write_raw_def bus_def Let_def)

lemma read_plain_16:
  "AP130X_REG_PAGE reg = 0 \<Longrightarrow> AP130X_REG_SIZE reg = 2 \<Longrightarrow>
   ap130x_read env reg d =
     (respond env (trace d) (Reg16Read (ucast (AP130X_REG_ADDR reg))),
      d\<lparr>trace := trace d @ [Reg16Read (ucast (AP130X_REG_ADDR reg))]\<rparr>)"
  by (simp add: ap130x_read_def ap130x_read_raw_def bus_def Let_def)

lemma read_plain_32:
  "AP130X_REG_PAGE reg = 0 \<Longrightarrow> AP130X_REG_SIZE reg = 4 \<Longrightarrow>
   ap130x_read env reg d =
     (respond env (trace d) (Reg32Read (ucast (AP130X_REG_ADDR reg))),
      d\<lparr>trace := trace d @ [Reg32Read (ucast (AP130X_REG_ADDR reg))]\<rparr>)"
  by (simp add: ap130x_read_def ap130x_read_raw_def bus_def Let_def)

lemma write_plain_16:
  "AP130X_REG_PAGE reg = 0 \<Longrightarrow> AP130X_REG_SIZE reg = 2 \<Longrightarrow>
   ap130x_write env reg val err d =
     (case err of
        Some (Some e) \<Rightarrow> (Some e, err, d)
      | _ \<Rightarrow> (to_ret (respond env (trace d) (Reg16Write (ucast (AP130X_REG_ADDR reg)) val)),
              latch (to_ret (respond env (trace d) (Reg16Write (ucast (AP130X_REG_ADDR reg)) val))) err,
              d\<lparr>trace := trace d @ [Reg16Write (ucast (AP130X_REG_ADDR reg)) val]\<rparr>))"
  by (simp add: ap130x_write_def write_raw_16 Let_def split: option.splits)

lemma write_plain_32:
  "AP130X_REG_PAGE reg = 0 \<Longrightarrow> AP130X_REG_SIZE reg = 4 \<Longrightarrow>
   ap130x_write env reg val err d =
     (case err of
        Some (Some e) \<Rightarrow> (Some e, err, d)
      | _ \<Rightarrow> (to_ret (respond env (trace d) (Reg32Write (ucast (AP130X_REG_ADDR reg)) val)),
              latch (to_ret (respond env (trace d) (Reg32Write (ucast (AP130X_REG_ADDR reg)) val))) err,
              d\<lparr>trace := trace d @ [Reg32Write (ucast (AP130X_REG_ADDR reg)) val]\<rparr>))"
  by (simp add: ap130x_write_def write_raw_32 Let_def split: option.splits)

section \<open>Sensor register proxy\<close>

lemma dma_ctrl_read:
  "ap130x_read env AP130X_DMA_CTRL d = (respond env (trace d) dma_poll, d\<lparr>trace := trace d @ [dma_poll]\<rparr>)"
  by (simp add: read_plain_16 reg16_size reg_page0 reg_addr dma_poll_def)

lemma dma_wait_idle_loop_ok:
  "dma_wait_idle_loop env i d = (None, d') \<Longrightarrow>
   \<exists>k. 0 < k \<and> k \<le> i \<and> d' = d\<lparr>trace := trace d @ replicate k dma_poll\<rparr>"
proof (induction i arbitrary: d)
  case 0
  then show ?case by simp
next
  case (Suc i)
  let ?d1 = "d\<lparr>trace := trace d @ [dma_poll]\<rparr>"
  show ?case
  proof (cases "respond env (trace d) dma_poll")
    case (Inl e)
    with Suc.prems show ?thesis by (simp add: dma_ctrl_read)
  next
    case (Inr ctrl)
    show ?thesis
    proof (cases "ctrl AND AP130X_DMA_CTRL_MODE_MASK = AP130X_DMA_CTRL_MODE_IDLE")
      case True
      with Suc.prems Inr have "d' = ?d1" by (simp add: dma_ctrl_read)
      then have "0 < (1::nat) \<and> 1 \<le> Suc i \<and> d' = d\<lparr>trace := trace d @ replicate 1 dma_poll\<rparr>"
        by simp
      then show ?thesis by blast
    next
      case False
      with Suc.prems Inr have "dma_wait_idle_loop env i ?d1 = (None, d')"
        by (simp add: dma_ctrl_read)
      from Suc.IH [OF this] obtain k where
        k: "0 < k" "k \<le> i" "d' = ?d1\<lparr>trace := trace ?d1 @ replicate k dma_poll\<rparr>"
        by blast
      have "d' = d\<lparr>trace := trace d @ replicate (Suc k) dma_poll\<rparr>"
        using k(3) by simp
      with k(1,2) have "0 < Suc k \<and> Suc k \<le> Suc i \<and> d' = d\<lparr>trace := trace d @ replicate (Suc k) dma_poll\<rparr>"
        by simp
      then show ?thesis by blast
    qed
  qed
qed

lemma dma_wait_idle_ok:
  "ap130x_dma_wait_idle env d = (None, d') \<Longrightarrow>
   \<exists>k. 0 < k \<and> k \<le> 50 \<and> d' = d\<lparr>trace := trace d @ replicate k dma_poll\<rparr>"
  unfolding ap130x_dma_wait_idle_def by (rule dma_wait_idle_loop_ok)

section \<open>Register transport: paging\<close>

lemma snd_write_raw:
  "snd (ap130x_write_raw env reg val d) = d\<lparr>trace := trace d @ write_ops reg val\<rparr>"
  by (simp add: ap130x_write_raw_def write_ops_def bus_def Let_def)

lemma snd_read_raw:
  "snd (ap130x_read_raw env reg d) = d\<lparr>trace := trace d @ read_ops reg\<rparr>"
  by (simp add: ap130x_read_raw_def read_ops_def bus_def Let_def)

lemma adv_base_size: "AP130X_REG_SIZE AP130X_ADVANCED_BASE = 4"
  by (simp add: AP130X_REG_SIZE_def AP130X_ADVANCED_BASE_def AP130X_REG_32BIT_def)

lemma adv_base_addr: "(ucast (AP130X_REG_ADDR AP130X_ADVANCED_BASE) :: 16 word) = 0xf038"
  by (simp add: AP130X_REG_ADDR_def AP130X_ADVANCED_BASE_def AP130X_REG_32BIT_def)

lemma page_select_step:
  "ap130x_write_raw env AP130X_ADVANCED_BASE page d =
     (to_ret (respond env (trace d) (page_select page)), d\<lparr>trace := trace d @ [page_select page]\<rparr>)"
  by (simp add: ap130x_write_raw_def Let_def adv_base_size adv_base_addr bus_def page_select_def)

lemma live_slot:
  assumes "\<not> skipped (RegWrite reg val err)"
  shows "err = None \<or> err = Some None"
proof (cases err)
  case None
  then show ?thesis by simp
next
  case (Some s)
  with assms show ?thesis by (cases s) simp_all
qed

lemma do_access_skipped:
  assumes "skipped a"
  shows "snd (do_access env a d) = d"
proof (cases a)
  case (RegRead reg)
  with assms show ?thesis by simp
next
  case (RegWrite reg val err)
  with assms obtain e where "err = Some (Some e)"
    by (cases err) (auto split: option.splits)
  with RegWrite show ?thesis by (simp add: ap130x_write_def)
qed

lemma do_access_page0:
  assumes "\<not> skipped a"
    and "AP130X_REG_PAGE (access_reg a) = 0 \<or> AP130X_REG_PAGE (access_reg a) = reg_page d"
  shows "trace (snd (do_access env a d)) = trace d @ target_ops a \<and>
         reg_page (snd (do_access env a d)) = reg_page d"
proof (cases a)
  case (RegRead reg)
  with assms(2) show ?thesis
    by (auto simp: ap130x_read_def snd_read_raw case_prod_beta Let_def)
next
  case (RegWrite reg val err)
  with assms(1) have "err = None \<or> err = Some None" by (simp only: live_slot)
  then show ?thesis
  proof
    assume "err = None"
    with RegWrite assms(2) show ?thesis
      by (auto simp: ap130x_write_def snd_write_raw case_prod_beta Let_def)
  next
    assume "err = Some None"
    with RegWrite assms(2) show ?thesis
      by (auto simp: ap130x_write_def snd_write_raw case_prod_beta Let_def)
  qed
qed

lemma do_access_miss_err:
  assumes "\<not> skipped a"
    and "AP130X_REG_PAGE (access_reg a) \<noteq> 0" "AP130X_REG_PAGE (access_reg a) \<noteq> reg_page d"
    and "respond env (trace d) (page_select (AP130X_REG_PAGE (access_reg a))) = Inl e"
  shows "do_access env a d =
           (Some e, d\<lparr>trace := trace d @ [page_select (AP130X_REG_PAGE (access_reg a))]\<rparr>)"
proof (cases a)
  case (RegRead reg)
  with assms(2-) show ?thesis
    by (simp add: ap130x_read_def page_select_step to_ret_def)
next
  case (RegWrite reg val err)
  with assms(1) have "err = None \<or> err = Some None" by (simp only: live_slot)
  then show ?thesis
  proof
    assume "err = None"
    with RegWrite assms(2-) show ?thesis
      by (simp add: ap130x_write_def page_select_step to_ret_def)
  next
    assume "err = Some None"
    with RegWrite assms(2-) show ?thesis
      by (simp add: ap130x_write_def page_select_step to_ret_def)
  qed
qed

lemma do_access_miss_ok:
  assumes "\<not> skipped a"
    and "AP130X_REG_PAGE (access_reg a) \<noteq> 0" "AP130X_REG_PAGE (access_reg a) \<noteq> reg_page d"
    and "respond env (trace d) (page_select (AP130X_REG_PAGE (access_reg a))) = Inr v"
  shows "trace (snd (do_access env a d)) =
           trace d @ page_select (AP130X_REG_PAGE (access_reg a)) # target_ops a \<and>
        reg_page (snd (do_access env a d)) = AP130X_REG_PAGE (access_reg a)"
proof (cases a)
  case (RegRead reg)
  with assms(2-) show ?thesis
    by (simp add: ap130x_read_def page_select_step to_ret_def snd_read_raw case_prod_beta Let_def)
next
  case (RegWrite reg val err)
  with assms(1) have "err = None \<or> err = Some None" by (simp only: live_slot)
  then show ?thesis
  proof
    assume "err = None"
    with RegWrite assms(2-) show ?thesis
      by (simp add: ap130x_write_def page_select_step to_ret_def snd_write_raw
            case_prod_beta Let_def)
  next
    assume "err = Some None"
    with RegWrite assms(2-) show ?thesis
      by (simp add: ap130x_write_def page_select_step to_ret_def snd_write_raw
            case_prod_beta Let_def)
  qed
qed

text \<open>
  Claim C3 (page-select discipline). A register access \<open>a\<close> is a read, or a write called
  with no sticky slot, with a slot holding 0, or with a slot that already holds an error.
  On a device \<open>d\<close>:
  \<^item> a write whose slot already holds an error is skipped: it makes no transfer at all and
    leaves the device, the cached page included, as it was;
  \<^item> every other access, if the descriptor's page is 0, or is non-zero and equal to the
    cached page, issues only its own transfer and leaves the cached page as it was;
  \<^item> if the page is non-zero and differs from the cached page, the page-select write is
    issued first; when it fails the access stops there with that error and the cached page
    unchanged; when it succeeds the access's own transfer follows and the cached page is the
    new page;
  \<^item> hence, on a bus where every transfer succeeds, a second access \<open>b\<close> with the same
    page adds only its own transfer (one page-select write for the two), and a second access
    \<open>c\<close> with another non-zero page is preceded by its own page-select write.
\<close>

theorem page_select_discipline:
  "(skipped a \<longrightarrow> snd (do_access env a d) = d)
   \<and> (\<not> skipped a \<longrightarrow>
     (AP130X_REG_PAGE (access_reg a) = 0 \<or> AP130X_REG_PAGE (access_reg a) = reg_page d \<longrightarrow>
        trace (snd (do_access env a d)) = trace d @ target_ops a \<and>
        reg_page (snd (do_access env a d)) = reg_page d)
     \<and> (AP130X_REG_PAGE (access_reg a) \<noteq> 0 \<and> AP130X_REG_PAGE (access_reg a) \<noteq> reg_page d \<longrightarrow>
        (\<forall>e. respond env (trace d) (page_select (AP130X_REG_PAGE (access_reg a))) = Inl e \<longrightarrow>
           do_access env a d =
             (Some e, d\<lparr>trace := trace d @ [page_select (AP130X_REG_PAGE (access_reg a))]\<rparr>))
      \<and> (\<forall>v. respond env (trace d) (page_select (AP130X_REG_PAGE (access_reg a))) = Inr v \<longrightarrow>
           trace (snd (do_access env a d)) =
             trace d @ page_select (AP130X_REG_PAGE (access_reg a)) # target_ops a \<and>
           reg_page (snd (do_access env a d)) = AP130X_REG_PAGE (access_reg a)))
     \<and> (AP130X_REG_PAGE (access_reg a) \<noteq> 0 \<and> AP130X_REG_PAGE (access_reg a) \<noteq> reg_page d \<and>
         (\<forall>h op. \<exists>v. respond env h op = Inr v) \<longrightarrow>
          (\<not> skipped b \<and> AP130X_REG_PAGE (access_reg b) = AP130X_REG_PAGE (access_reg a) \<longrightarrow>
             trace (snd (do_access env b (snd (do_access env a d)))) =
               trace d @ page_select (AP130X_REG_PAGE (access_reg a)) # target_ops a @ target_ops b)
        \<and> (\<not> skipped c \<and> AP130X_REG_PAGE (access_reg c) \<noteq> 0 \<and>
           AP130X_REG_PAGE (access_reg c) \<noteq> AP130X_REG_PAGE (access_reg a) \<longrightarrow>
             trace (snd (do_access env c (snd (do_access env a d)))) =
               trace d @ page_select (AP130X_REG_PAGE (access_reg a)) # target_ops a
                       @ page_select (AP130X_REG_PAGE (access_reg c)) # target_ops c)))"
proof -
  let ?p = "AP130X_REG_PAGE (access_reg a)"
  let ?d1 = "snd (do_access env a d)"
  have skip: "skipped a \<longrightarrow> ?d1 = d"
    using do_access_skipped [of a env d] by blast
  have hit: "?p = 0 \<or> ?p = reg_page d \<longrightarrow>
      trace ?d1 = trace d @ target_ops a \<and> reg_page ?d1 = reg_page d" if live: "\<not> skipped a"
    using do_access_page0 [OF live, of d env] by blast
  have miss: "?p \<noteq> 0 \<and> ?p \<noteq> reg_page d \<longrightarrow>
      (\<forall>e. respond env (trace d) (page_select ?p) = Inl e \<longrightarrow>
         do_access env a d = (Some e, d\<lparr>trace := trace d @ [page_select ?p]\<rparr>))
    \<and> (\<forall>v. respond env (trace d) (page_select ?p) = Inr v \<longrightarrow>
         trace ?d1 = trace d @ page_select ?p # target_ops a \<and> reg_page ?d1 = ?p)"
    if live: "\<not> skipped a"
    using do_access_miss_err [OF live, of d env] do_access_miss_ok [OF live, of d env] by blast
  have pair: "trace (snd (do_access env b ?d1)) = trace d @ page_select ?p # target_ops a @ target_ops b"
    if live: "\<not> skipped a"
      and h: "?p \<noteq> 0" "?p \<noteq> reg_page d" "\<forall>h op. \<exists>v. respond env h op = Inr v"
      and b: "\<not> skipped b" "AP130X_REG_PAGE (access_reg b) = ?p" for b
  proof -
    obtain v where v: "respond env (trace d) (page_select ?p) = Inr v"
      using h(3) by blast
    have t1: "trace ?d1 = trace d @ page_select ?p # target_ops a"
      and p1: "reg_page ?d1 = ?p"
      using do_access_miss_ok [OF live h(1) h(2) v] by simp_all
    have "AP130X_REG_PAGE (access_reg b) = 0 \<or> AP130X_REG_PAGE (access_reg b) = reg_page ?d1"
      using b(2) p1 by simp
    from do_access_page0 [OF b(1) this, of env]
    have "trace (snd (do_access env b ?d1)) = trace ?d1 @ target_ops b" by blast
    then show ?thesis by (simp only: t1 append.simps append_assoc)
  qed
  have differ: "trace (snd (do_access env c ?d1)) =
        trace d @ page_select ?p # target_ops a @ page_select (AP130X_REG_PAGE (access_reg c)) # target_ops c"
    if live: "\<not> skipped a"
      and h: "?p \<noteq> 0" "?p \<noteq> reg_page d" "\<forall>h op. \<exists>v. respond env h op = Inr v"
      and c: "\<not> skipped c" "AP130X_REG_PAGE (access_reg c) \<noteq> 0"
             "AP130X_REG_PAGE (access_reg c) \<noteq> ?p" for c
  proof -
    obtain v where v: "respond env (trace d) (page_select ?p) = Inr v"
      using h(3) by blast
    have t1: "trace ?d1 = trace d @ page_select ?p # target_ops a"
      and p1: "reg_page ?d1 = ?p"
      using do_access_miss_ok [OF live h(1) h(2) v] by simp_all
    obtain w where w: "respond env (trace ?d1) (page_select (AP130X_REG_PAGE (access_reg c))) = Inr w"
      using h(3) by blast
    have c2: "AP130X_REG_PAGE (access_reg c) \<noteq> reg_page ?d1"
      using c(3) p1 by simp
    have "trace (snd (do_access env c ?d1)) =
            trace ?d1 @ page_select (AP130X_REG_PAGE (access_reg c)) # target_ops c"
      using do_access_miss_ok [OF c(1) c(2) c2 w] by simp
    then show ?thesis by (simp only: t1 append.simps append_assoc)
  qed
  have both: "?p \<noteq> 0 \<and> ?p \<noteq> reg_page d \<and> (\<forall>h op. \<exists>v. respond env h op = Inr v) \<longrightarrow>
        (\<not> skipped b \<and> AP130X_REG_PAGE (access_reg b) = ?p \<longrightarrow>
           trace (snd (do_access env b ?d1)) = trace d @ page_select ?p # target_ops a @ target_ops b)
      \<and> (\<not> skipped c \<and> AP130X_REG_PAGE (access_reg c) \<noteq> 0 \<and> AP130X_REG_PAGE (access_reg c) \<noteq> ?p \<longrightarrow>
           trace (snd (do_access env c ?d1)) =
             trace d @ page_select ?p # target_ops a
                     @ page_select (AP130X_REG_PAGE (access_reg c)) # target_ops c)"
    if live: "\<not> skipped a"
    using pair [OF live, of b] differ [OF live, of c] by blast
  have live_all: "\<not> skipped a \<longrightarrow>
     (?p = 0 \<or> ?p = reg_page d \<longrightarrow>
        trace ?d1 = trace d @ target_ops a \<and> reg_page ?d1 = reg_page d)
     \<and> (?p \<noteq> 0 \<and> ?p \<noteq> reg_page d \<longrightarrow>
        (\<forall>e. respond env (trace d) (page_select ?p) = Inl e \<longrightarrow>
           do_access env a d = (Some e, d\<lparr>trace := trace d @ [page_select ?p]\<rparr>))
      \<and> (\<forall>v. respond env (trace d) (page_select ?p) = Inr v \<longrightarrow>
           trace ?d1 = trace d @ page_select ?p # target_ops a \<and> reg_page ?d1 = ?p))
     \<and> (?p \<noteq> 0 \<and> ?p \<noteq> reg_page d \<and> (\<forall>h op. \<exists>v. respond env h op = Inr v) \<longrightarrow>
          (\<not> skipped b \<and> AP130X_REG_PAGE (access_reg b) = ?p \<longrightarrow>
             trace (snd (do_access env b ?d1)) = trace d @ page_select ?p # target_ops a @ target_ops b)
        \<and> (\<not> skipped c \<and> AP130X_REG_PAGE (access_reg c) \<noteq> 0 \<and> AP130X_REG_PAGE (access_reg c) \<noteq> ?p \<longrightarrow>
             trace (snd (do_access env c ?d1)) =
               trace d @ page_select ?p # target_ops a
                       @ page_select (AP130X_REG_PAGE (access_reg c)) # target_ops c))"
    using hit miss both by blast
  show ?thesis
    by (rule conjI [OF skip live_all])
qed

lemma page_consts:
  "AP130X_REG_PAGE AP130X_CHIP_VERSION = 0"
  "AP130X_REG_PAGE AP130X_ADV_IRQ_SYS_INTE = 0x230000"
  "AP130X_REG_PAGE AP130X_ADV_CAPTURE_A_FV_CNT = 0x490000"
  by (simp_all add: AP130X_REG_PAGE_def AP130X_CHIP_VERSION_def AP130X_ADV_IRQ_SYS_INTE_def
        AP130X_ADV_CAPTURE_A_FV_CNT_def AP130X_REG_16BIT_def AP130X_REG_32BIT_def)

lemma target_consts:
  "read_ops AP130X_CHIP_VERSION = [Reg16Read 0]"
  "read_ops (adv_reg AP130X_ADV_IRQ_SYS_INTE) = [Reg32Read 0xe000]"
  "write_ops (adv_reg AP130X_ADV_IRQ_SYS_INTE) v = [Reg32Write 0xe000 v]"
  "read_ops (adv_reg AP130X_ADV_CAPTURE_A_FV_CNT) = [Reg32Read 0xe040]"
  by (simp_all add: read_ops_def write_ops_def adv_reg_def AP130X_REG_SIZE_def AP130X_REG_ADDR_def
        AP130X_REG_PAGE_MASK_def AP130X_REG_ADV_START_def AP130X_CHIP_VERSION_def
        AP130X_ADV_IRQ_SYS_INTE_def AP130X_ADV_CAPTURE_A_FV_CNT_def AP130X_REG_16BIT_def
        AP130X_REG_32BIT_def)

theorem page_select_discipline_witness:
  "trace (snd (do_access env_ok (RegRead AP130X_CHIP_VERSION) dev0)) = [Reg16Read 0]
   \<and> do_access env_fail (RegWrite AP130X_ADV_IRQ_SYS_INTE 0xc8 None) dev0 =
       (Some EIO, dev0\<lparr>trace := [Reg32Write 0xf038 0x230000]\<rparr>)
   \<and> trace (snd (do_access env_ok (RegWrite AP130X_ADV_IRQ_SYS_INTE 0xc8 (Some None)) dev0)) =
       [Reg32Write 0xf038 0x230000, Reg32Write 0xe000 0xc8]
   \<and> trace (snd (do_access env_ok (RegWrite AP130X_ADV_IRQ_SYS_INTE 0xc9 (Some None))
               (snd (do_access env_ok (RegWrite AP130X_ADV_IRQ_SYS_INTE 0xc8 (Some None)) dev0)))) =
       [Reg32Write 0xf038 0x230000, Reg32Write 0xe000 0xc8, Reg32Write 0xe000 0xc9]
   \<and> trace (snd (do_access env_ok (RegRead AP130X_ADV_CAPTURE_A_FV_CNT)
               (snd (do_access env_ok (RegWrite AP130X_ADV_IRQ_SYS_INTE 0xc8 (Some None)) dev0)))) =
       [Reg32Write 0xf038 0x230000, Reg32Write 0xe000 0xc8,
        Reg32Write 0xf038 0x490000, Reg32Read 0xe040]
   \<and> snd (do_access env_ok (RegWrite AP130X_ADV_IRQ_SYS_INTE 0xc8 (Some (Some EIO))) dev0) = dev0"
  using page_select_discipline [of "RegRead AP130X_CHIP_VERSION" env_ok dev0]
        page_select_discipline [of "RegWrite AP130X_ADV_IRQ_SYS_INTE 0xc8 None" env_fail dev0]
        page_select_discipline [of "RegWrite AP130X_ADV_IRQ_SYS_INTE 0xc8 (Some None)" env_ok dev0
                                   "RegWrite AP130X_ADV_IRQ_SYS_INTE 0xc9 (Some None)"
                                   "RegRead AP130X_ADV_CAPTURE_A_FV_CNT"]
        page_select_discipline [of "RegWrite AP130X_ADV_IRQ_SYS_INTE 0xc8 (Some (Some EIO))" env_ok dev0]
  by (simp add: page_consts target_consts page_select_def env_ok_def env_fail_def dev0_def)

lemma dma_ctrl_consts:
  "AP130X_DMA_CTRL_SCH_NORMAL OR AP130X_DMA_CTRL_DST_REG OR AP130X_DMA_CTRL_SRC_SIP OR
     AP130X_DMA_CTRL_MODE_COPY = 0x32"
  "AP130X_DMA_CTRL_SCH_NORMAL OR AP130X_DMA_CTRL_DST_SIP OR AP130X_DMA_CTRL_SRC_REG OR
     AP130X_DMA_CTRL_MODE_COPY = 0x302"
  "AP130X_REG_ADDR AP130X_DMA_DST = 0x60a4"
  "AP130X_REG_ADDR AP130X_DMA_SRC = 0x60a0"
  by (simp_all add: AP130X_DMA_CTRL_SCH_NORMAL_def AP130X_DMA_CTRL_DST_REG_def
        AP130X_DMA_CTRL_SRC_SIP_def AP130X_DMA_CTRL_MODE_COPY_def AP130X_DMA_CTRL_DST_SIP_def
        AP130X_DMA_CTRL_SRC_REG_def AP130X_REG_ADDR_def AP130X_DMA_DST_def AP130X_DMA_SRC_def
        AP130X_REG_32BIT_def)

lemmas dma_write_simps =
  write_plain_32 [OF reg_page0(25) reg32_size(3)]
  write_plain_32 [OF reg_page0(23) reg32_size(1)]
  write_plain_32 [OF reg_page0(24) reg32_size(2)]
  write_plain_16 [OF reg_page0(5) reg16_size(5)]

lemma sipm_write_ok_trace:
  assumes "ap130x_sipm_write env port reg val d = (None, d')"
  shows "\<exists>k1 k2. 0 < k1 \<and> k1 \<le> 50 \<and> 0 < k2 \<and> k2 \<le> 50 \<and>
           trace d' = trace d @ replicate k1 dma_poll
             @ [Reg32Write 0x60a8 (AP130X_REG_SIZE reg),
                Reg32Write 0x60a0 (push_bit 16 val OR 0x60a0),
                Reg32Write 0x60a4 (sip_descriptor d port reg),
                Reg16Write 0x60ac 0x302]
             @ replicate k2 dma_poll"
proof -
  obtain r1 d1 where w1: "ap130x_dma_wait_idle env d = (r1, d1)" by fastforce
  have r1: "r1 = None" and sz: "\<not> AP130X_REG_SIZE reg > 2"
    using assms w1 by (auto simp: ap130x_sipm_write_def Let_def split: if_splits option.splits)
  from dma_wait_idle_ok [OF w1 [unfolded r1]] obtain k1 where
    k1: "0 < k1" "k1 \<le> 50" "d1 = d\<lparr>trace := trace d @ replicate k1 dma_poll\<rparr>" by blast
  let ?prog = "[Reg32Write 0x60a8 (AP130X_REG_SIZE reg),
                Reg32Write 0x60a0 (push_bit 16 val OR 0x60a0),
                Reg32Write 0x60a4 (sip_descriptor d port reg),
                Reg16Write 0x60ac 0x302]"
  let ?d5 = "d\<lparr>trace := trace d @ replicate k1 dma_poll @ ?prog\<rparr>"
  have w2: "ap130x_dma_wait_idle env ?d5 = (None, d')"
    using assms sz w1 r1 k1(3)
    by (simp add: ap130x_sipm_write_def Let_def dma_write_simps reg_addr dma_ctrl_consts
          latch_def to_ret_def sip_descriptor_def
        split: option.splits sum.splits if_splits)
  from dma_wait_idle_ok [OF w2] obtain k2 where
    k2: "0 < k2" "k2 \<le> 50" "d' = ?d5\<lparr>trace := trace ?d5 @ replicate k2 dma_poll\<rparr>" by blast
  have "trace d' = trace d @ replicate k1 dma_poll @ ?prog @ replicate k2 dma_poll"
    using k2(3) by simp
  with k1(1,2) k2(1,2) show ?thesis by blast
qed

lemma sipm_read_ok_trace:
  assumes "ap130x_sipm_read env port reg d = (Inr v, d')"
  shows "\<exists>k1 k2 scratch. 0 < k1 \<and> k1 \<le> 50 \<and> 0 < k2 \<and> k2 \<le> 50 \<and>
           trace d' = trace d @ replicate k1 dma_poll
             @ [Reg32Write 0x60a8 (AP130X_REG_SIZE reg),
                Reg32Write 0x60a0 (sip_descriptor d port reg),
                Reg32Write 0x60a4 0x60a4,
                Reg16Write 0x60ac 0x32]
             @ replicate k2 dma_poll @ [Reg32Read 0x60a4] \<and>
           respond env (butlast (trace d')) (Reg32Read 0x60a4) = Inr scratch \<and>
           v = drop_bit (unat (32 - AP130X_REG_SIZE reg * 8) mod 32) scratch"
proof -
  obtain r1 d1 where w1: "ap130x_dma_wait_idle env d = (r1, d1)" by fastforce
  have r1: "r1 = None" and sz: "\<not> AP130X_REG_SIZE reg > 2"
    using assms w1 by (auto simp: ap130x_sipm_read_def Let_def split: if_splits option.splits)
  from dma_wait_idle_ok [OF w1 [unfolded r1]] obtain k1 where
    k1: "0 < k1" "k1 \<le> 50" "d1 = d\<lparr>trace := trace d @ replicate k1 dma_poll\<rparr>" by blast
  let ?prog = "[Reg32Write 0x60a8 (AP130X_REG_SIZE reg),
                Reg32Write 0x60a0 (sip_descriptor d port reg),
                Reg32Write 0x60a4 0x60a4,
                Reg16Write 0x60ac 0x32]"
  let ?d5 = "d\<lparr>trace := trace d @ replicate k1 dma_poll @ ?prog\<rparr>"
  obtain r2 d6 where w2: "ap130x_dma_wait_idle env ?d5 = (r2, d6)" by fastforce
  have r2: "r2 = None"
    using assms sz w1 r1 k1(3) w2
    by (auto simp: ap130x_sipm_read_def Let_def dma_write_simps reg_addr dma_ctrl_consts
          latch_def to_ret_def sip_descriptor_def
        split: option.splits sum.splits if_splits prod.splits)
  from dma_wait_idle_ok [OF w2 [unfolded r2]] obtain k2 where
    k2: "0 < k2" "k2 \<le> 50" "d6 = ?d5\<lparr>trace := trace ?d5 @ replicate k2 dma_poll\<rparr>" by blast
  obtain scratch where rd: "ap130x_read env AP130X_DMA_DST d6 = (Inr scratch, d')"
    and v: "v = drop_bit (unat (32 - AP130X_REG_SIZE reg * 8) mod 32) scratch"
    using assms sz w1 r1 k1(3) w2 r2
    by (auto simp: ap130x_sipm_read_def Let_def dma_write_simps reg_addr dma_ctrl_consts
          latch_def to_ret_def sip_descriptor_def
        split: option.splits sum.splits if_splits prod.splits)
  have rd': "respond env (trace d6) (Reg32Read 0x60a4) = Inr scratch"
    and d': "d' = d6\<lparr>trace := trace d6 @ [Reg32Read 0x60a4]\<rparr>"
    using rd by (simp_all add: read_plain_32 reg_page0 reg32_size reg_addr)
  have t: "trace d' = trace d @ replicate k1 dma_poll @ ?prog @ replicate k2 dma_poll @ [Reg32Read 0x60a4]"
    using d' k2(3) by simp
  have "butlast (trace d') = trace d6" using d' by simp
  with rd' have "respond env (butlast (trace d')) (Reg32Read 0x60a4) = Inr scratch" by simp
  with t v k1(1,2) k2(1,2) show ?thesis by blast
qed

lemma dma_wait_idle_loop_any:
  "dma_wait_idle_loop env i d = (r, d') \<Longrightarrow>
   \<exists>k. k \<le> i \<and> d' = d\<lparr>trace := trace d @ replicate k dma_poll\<rparr>"
proof (induction i arbitrary: d)
  case 0
  then have "d' = d\<lparr>trace := trace d @ replicate 0 dma_poll\<rparr>" by simp
  then show ?case by blast
next
  case (Suc i)
  let ?d1 = "d\<lparr>trace := trace d @ [dma_poll]\<rparr>"
  have one: "d' = ?d1 \<Longrightarrow> ?case"
  proof -
    assume "d' = ?d1"
    then have "1 \<le> Suc i \<and> d' = d\<lparr>trace := trace d @ replicate 1 dma_poll\<rparr>" by simp
    then show ?case by blast
  qed
  show ?case
  proof (cases "respond env (trace d) dma_poll")
    case (Inl e)
    with Suc.prems have "d' = ?d1" by (simp add: dma_ctrl_read)
    then show ?thesis by (rule one)
  next
    case (Inr ctrl)
    show ?thesis
    proof (cases "ctrl AND AP130X_DMA_CTRL_MODE_MASK = AP130X_DMA_CTRL_MODE_IDLE")
      case True
      with Suc.prems Inr have "d' = ?d1" by (simp add: dma_ctrl_read)
      then show ?thesis by (rule one)
    next
      case False
      with Suc.prems Inr have "dma_wait_idle_loop env i ?d1 = (r, d')"
        by (simp add: dma_ctrl_read)
      from Suc.IH [OF this] obtain k where
        k: "k \<le> i" "d' = ?d1\<lparr>trace := trace ?d1 @ replicate k dma_poll\<rparr>"
        by blast
      have "d' = d\<lparr>trace := trace d @ replicate (Suc k) dma_poll\<rparr>"
        using k(2) by simp
      with k(1) have "Suc k \<le> Suc i \<and> d' = d\<lparr>trace := trace d @ replicate (Suc k) dma_poll\<rparr>"
        by simp
      then show ?thesis by blast
    qed
  qed
qed

lemma dma_wait_idle_any:
  "ap130x_dma_wait_idle env d = (r, d') \<Longrightarrow>
   \<exists>k. k \<le> 50 \<and> d' = d\<lparr>trace := trace d @ replicate k dma_poll\<rparr>"
  unfolding ap130x_dma_wait_idle_def by (rule dma_wait_idle_loop_any)

lemma write_plain_32_cases:
  "AP130X_REG_PAGE reg = 0 \<Longrightarrow> AP130X_REG_SIZE reg = 4 \<Longrightarrow>
   ap130x_write env reg val err d = (r, err', d') \<Longrightarrow>
   d' = d \<or> d' = d\<lparr>trace := trace d @ [Reg32Write (ucast (AP130X_REG_ADDR reg)) val]\<rparr>"
  by (auto simp: write_plain_32 split: option.splits)

lemma write_plain_16_cases:
  "AP130X_REG_PAGE reg = 0 \<Longrightarrow> AP130X_REG_SIZE reg = 2 \<Longrightarrow>
   ap130x_write env reg val err d = (r, err', d') \<Longrightarrow>
   d' = d \<or> d' = d\<lparr>trace := trace d @ [Reg16Write (ucast (AP130X_REG_ADDR reg)) val]\<rparr>"
  by (auto simp: write_plain_16 split: option.splits)

lemma sipm_write_ops:
  assumes "ap130x_sipm_write env port reg val d = (r, d')"
  shows "\<exists>ops. trace d' = trace d @ ops \<and>
           set ops \<subseteq> {dma_poll, Reg32Write 0x60a8 (AP130X_REG_SIZE reg),
                        Reg32Write 0x60a0 (push_bit 16 val OR 0x60a0),
                        Reg32Write 0x60a4 (sip_descriptor d port reg),
                        Reg16Write 0x60ac 0x302}"
proof -
  let ?S = "{dma_poll, Reg32Write 0x60a8 (AP130X_REG_SIZE reg),
                        Reg32Write 0x60a0 (push_bit 16 val OR 0x60a0),
                        Reg32Write 0x60a4 (sip_descriptor d port reg),
                        Reg16Write 0x60ac 0x302}"
  let ?ok = "\<lambda>x. \<exists>ops. trace x = trace d @ ops \<and> set ops \<subseteq> ?S"
  have step: "?ok y" if "?ok x" and "y = x \<or> y = x\<lparr>trace := trace x @ ops'\<rparr>" and "set ops' \<subseteq> ?S" 
    for x y ops'
  proof -
    from that(1) obtain ops where ops: "trace x = trace d @ ops" "set ops \<subseteq> ?S" by blast
    from that(2) show ?thesis
    proof
      assume "y = x" with that(1) show ?thesis by simp
    next
      assume "y = x\<lparr>trace := trace x @ ops'\<rparr>"
      then have "trace y = trace d @ (ops @ ops')" using ops(1) by simp
      moreover have "set (ops @ ops') \<subseteq> ?S" using ops(2) that(3) by simp
      ultimately show ?thesis by blast
    qed
  qed
  have ok0: "?ok d" by simp
  obtain r1 d1 where w1: "ap130x_dma_wait_idle env d = (r1, d1)" by fastforce
  from dma_wait_idle_any [OF w1] obtain k1 where
    k1: "d1 = d\<lparr>trace := trace d @ replicate k1 dma_poll\<rparr>" by blast
  have ok1: "?ok d1" by (rule step [OF ok0, of _ "replicate k1 dma_poll"]) (auto simp: k1)
  obtain x1 e1 d2 where a1:
    "ap130x_write env AP130X_DMA_SIZE (AP130X_REG_SIZE reg) (Some None) d1 = (x1, e1, d2)"
    by (metis prod_cases3)
  have ok2: "?ok d2"
    using write_plain_32_cases [OF reg_page0(25) reg32_size(3) a1]
    by (intro step [OF ok1, of _ "[Reg32Write 0x60a8 (AP130X_REG_SIZE reg)]"]) (auto simp: reg_addr)
  obtain x2 e2 d3 where a2:
    "ap130x_write env AP130X_DMA_SRC (push_bit 16 val OR AP130X_REG_ADDR AP130X_DMA_SRC) e1 d2 = (x2, e2, d3)"
    by (metis prod_cases3)
  have ok3: "?ok d3"
    using write_plain_32_cases [OF reg_page0(23) reg32_size(1) a2]
    by (intro step [OF ok2, of _ "[Reg32Write 0x60a0 (push_bit 16 val OR 0x60a0)]"])
       (auto simp: reg_addr dma_ctrl_consts)
  obtain x3 e3 d4 where a3:
    "ap130x_write env AP130X_DMA_DST (sip_descriptor d port reg) e2 d3 = (x3, e3, d4)"
    by (metis prod_cases3)
  have ok4: "?ok d4"
    using write_plain_32_cases [OF reg_page0(24) reg32_size(2) a3]
    by (intro step [OF ok3, of _ "[Reg32Write 0x60a4 (sip_descriptor d port reg)]"])
       (auto simp: reg_addr)
  obtain x4 e4 d5 where a4:
    "ap130x_write env AP130X_DMA_CTRL
       (AP130X_DMA_CTRL_SCH_NORMAL OR AP130X_DMA_CTRL_DST_SIP OR
        AP130X_DMA_CTRL_SRC_REG OR AP130X_DMA_CTRL_MODE_COPY) e3 d4 = (x4, e4, d5)"
    by (metis prod_cases3)
  have ok5: "?ok d5"
    using write_plain_16_cases [OF reg_page0(5) reg16_size(5) a4]
    by (intro step [OF ok4, of _ "[Reg16Write 0x60ac 0x302]"])
       (auto simp: reg_addr dma_ctrl_consts)
  obtain r6 d6 where w2: "ap130x_dma_wait_idle env d5 = (r6, d6)" by fastforce
  from dma_wait_idle_any [OF w2] obtain k2 where
    k2: "d6 = d5\<lparr>trace := trace d5 @ replicate k2 dma_poll\<rparr>" by blast
  have ok6: "?ok d6" by (rule step [OF ok5, of _ "replicate k2 dma_poll"]) (auto simp: k2)
  have "d' = d \<or> d' = d1 \<or> d' = d3 \<or> d' = d5 \<or> d' = d6"
    using assms w1 a1 a2 a3 a4 w2
    by (auto simp: ap130x_sipm_write_def Let_def sip_descriptor_def split: option.splits if_splits)
  with ok0 ok1 ok3 ok5 ok6 show ?thesis by blast
qed

lemma hi_half: "drop_bit 16 (push_bit 16 val OR 0x60a0 :: 32 word) = take_bit 16 val"
  by (rule bit_word_eqI) (auto simp: bit_simps)

lemma tag_from_debugfs:
  fixes v :: "64 word"
  assumes m: "v AND ucast (NOT (0x8700ffff :: 32 word)) = 0"
    and t: "drop_bit 24 v AND 7 = k" 
  shows "AP130X_REG_SIZE ((ucast v :: 32 word) AND NOT (push_bit 31 1)) = ucast k"
proof -
  have hi: "\<not> bit v n" if "27 \<le> n" "n \<le> 30" for n
  proof -
    have "n = 27 \<or> n = 28 \<or> n = 29 \<or> n = 30" using that by arith
    then have "bit (0x78ff0000 :: 64 word) n" by (elim disjE) simp_all
    moreover have "\<not> bit (v AND 0x78ff0000) n" using m by simp
    ultimately show ?thesis by (simp add: bit_simps)
  qed
  have seven: "(7 :: 64 word) = mask 3" by (simp add: mask_eq_exp_minus_1)
  have "drop_bit 24 ((ucast v :: 32 word) AND NOT (push_bit 31 1)) = ucast (drop_bit 24 v AND mask 3)"
  proof (rule bit_word_eqI)
    fix n assume "n < LENGTH(32)"
    have "bit v (24 + n) \<Longrightarrow> n < 7 \<Longrightarrow> n < 3"
      using hi [of "24 + n"] by (cases "n < 3") auto
    moreover have "bit (mask 7 :: 32 word) n \<longleftrightarrow> n < 7" by (auto simp: bit_mask_iff)
    then have "bit (127 :: 32 word) n \<longleftrightarrow> n < 7" by (simp add: mask_eq_exp_minus_1)
    ultimately show "bit (drop_bit 24 ((ucast v :: 32 word) AND NOT (push_bit 31 1))) n
        = bit (ucast (drop_bit 24 v AND mask 3) :: 32 word) n"
      by (auto simp: bit_simps)
  qed
  then show ?thesis
    unfolding AP130X_REG_SIZE_def t [symmetric] seven .
qed

lemma wait_idle_first:
  assumes "respond env (trace d) dma_poll = Inr c" "c AND 7 = 0"
  shows "ap130x_dma_wait_idle env d = (None, d\<lparr>trace := trace d @ [dma_poll]\<rparr>)"
proof -
  have fifty: "(50::nat) = Suc 49" by simp
  show ?thesis
    unfolding ap130x_dma_wait_idle_def fifty dma_wait_idle_loop.simps
    using assms
    by (simp add: dma_ctrl_read AP130X_DMA_CTRL_MODE_MASK_def AP130X_DMA_CTRL_MODE_IDLE_def)
qed

lemma descriptor_examples:
  "AP130X_REG_SIZE 0x01003000 = 1" "AP130X_REG_ADDR 0x01003000 = 0x3000"
  "AP130X_REG_SIZE 0x02003000 = 2" "AP130X_REG_ADDR 0x02003000 = 0x3000"
  "AP130X_REG_SIZE 0x00003000 = 0" "AP130X_REG_ADDR 0x00003000 = 0x3000"
  "AP130X_REG_SIZE 0x03003000 = 3"
  by (simp_all add: AP130X_REG_SIZE_def AP130X_REG_ADDR_def)

lemma sipm_read_example:
  "ap130x_sipm_read env_sensor 0 0x01003000 dev0 =
     (Inr 0xAB, dev0\<lparr>trace := [dma_poll, Reg32Write 0x60a8 1, Reg32Write 0x60a0 0x1203000,
                                Reg32Write 0x60a4 0x60a4, Reg16Write 0x60ac 0x32, dma_poll,
                                Reg32Read 0x60a4]\<rparr>)"
proof -
  have idle: "ap130x_dma_wait_idle env_sensor d = (None, d\<lparr>trace := trace d @ [dma_poll]\<rparr>)" for d
    by (rule wait_idle_first [of _ _ 0]) (simp_all add: env_sensor_def dma_poll_def)
  have r: "respond env_sensor h (Reg32Write a v) = Inr 0"
          "respond env_sensor h (Reg16Write a' v) = Inr 0"
          "respond env_sensor h (Reg32Read a') = Inr 0xAB120000" for h a a' v
    by (simp_all add: env_sensor_def)
  have i: "i2c_addr dev0 = 0x10" "trace dev0 = []" by (simp_all add: dev0_def)
  show ?thesis
    by (simp add: ap130x_sipm_read_def Let_def idle dma_write_simps reg_addr dma_ctrl_consts
          read_plain_32 reg_page0 reg32_size latch_def to_ret_def descriptor_examples
          AP130X_DMA_SIP_ADDR_16_BIT_def r i)
qed

lemma sipm_write_example:
  "ap130x_sipm_write env_ok 0 0x02003000 0x1234 dev0 =
     (None, dev0\<lparr>trace := [dma_poll, Reg32Write 0x60a8 2, Reg32Write 0x60a0 0x123460a0,
                             Reg32Write 0x60a4 0x3203000, Reg16Write 0x60ac 0x302, dma_poll]\<rparr>)"
proof -
  have idle: "ap130x_dma_wait_idle env_ok d = (None, d\<lparr>trace := trace d @ [dma_poll]\<rparr>)" for d
    by (rule wait_idle_first [of _ _ 0]) (simp_all add: env_ok_def)
  have r: "respond env_ok h op = Inr 0" for h op by (simp add: env_ok_def)
  have i: "i2c_addr dev0 = 0x10" "trace dev0 = []" by (simp_all add: dev0_def)
  show ?thesis
    by (simp add: ap130x_sipm_write_def Let_def idle dma_write_simps reg_addr dma_ctrl_consts
          latch_def to_ret_def descriptor_examples AP130X_DMA_SIP_DATA_16_BIT_def
          AP130X_DMA_SIP_ADDR_16_BIT_def r i)
qed



text \<open>
  Claim C5 (sensor-proxy shift quirks). A proxy read of width 1 or 2 that succeeds ends with
  the read of the scratch register \<^verbatim>\<open>DMA_DST\<close>, and the value it returns is the word the
  bus delivered there shifted right by \<open>32 - 8 * width\<close> bits: 24 for width 1, 16 for
  width 2. Whatever its width and its outcome, a proxy write puts nothing into \<^verbatim>\<open>DMA_SRC\<close>
  but the input value shifted left by 16 bits, over the register's own address \<open>0x60a0\<close>
  in the low half (so the upper half of the word is the low 16 bits of the value); a
  proxy write that succeeds has made that write.
\<close>

theorem sipm_shift_quirks:
  "((AP130X_REG_SIZE reg = 1 \<or> AP130X_REG_SIZE reg = 2) \<and>
    ap130x_sipm_read env port reg d = (Inr v, d') \<longrightarrow>
      (\<exists>scratch. last (trace d') = Reg32Read 0x60a4 \<and>
         respond env (butlast (trace d')) (Reg32Read 0x60a4) = Inr scratch \<and>
         v = drop_bit (32 - unat (AP130X_REG_SIZE reg) * 8) scratch \<and>
         v = (if AP130X_REG_SIZE reg = 1 then drop_bit 24 scratch else drop_bit 16 scratch)))
   \<and> (ap130x_sipm_write env port reg val d = (r, d'') \<longrightarrow>
      (\<exists>ops. trace d'' = trace d @ ops \<and>
         (\<forall>x. Reg32Write 0x60a0 x \<in> set ops \<longrightarrow>
              x = push_bit 16 val OR 0x60a0 \<and> drop_bit 16 x = take_bit 16 val) \<and>
         (r = None \<longrightarrow> Reg32Write 0x60a0 (push_bit 16 val OR 0x60a0) \<in> set ops)))"
proof (intro conjI impI)
  assume h: "(AP130X_REG_SIZE reg = 1 \<or> AP130X_REG_SIZE reg = 2) \<and>
             ap130x_sipm_read env port reg d = (Inr v, d')"
  from sipm_read_ok_trace [of env port reg d v d'] h obtain k1 k2 scratch where
    t: "trace d' = trace d @ replicate k1 dma_poll
             @ [Reg32Write 0x60a8 (AP130X_REG_SIZE reg),
                Reg32Write 0x60a0 (sip_descriptor d port reg),
                Reg32Write 0x60a4 0x60a4,
                Reg16Write 0x60ac 0x32]
             @ replicate k2 dma_poll @ [Reg32Read 0x60a4]"
    and s: "respond env (butlast (trace d')) (Reg32Read 0x60a4) = Inr scratch"
    and v: "v = drop_bit (unat (32 - AP130X_REG_SIZE reg * 8) mod 32) scratch"
    by blast
  have l: "last (trace d') = Reg32Read 0x60a4" by (simp add: t)
  have n: "unat (32 - AP130X_REG_SIZE reg * 8) mod 32 = 32 - unat (AP130X_REG_SIZE reg) * 8"
    and n': "unat (32 - AP130X_REG_SIZE reg * 8) mod 32 = (if AP130X_REG_SIZE reg = 1 then 24 else 16)"
    using h by auto
  have "v = drop_bit (32 - unat (AP130X_REG_SIZE reg) * 8) scratch"
    using v n by simp
  moreover have "v = (if AP130X_REG_SIZE reg = 1 then drop_bit 24 scratch else drop_bit 16 scratch)"
    using v n' by simp
  ultimately show "\<exists>scratch. last (trace d') = Reg32Read 0x60a4 \<and>
         respond env (butlast (trace d')) (Reg32Read 0x60a4) = Inr scratch \<and>
         v = drop_bit (32 - unat (AP130X_REG_SIZE reg) * 8) scratch \<and>
         v = (if AP130X_REG_SIZE reg = 1 then drop_bit 24 scratch else drop_bit 16 scratch)"
    using l s by blast
next
  assume w: "ap130x_sipm_write env port reg val d = (r, d'')"
  from sipm_write_ops [OF w] obtain ops where
    ops: "trace d'' = trace d @ ops"
         "set ops \<subseteq> {dma_poll, Reg32Write 0x60a8 (AP130X_REG_SIZE reg),
                        Reg32Write 0x60a0 (push_bit 16 val OR 0x60a0),
                        Reg32Write 0x60a4 (sip_descriptor d port reg),
                        Reg16Write 0x60ac 0x302}"
    by blast
  have only: "\<forall>x. Reg32Write 0x60a0 x \<in> set ops \<longrightarrow>
              x = push_bit 16 val OR 0x60a0 \<and> drop_bit 16 x = take_bit 16 val"
  proof (intro allI impI)
    fix x assume "Reg32Write 0x60a0 x \<in> set ops"
    with ops(2) have "Reg32Write 0x60a0 x \<in> {dma_poll, Reg32Write 0x60a8 (AP130X_REG_SIZE reg),
                        Reg32Write 0x60a0 (push_bit 16 val OR 0x60a0),
                        Reg32Write 0x60a4 (sip_descriptor d port reg),
                        Reg16Write 0x60ac 0x302}"
      by blast
    then have "x = push_bit 16 val OR 0x60a0" by (simp add: dma_poll_def)
    then show "x = push_bit 16 val OR 0x60a0 \<and> drop_bit 16 x = take_bit 16 val"
      using hi_half [of val] by (simp only: simp_thms)
  qed
  have made: "r = None \<longrightarrow> Reg32Write 0x60a0 (push_bit 16 val OR 0x60a0) \<in> set ops"
  proof
    assume "r = None"
    with w sipm_write_ok_trace [of env port reg val d d''] obtain k1 k2 where
      "trace d'' = trace d @ replicate k1 dma_poll
             @ [Reg32Write 0x60a8 (AP130X_REG_SIZE reg),
                Reg32Write 0x60a0 (push_bit 16 val OR 0x60a0),
                Reg32Write 0x60a4 (sip_descriptor d port reg),
                Reg16Write 0x60ac 0x302]
             @ replicate k2 dma_poll"
      by blast
    with ops(1) have "ops = replicate k1 dma_poll
             @ [Reg32Write 0x60a8 (AP130X_REG_SIZE reg),
                Reg32Write 0x60a0 (push_bit 16 val OR 0x60a0),
                Reg32Write 0x60a4 (sip_descriptor d port reg),
                Reg16Write 0x60ac 0x302]
             @ replicate k2 dma_poll"
      by simp
    then show "Reg32Write 0x60a0 (push_bit 16 val OR 0x60a0) \<in> set ops" by simp
  qed
  show "\<exists>ops. trace d'' = trace d @ ops \<and>
         (\<forall>x. Reg32Write 0x60a0 x \<in> set ops \<longrightarrow>
              x = push_bit 16 val OR 0x60a0 \<and> drop_bit 16 x = take_bit 16 val) \<and>
         (r = None \<longrightarrow> Reg32Write 0x60a0 (push_bit 16 val OR 0x60a0) \<in> set ops)"
    using ops(1) only made by blast
qed

theorem sipm_shift_quirks_witness:
  "AP130X_REG_SIZE 0x01003000 = 1
   \<and> ap130x_sipm_read env_sensor 0 0x01003000 dev0 =
       (Inr 0xAB, dev0\<lparr>trace := [dma_poll, Reg32Write 0x60a8 1, Reg32Write 0x60a0 0x1203000,
                                  Reg32Write 0x60a4 0x60a4, Reg16Write 0x60ac 0x32, dma_poll,
                                  Reg32Read 0x60a4]\<rparr>)
   \<and> (\<exists>scratch. respond env_sensor [dma_poll, Reg32Write 0x60a8 1, Reg32Write 0x60a0 0x1203000,
                                  Reg32Write 0x60a4 0x60a4, Reg16Write 0x60ac 0x32, dma_poll]
                    (Reg32Read 0x60a4) = Inr scratch \<and> (0xAB :: 32 word) = drop_bit 24 scratch)
   \<and> ap130x_sipm_write env_ok 0 0x02003000 0x1234 dev0 =
       (None, dev0\<lparr>trace := [dma_poll, Reg32Write 0x60a8 2, Reg32Write 0x60a0 0x123460a0,
                               Reg32Write 0x60a4 0x3203000, Reg16Write 0x60ac 0x302, dma_poll]\<rparr>)
   \<and> drop_bit 16 (0x123460a0 :: 32 word) = 0x1234"
  using sipm_shift_quirks [where reg = "0x01003000" and env = env_sensor and port = 0
          and d = dev0 and v = "0xAB" and d' =
          "dev0\<lparr>trace := [dma_poll, Reg32Write 0x60a8 1, Reg32Write 0x60a0 0x1203000,
                                  Reg32Write 0x60a4 0x60a4, Reg16Write 0x60ac 0x32, dma_poll,
                                  Reg32Read 0x60a4]\<rparr>" and val = 0 and r = None and d'' = dev0]
        sipm_shift_quirks [where reg = "0x02003000" and env = env_ok and port = 0
          and d = dev0 and v = 0 and d' = dev0 and val = "0x1234" and r = None and d'' =
          "dev0\<lparr>trace := [dma_poll, Reg32Write 0x60a8 2, Reg32Write 0x60a0 0x123460a0,
                               Reg32Write 0x60a4 0x3203000, Reg16Write 0x60ac 0x302, dma_poll]\<rparr>"]
  by (simp add: sipm_read_example sipm_write_example descriptor_examples)


lemma sipm_addr_set_tags:
  assumes a: "ap130x_sipm_addr_set v64 d = (None, d1)"
  shows "AP130X_REG_SIZE (sipm_addr d1 AND NOT (push_bit 31 1)) = 1 \<or>
         AP130X_REG_SIZE (sipm_addr d1 AND NOT (push_bit 31 1)) = 2"
proof -
  from a have m: "v64 AND ucast (NOT (0x8700ffff :: 32 word)) = 0"
    and t: "drop_bit 24 v64 AND 7 = 1 \<or> drop_bit 24 v64 AND 7 = 2"
    and d1: "sipm_addr d1 = ucast v64"
    by (auto simp: ap130x_sipm_addr_set_def split: if_splits)
  from t show ?thesis
  proof
    assume "drop_bit 24 v64 AND 7 = 1"
    from tag_from_debugfs [OF m this] show ?thesis by (simp add: d1)
  next
    assume "drop_bit 24 v64 AND 7 = 2"
    from tag_from_debugfs [OF m this] show ?thesis by (simp add: d1)
  qed
qed


section \<open>How the operations extend the history\<close>

lemma evolves_refl: "evolves P d d"
proof -
  have "d = d\<lparr>reg_page := reg_page d, streaming := streaming d, trace := trace d @ []\<rparr> \<and>
        list_all P []"
    by simp
  then show ?thesis unfolding evolves_def by blast
qed

lemma evolves_trans:
  assumes "evolves P a b" "evolves P b c"
  shows "evolves P a c"
proof -
  from assms(1) obtain ops rp st where
    b: "b = a\<lparr>reg_page := rp, streaming := st, trace := trace a @ ops\<rparr>" "list_all P ops"
    unfolding evolves_def by blast
  from assms(2) obtain ops' rp' st' where
    c: "c = b\<lparr>reg_page := rp', streaming := st', trace := trace b @ ops'\<rparr>" "list_all P ops'"
    unfolding evolves_def by blast
  have "c = a\<lparr>reg_page := rp', streaming := st', trace := trace a @ (ops @ ops')\<rparr> \<and>
        list_all P (ops @ ops')"
    using b c by simp
  then show ?thesis unfolding evolves_def by blast
qed

lemma evolves_ops:
  assumes "list_all P ops"
  shows "evolves P d (d\<lparr>trace := trace d @ ops\<rparr>)"
proof -
  have "d\<lparr>trace := trace d @ ops\<rparr> =
          d\<lparr>reg_page := reg_page d, streaming := streaming d, trace := trace d @ ops\<rparr>"
    by simp
  with assms show ?thesis unfolding evolves_def by blast
qed

lemma evolves_reg_page: "evolves P d (d\<lparr>reg_page := x\<rparr>)"
proof -
  have "d\<lparr>reg_page := x\<rparr> = d\<lparr>reg_page := x, streaming := streaming d, trace := trace d @ []\<rparr> \<and>
        list_all P []"
    by simp
  then show ?thesis unfolding evolves_def by blast
qed

lemma evolves_streaming: "evolves P d (d\<lparr>streaming := x\<rparr>)"
proof -
  have "d\<lparr>streaming := x\<rparr> = d\<lparr>reg_page := reg_page d, streaming := x, trace := trace d @ []\<rparr> \<and>
        list_all P []"
    by simp
  then show ?thesis unfolding evolves_def by blast
qed

lemma evolves_mono:
  assumes "evolves P d d'" "\<And>op. P op \<Longrightarrow> Q op"
  shows "evolves Q d d'"
proof -
  from assms(1) obtain ops rp st where
    b: "d' = d\<lparr>reg_page := rp, streaming := st, trace := trace d @ ops\<rparr>" "list_all P ops"
    unfolding evolves_def by blast
  from b(2) assms(2) have "list_all Q ops" by (simp add: list_all_iff)
  with b(1) show ?thesis unfolding evolves_def by blast
qed

lemma evolves_trace:
  "evolves P d d' \<Longrightarrow> \<exists>ops. trace d' = trace d @ ops \<and> list_all P ops"
  unfolding evolves_def by auto

lemma evolves_config:
  assumes "evolves P d d'"
  shows "fw d' = fw d" "standby_gpio d' = standby_gpio d" "sensor_supplies d' = sensor_supplies d"
    "sensor0 d' = sensor0 d" "sensor1 d' = sensor1 d" "ctrls d' = ctrls d"
    "sensor_name d' = sensor_name d"
  using assms unfolding evolves_def by auto

lemma evolves_bus: "P op \<Longrightarrow> evolves P d (snd (bus env op d))"
  unfolding bus_def by (simp add: evolves_ops)

lemma evolves_emit: "P op \<Longrightarrow> evolves P d (emit op d)"
  unfolding emit_def by (simp add: evolves_ops)

lemma reg_ops_are_reg_ops:
  "list_all is_reg_op (write_ops reg val)" "list_all is_reg_op (read_ops reg)"
  "is_reg_op (page_select page)"
  by (simp_all add: write_ops_def read_ops_def page_select_def)

lemma evolves_write_raw:
  "evolves is_reg_op d (snd (ap130x_write_raw env reg val d))"
  by (simp add: snd_write_raw evolves_ops reg_ops_are_reg_ops)

lemma evolves_read_raw:
  "evolves is_reg_op d (snd (ap130x_read_raw env reg d))"
  by (simp add: snd_read_raw evolves_ops reg_ops_are_reg_ops)

lemma evolves_page_select:
  "evolves is_reg_op d (snd (ap130x_write_raw env AP130X_ADVANCED_BASE page d)\<lparr>reg_page := x\<rparr>)"
  by (rule evolves_trans [OF evolves_write_raw evolves_reg_page])

lemma evolves_write:
  "evolves is_reg_op d (snd (snd (ap130x_write env reg val err d)))"
proof -
  have a: "evolves is_reg_op d (snd (ap130x_write_raw env r v
             (snd (ap130x_write_raw env AP130X_ADVANCED_BASE page d)\<lparr>reg_page := x\<rparr>)))" for r v page x
    by (rule evolves_trans [OF evolves_page_select evolves_write_raw])
  show ?thesis
    by (auto simp: ap130x_write_def Let_def case_prod_beta evolves_refl evolves_write_raw a
             split: option.splits)
qed

lemma evolves_read:
  "evolves is_reg_op d (snd (ap130x_read env reg d))"
proof -
  have a: "evolves is_reg_op d (snd (ap130x_read_raw env r
             (snd (ap130x_write_raw env AP130X_ADVANCED_BASE page d)\<lparr>reg_page := x\<rparr>)))" for r page x
    by (rule evolves_trans [OF evolves_page_select evolves_read_raw])
  show ?thesis
    by (auto simp: ap130x_read_def Let_def case_prod_beta evolves_refl evolves_read_raw a
             evolves_write_raw split: option.splits)
qed

text \<open>The same facts as steps: what holds up to \<open>x\<close> holds after one more call.\<close>

lemma step_write:
  assumes "evolves P d x" "\<And>op. is_reg_op op \<Longrightarrow> P op"
  shows "evolves P d (snd (snd (ap130x_write env reg val err x)))"
  by (rule evolves_trans [OF assms(1) evolves_mono [OF evolves_write assms(2)]])

lemma step_write_null:
  assumes "evolves P d x" "\<And>op. is_reg_op op \<Longrightarrow> P op"
  shows "evolves P d (snd (write_null env reg val x))"
  using step_write [OF assms, of env reg val None] by (simp add: write_null_def case_prod_beta)

lemma step_read:
  assumes "evolves P d x" "\<And>op. is_reg_op op \<Longrightarrow> P op"
  shows "evolves P d (snd (ap130x_read env reg x))"
  by (rule evolves_trans [OF assms(1) evolves_mono [OF evolves_read assms(2)]])

lemma step_streaming:
  assumes "evolves P d x"
  shows "evolves P d (x\<lparr>streaming := b\<rparr>)"
  by (rule evolves_trans [OF assms evolves_streaming])

lemma step_stall:
  assumes "evolves P d x" "\<And>op. is_reg_op op \<Longrightarrow> P op"
  shows "evolves P d (snd (ap130x_stall env stall x))"
  unfolding ap130x_stall_def
  by (auto simp: case_prod_beta split: option.splits intro!: step_write assms)

section \<open>Firmware load window\<close>

lemma window_arith:
  fixes p len :: "32 word"
  assumes "p < 0x2000"
  shows "0x8000 \<le> p + 0x8000" "p + 0x8000 < 0xA000"
    "unat (p + 0x8000) + unat (min len (0x2000 - p)) \<le> 0xA000"
    "(if p + min len (0x2000 - p) \<ge> 0x2000 then 0 else p + min len (0x2000 - p)) < 0x2000"
proof -
  have p: "unat p < 8192" using assms by (simp add: word_less_nat_alt)
  have a: "unat (p + 0x8000) = unat p + 32768"
    using p by (simp add: unat_word_ariths)
  have s: "unat (0x2000 - p) = 8192 - unat p"
    using assms by (simp add: unat_sub word_le_nat_alt word_less_nat_alt)
  have m: "unat (min len (0x2000 - p)) \<le> 8192 - unat p"
    using s by (simp add: min_def word_le_nat_alt)
  show "0x8000 \<le> p + 0x8000" using a by (simp add: word_le_nat_alt)
  show "p + 0x8000 < 0xA000" using a p by (simp add: word_less_nat_alt)
  show "unat (p + 0x8000) + unat (min len (0x2000 - p)) \<le> 0xA000" using a m p by simp
  show "(if p + min len (0x2000 - p) \<ge> 0x2000 then 0 else p + min len (0x2000 - p)) < 0x2000"
    by (simp add: not_le)
qed

lemma fw_window_unfold:
  "ap130x_write_fw_window env buf len win_pos d =
     (if len > 0 then
        (case respond env (trace d)
                (RawWrite16 (win_pos + 0x8000) (min len (0x2000 - win_pos))
                   (take (unat (min len (0x2000 - win_pos))) buf)) of
           Inl e \<Rightarrow> (Some e, win_pos,
                     d\<lparr>trace := trace d @
                        [RawWrite16 (win_pos + 0x8000) (min len (0x2000 - win_pos))
                           (take (unat (min len (0x2000 - win_pos))) buf)]\<rparr>)
         | Inr v \<Rightarrow>
             ap130x_write_fw_window env (drop (unat (min len (0x2000 - win_pos))) buf)
               (len - min len (0x2000 - win_pos))
               (if win_pos + min len (0x2000 - win_pos) \<ge> 0x2000 then 0
                else win_pos + min len (0x2000 - win_pos))
               (d\<lparr>trace := trace d @
                    [RawWrite16 (win_pos + 0x8000) (min len (0x2000 - win_pos))
                       (take (unat (min len (0x2000 - win_pos))) buf)]\<rparr>))
      else (None, win_pos, d))"
  by (subst ap130x_write_fw_window.simps)
     (simp add: Let_def bus_def AP130X_FW_WINDOW_OFFSET_def AP130X_FW_WINDOW_SIZE_def
           split: sum.splits)

lemma fw_window_bounds:
  "win_pos < 0x2000 \<Longrightarrow>
   fst (snd (ap130x_write_fw_window env buf len win_pos d)) < 0x2000 \<and>
   evolves (\<lambda>op. is_raw_write op \<and> raw_in_window op) d
     (snd (snd (ap130x_write_fw_window env buf len win_pos d)))"
proof (induction env buf len win_pos d rule: ap130x_write_fw_window.induct)
  case (1 env buf len win_pos d)
  let ?ws = "min len (0x2000 - win_pos)"
  let ?op = "RawWrite16 (win_pos + 0x8000) ?ws (take (unat ?ws) buf)"
  let ?d1 = "d\<lparr>trace := trace d @ [?op]\<rparr>"
  let ?p1 = "if win_pos + ?ws \<ge> 0x2000 then 0 else win_pos + ?ws"
  let ?Q = "\<lambda>op. is_raw_write op \<and> raw_in_window op"
  have q: "?Q ?op"
    using window_arith(1,2) [OF "1.prems"] window_arith(3) [OF "1.prems", of len]
    by (simp add: AP130X_FW_WINDOW_OFFSET_def AP130X_FW_WINDOW_SIZE_def)
  have e1: "evolves ?Q d ?d1" by (rule evolves_ops) (simp only: list.pred_inject q simp_thms)
  show ?case
  proof (cases "0 < len")
    case False
    then show ?thesis using "1.prems" by (subst (1 2) fw_window_unfold) (simp add: evolves_refl)
  next
    case True
    show ?thesis
    proof (cases "respond env (trace d) ?op")
      case (Inl e)
      then show ?thesis
        using True "1.prems" e1 by (subst (1 2) fw_window_unfold) simp
    next
      case (Inr v)
      have p1: "?p1 < 0x2000" by (rule window_arith(4) [OF "1.prems", of len])
      have "fst (snd (ap130x_write_fw_window env (drop (unat ?ws) buf) (len - ?ws) ?p1 ?d1)) < 0x2000 \<and>
            evolves ?Q ?d1 (snd (snd (ap130x_write_fw_window env (drop (unat ?ws) buf) (len - ?ws) ?p1 ?d1)))"
      proof -
        have b: "(Inr v, ?d1) =
                 bus env (RawWrite16 (win_pos + AP130X_FW_WINDOW_OFFSET)
                            (min len (AP130X_FW_WINDOW_SIZE - win_pos))
                            (take (unat (min len (AP130X_FW_WINDOW_SIZE - win_pos))) buf)) d"
          using Inr
          by (simp add: bus_def AP130X_FW_WINDOW_OFFSET_def AP130X_FW_WINDOW_SIZE_def)
        show ?thesis
          using "1.IH" [OF True refl refl b refl, unfolded AP130X_FW_WINDOW_SIZE_def] p1
          by blast
      qed
      then have "fst (snd (ap130x_write_fw_window env (drop (unat ?ws) buf) (len - ?ws) ?p1 ?d1)) < 0x2000 \<and>
            evolves ?Q d (snd (snd (ap130x_write_fw_window env (drop (unat ?ws) buf) (len - ?ws) ?p1 ?d1)))"
        using evolves_trans [OF e1] by blast
      then show ?thesis
        using True Inr by (subst (1 2) fw_window_unfold) simp
    qed
  qed
qed

lemma window_cursor:
  fixes p len :: "32 word"
  assumes "p < 0x2000"
  shows "unat (if p + min len (0x2000 - p) \<ge> 0x2000 then 0 else p + min len (0x2000 - p))
           = (unat p + unat (min len (0x2000 - p))) mod 8192"
    and "unat (min len (0x2000 - p)) \<le> unat len"
    and "unat (len - min len (0x2000 - p)) = unat len - unat (min len (0x2000 - p))"
proof -
  let ?ws = "min len (0x2000 - p)"
  have p: "unat p < 8192" using assms by (simp add: word_less_nat_alt)
  have s: "unat (0x2000 - p) = 8192 - unat p"
    using assms by (simp add: unat_sub word_le_nat_alt word_less_nat_alt)
  have m: "unat ?ws \<le> 8192 - unat p"
    using s by (simp add: min_def word_le_nat_alt)
  have sum: "unat (p + ?ws) = unat p + unat ?ws"
    using p m by (simp add: unat_word_ariths)
  have le: "?ws \<le> len" by simp
  show "unat ?ws \<le> unat len" using le by (simp only: word_le_nat_alt)
  show "unat (len - ?ws) = unat len - unat ?ws" using le by (simp only: unat_sub)
  show "unat (if p + ?ws \<ge> 0x2000 then 0 else p + ?ws) = (unat p + unat ?ws) mod 8192"
  proof (cases "p + ?ws \<ge> 0x2000")
    case True
    then have "8192 \<le> unat p + unat ?ws" using sum by (simp add: word_le_nat_alt)
    with m p have "unat p + unat ?ws = 8192" by simp
    with True show ?thesis by simp
  next
    case False
    then have "unat p + unat ?ws < 8192" using sum by (simp add: word_le_nat_alt not_le)
    with False sum show ?thesis by simp
  qed
qed

lemma fw_window_stream:
  "all_ok env \<Longrightarrow> win_pos < 0x2000 \<Longrightarrow> unat len \<le> length buf \<Longrightarrow>
   fst (ap130x_write_fw_window env buf len win_pos d) = None \<and>
   unat (fst (snd (ap130x_write_fw_window env buf len win_pos d)))
     = (unat win_pos + unat len) mod 8192 \<and>
   (\<exists>ops. snd (snd (ap130x_write_fw_window env buf len win_pos d)) = d\<lparr>trace := trace d @ ops\<rparr> \<and>
          list_all is_raw_write ops \<and> fw_bytes ops = take (unat len) buf)"
proof (induction env buf len win_pos d rule: ap130x_write_fw_window.induct)
  case (1 env buf len win_pos d)
  let ?ws = "min len (0x2000 - win_pos)"
  let ?op = "RawWrite16 (win_pos + 0x8000) ?ws (take (unat ?ws) buf)"
  let ?d1 = "d\<lparr>trace := trace d @ [?op]\<rparr>"
  let ?p1 = "if win_pos + ?ws \<ge> 0x2000 then 0 else win_pos + ?ws"
  let ?F = "ap130x_write_fw_window env buf len win_pos d"
  let ?G = "ap130x_write_fw_window env (drop (unat ?ws) buf) (len - ?ws) ?p1 ?d1"
  note pos = \<open>win_pos < 0x2000\<close>
  show ?case
  proof (cases "0 < len")
    case False
    then have z: "len = 0" by (simp add: word_neq_0_conv [symmetric])
    have p: "unat win_pos < 8192" using pos by (simp add: word_less_nat_alt)
    have F: "ap130x_write_fw_window env buf 0 win_pos d = (None, win_pos, d)"
      by (subst fw_window_unfold) simp
    have "d = d\<lparr>trace := trace d @ []\<rparr> \<and> list_all is_raw_write [] \<and>
          fw_bytes [] = take (unat len) buf"
      using z by (simp add: fw_bytes_def)
    then have "\<exists>ops. d = d\<lparr>trace := trace d @ ops\<rparr> \<and> list_all is_raw_write ops \<and>
          fw_bytes ops = take (unat len) buf"
      by blast
    then show ?thesis using z p by (simp add: F)
  next
    case True
    from "1.prems"(1) obtain v where v: "respond env (trace d) ?op = Inr v"
      unfolding all_ok_def by blast
    have FG: "?F = ?G" using True v by (subst fw_window_unfold) simp
    have p1: "?p1 < 0x2000" by (rule window_arith(4) [OF pos, of len])
    have c1: "unat ?p1 = (unat win_pos + unat ?ws) mod 8192"
      and c2: "unat ?ws \<le> unat len"
      and c3: "unat (len - ?ws) = unat len - unat ?ws"
      by (rule window_cursor [OF pos, of len])+
    have room: "unat (len - ?ws) \<le> length (drop (unat ?ws) buf)"
      using c3 "1.prems"(3) by simp
    have b: "(Inr v, ?d1) =
             bus env (RawWrite16 (win_pos + AP130X_FW_WINDOW_OFFSET)
                        (min len (AP130X_FW_WINDOW_SIZE - win_pos))
                        (take (unat (min len (AP130X_FW_WINDOW_SIZE - win_pos))) buf)) d"
      using v by (simp add: bus_def AP130X_FW_WINDOW_OFFSET_def AP130X_FW_WINDOW_SIZE_def)
    have IH: "fst ?G = None \<and> unat (fst (snd ?G)) = (unat ?p1 + unat (len - ?ws)) mod 8192 \<and>
          (\<exists>ops. snd (snd ?G) = ?d1\<lparr>trace := trace ?d1 @ ops\<rparr> \<and> list_all is_raw_write ops \<and>
                 fw_bytes ops = take (unat (len - ?ws)) (drop (unat ?ws) buf))"
      using "1.IH" [OF True refl refl b refl, unfolded AP130X_FW_WINDOW_SIZE_def] p1 room
            "1.prems"(1)
      by blast
    then obtain ops where
      ops: "snd (snd ?G) = ?d1\<lparr>trace := trace ?d1 @ ops\<rparr>" "list_all is_raw_write ops"
           "fw_bytes ops = take (unat (len - ?ws)) (drop (unat ?ws) buf)"
      by blast
    have cur: "(unat ?p1 + unat (len - ?ws)) mod 8192 = (unat win_pos + unat len) mod 8192"
    proof -
      have "(unat ?p1 + unat (len - ?ws)) mod 8192
              = ((unat win_pos + unat ?ws) mod 8192 + (unat len - unat ?ws)) mod 8192"
        by (simp only: c1 c3)
      also have "\<dots> = (unat win_pos + unat ?ws + (unat len - unat ?ws)) mod 8192"
        by (simp only: mod_add_left_eq)
      also have "unat win_pos + unat ?ws + (unat len - unat ?ws) = unat win_pos + unat len"
        using c2 by simp
      finally show ?thesis .
    qed
    have data: "fw_bytes (?op # ops) = take (unat len) buf"
    proof -
      have "fw_bytes (?op # ops) = take (unat ?ws) buf @ take (unat len - unat ?ws) (drop (unat ?ws) buf)"
        using ops(3) by (simp add: fw_bytes_def c3)
      also have "\<dots> = take (unat ?ws + (unat len - unat ?ws)) buf"
        by (simp only: take_add)
      also have "unat ?ws + (unat len - unat ?ws) = unat len" using c2 by simp
      finally show ?thesis .
    qed
    have "snd (snd ?G) = d\<lparr>trace := trace d @ (?op # ops)\<rparr> \<and> list_all is_raw_write (?op # ops) \<and>
          fw_bytes (?op # ops) = take (unat len) buf"
      using ops(1,2) data by simp
    then have "\<exists>ops'. snd (snd ?G) = d\<lparr>trace := trace d @ ops'\<rparr> \<and> list_all is_raw_write ops' \<and>
          fw_bytes ops' = take (unat len) buf"
      by blast
    with IH cur show ?thesis by (simp only: FG)
  qed
qed

section \<open>Stall and firmware load on an error-free bus\<close>

lemma all_ok_ret: "all_ok env \<Longrightarrow> to_ret (respond env h op) = None"
proof -
  assume "all_ok env"
  then obtain v where "respond env h op = Inr v" unfolding all_ok_def by blast
  then show ?thesis by (simp add: to_ret_def)
qed

lemma write_ok_16:
  assumes "all_ok env" "AP130X_REG_PAGE reg = 0" "AP130X_REG_SIZE reg = 2"
  shows "ap130x_write env reg val None d =
           (None, None, d\<lparr>trace := trace d @ [Reg16Write (ucast (AP130X_REG_ADDR reg)) val]\<rparr>)"
    and "ap130x_write env reg val (Some None) d =
           (None, Some None, d\<lparr>trace := trace d @ [Reg16Write (ucast (AP130X_REG_ADDR reg)) val]\<rparr>)"
  by (simp_all add: write_plain_16 [OF assms(2,3)] all_ok_ret [OF assms(1)] latch_def)

lemma adv_irq_consts:
  "AP130X_REG_PAGE AP130X_ADV_IRQ_SYS_INTE = 0x230000"
  "adv_reg AP130X_ADV_IRQ_SYS_INTE = 0x0400e000"
  "AP130X_REG_SIZE 0x0400e000 = 4"
  "(ucast (AP130X_REG_ADDR 0x0400e000) :: 16 word) = 0xe000"
  by (simp_all add: AP130X_REG_PAGE_def AP130X_ADV_IRQ_SYS_INTE_def AP130X_REG_32BIT_def
        adv_reg_def AP130X_REG_PAGE_MASK_def AP130X_REG_ADV_START_def AP130X_REG_SIZE_def
        AP130X_REG_ADDR_def)

lemma adv_irq_write_ok:
  assumes "all_ok env"
  shows "ap130x_write env AP130X_ADV_IRQ_SYS_INTE v None d =
           (None, None,
            d\<lparr>reg_page := 0x230000,
              trace := trace d @ (if reg_page d \<noteq> 0x230000 then [page_select 0x230000] else [])
                       @ [Reg32Write 0xe000 v]\<rparr>)"
proof (cases "reg_page d = 0x230000")
  case True
  then have "d\<lparr>reg_page := 0x230000, trace := trace d @ [Reg32Write 0xe000 v]\<rparr>
             = d\<lparr>trace := trace d @ [Reg32Write 0xe000 v]\<rparr>"
    by simp
  then show ?thesis
    using True
    by (simp add: ap130x_write_def adv_irq_consts write_raw_32 all_ok_ret [OF assms] latch_def)
next
  case False
  then show ?thesis
    by (simp add: ap130x_write_def adv_irq_consts write_raw_32 page_select_step
          all_ok_ret [OF assms] latch_def)
qed

lemma stall_consts:
  "AP130X_SYS_START_PLL_LOCK OR AP130X_SYS_START_STALL_MODE_DISABLED = 0x8040"
  "AP130X_SYS_START_PLL_LOCK OR AP130X_SYS_START_STALL_EN OR
     AP130X_SYS_START_STALL_MODE_DISABLED = 0x8140"
  "AP130X_SYS_START_PLL_LOCK OR AP130X_SYS_START_STALL_STATUS OR AP130X_SYS_START_STALL_EN OR
     AP130X_SYS_START_STALL_MODE_DISABLED = 0x8340"
  "AP130X_ADV_IRQ_SYS_INTE_SIPM OR AP130X_ADV_IRQ_SYS_INTE_SIPS_FIFO_WRITE = 0xc8"
  by (simp_all add: AP130X_SYS_START_PLL_LOCK_def AP130X_SYS_START_STALL_MODE_DISABLED_def
        AP130X_SYS_START_STALL_EN_def AP130X_SYS_START_STALL_STATUS_def
        AP130X_ADV_IRQ_SYS_INTE_SIPM_def AP130X_ADV_IRQ_SYS_INTE_SIPS_FIFO_WRITE_def)

lemma stall_ok:
  assumes "all_ok env"
  shows "ap130x_stall env True d =
           (None,
            d\<lparr>reg_page := 0x230000,
              trace := trace d @ [Reg16Write 0x601a 0x8040, Reg16Write 0x601a 0x8140]
                       @ (if reg_page d \<noteq> 0x230000 then [page_select 0x230000] else [])
                       @ [Reg32Write 0xe000 0xc8]\<rparr>)"
    and "ap130x_stall env False d = (None, d\<lparr>trace := trace d @ [Reg16Write 0x601a 0x8340]\<rparr>)"
  by (simp_all add: ap130x_stall_def stall_consts write_ok_16 [OF assms reg_page0(4) reg16_size(4)]
        adv_irq_write_ok [OF assms] reg_addr)

lemma fw_bytes_append: "fw_bytes (xs @ ys) = fw_bytes xs @ fw_bytes ys"
  by (simp add: fw_bytes_def)

lemma fw_bytes_reg_ops: "list_all is_reg_op ops \<Longrightarrow> fw_bytes ops = []"
proof (induction ops)
  case Nil
  then show ?case by (simp add: fw_bytes_def)
next
  case (Cons op ops)
  then show ?case by (cases op) (simp_all add: fw_bytes_def)
qed

text \<open>
  The run of \<^verbatim>\<open>ap130x_load_firmware\<close> when every transfer succeeds, in terms of what its
  two window writes do.
\<close>

lemma load_firmware_ok:
  assumes ok: "all_ok env"
    and w1: "ap130x_write_fw_window env (drop 16 (fw d)) (pll_init_size (fw_header (fw d))) 0
               (d\<lparr>trace := trace d @ [Reg16Write 0xf052 0xffff]\<rparr>)
             = (None, p1, d\<lparr>trace := trace d @ [Reg16Write 0xf052 0xffff] @ ops1\<rparr>)"
    and w2: "ap130x_write_fw_window env
               (drop (unat (pll_init_size (fw_header (fw d)))) (drop 16 (fw d)))
               (of_nat (length (fw d)) - 16 - pll_init_size (fw_header (fw d))) p1
               (d\<lparr>trace := trace d @ [Reg16Write 0xf052 0xffff] @ ops1 @ [Reg16Write 0x6002 2]\<rparr>)
             = (None, p2, d\<lparr>trace := trace d @ [Reg16Write 0xf052 0xffff] @ ops1
                                      @ [Reg16Write 0x6002 2] @ ops2\<rparr>)"
  shows "ap130x_load_firmware env d =
           (None,
            d\<lparr>reg_page := 0x230000, streaming := False,
              trace := trace d @ [Reg16Write 0xf052 0xffff] @ ops1 @ [Reg16Write 0x6002 2] @ ops2
                       @ [Reg16Write 0x6002 0xffff, Reg16Write 0x601a 0x8040, Reg16Write 0x601a 0x8140]
                       @ (if reg_page d \<noteq> 0x230000 then [page_select 0x230000] else [])
                       @ [Reg32Write 0xe000 0xc8]\<rparr>)"
  using w1 w2
  by (simp add: ap130x_load_firmware_def Let_def
        write_ok_16 [OF ok reg_page0(6) reg16_size(6)]
        write_ok_16 [OF ok reg_page0(3) reg16_size(3)] reg_addr stall_ok [OF ok])

lemma all_ok_case:
  "all_ok env \<Longrightarrow> (case respond env h op of Inl e \<Rightarrow> f e | Inr v \<Rightarrow> g) = g"
proof -
  assume "all_ok env"
  then obtain v where "respond env h op = Inr v" unfolding all_ok_def by blast
  then show ?thesis by simp
qed

lemma window_run_100:
  assumes "all_ok env"
  shows "ap130x_write_fw_window env buf 100 0 d =
           (None, 100, d\<lparr>trace := trace d @ [RawWrite16 0x8000 100 (take 100 buf)]\<rparr>)"
  by (subst fw_window_unfold, simp add: all_ok_case [OF assms])
     (subst fw_window_unfold, simp)

lemma window_run_9900:
  assumes "all_ok env"
  shows "ap130x_write_fw_window env buf 9900 100 d =
           (None, 1808,
            d\<lparr>trace := trace d @ [RawWrite16 0x8064 8092 (take 8092 buf),
                                  RawWrite16 0x8000 1808 (take 1808 (drop 8092 buf))]\<rparr>)"
  by (subst fw_window_unfold, simp add: all_ok_case [OF assms])
     (subst fw_window_unfold, simp add: all_ok_case [OF assms],
      subst fw_window_unfold, simp)

lemma fw_size_unat:
  assumes "16 \<le> length blob" "length blob < 2 ^ 32"
  shows "unat (of_nat (length blob) - 16 :: 32 word) = length blob - 16"
proof -
  have u: "unat (of_nat (length blob) :: 32 word) = length blob"
    using assms(2) by (simp add: unat_of_nat)
  moreover have "(16 :: 32 word) \<le> of_nat (length blob)"
    using assms(1) by (simp add: word_le_nat_alt u)
  ultimately show ?thesis by (simp add: unat_sub)
qed

lemma load_firmware_streams:
  assumes ok: "all_ok env"
    and len: "16 \<le> length (fw d)" "length (fw d) < 2 ^ 32"
    and pll: "pll_init_size (fw_header (fw d)) \<le> of_nat (length (fw d)) - 16"
  shows "fst (ap130x_load_firmware env d) = None"
    and "fw_bytes (trace (snd (ap130x_load_firmware env d))) = fw_bytes (trace d) @ drop 16 (fw d)"
    and "unat (fst (snd (ap130x_write_fw_window env
                 (drop (unat (pll_init_size (fw_header (fw d)))) (drop 16 (fw d)))
                 (of_nat (length (fw d)) - 16 - pll_init_size (fw_header (fw d)))
                 (fst (snd (ap130x_write_fw_window env (drop 16 (fw d))
                         (pll_init_size (fw_header (fw d))) 0 x)))
                 y)))
         = (length (fw d) - 16) mod 8192"
proof -
  let ?pll = "pll_init_size (fw_header (fw d))"
  let ?data = "drop 16 (fw d)"
  let ?size = "of_nat (length (fw d)) - 16 :: 32 word"
  have sz: "unat ?size = length (fw d) - 16" by (rule fw_size_unat [OF len])
  have pl: "unat ?pll \<le> length ?data" using pll sz by (simp add: word_le_nat_alt)
  have rest: "unat (?size - ?pll) = length ?data - unat ?pll"
    using pll sz by (simp add: unat_sub)
  have zero: "(0 :: 32 word) < 0x2000" by simp
  have first: "fst (ap130x_write_fw_window env ?data ?pll 0 z) = None \<and>
        unat (fst (snd (ap130x_write_fw_window env ?data ?pll 0 z))) = (unat (0 :: 32 word) + unat ?pll) mod 8192 \<and>
        (\<exists>ops. snd (snd (ap130x_write_fw_window env ?data ?pll 0 z)) = z\<lparr>trace := trace z @ ops\<rparr> \<and>
               list_all is_raw_write ops \<and> fw_bytes ops = take (unat ?pll) ?data)" for z
    by (rule fw_window_stream [OF ok zero pl])
  have second: "fst (ap130x_write_fw_window env (drop (unat ?pll) ?data) (?size - ?pll) p z) = None \<and>
        unat (fst (snd (ap130x_write_fw_window env (drop (unat ?pll) ?data) (?size - ?pll) p z)))
          = (unat p + unat (?size - ?pll)) mod 8192 \<and>
        (\<exists>ops. snd (snd (ap130x_write_fw_window env (drop (unat ?pll) ?data) (?size - ?pll) p z))
                 = z\<lparr>trace := trace z @ ops\<rparr> \<and>
               list_all is_raw_write ops \<and>
               fw_bytes ops = take (unat (?size - ?pll)) (drop (unat ?pll) ?data))"
    if "p < 0x2000" for p z
    by (rule fw_window_stream [OF ok that]) (simp add: rest)
  have p1lt: "fst (snd (ap130x_write_fw_window env ?data ?pll 0 z)) < 0x2000" for z
    using fw_window_bounds [OF zero, of env ?data ?pll z] by blast
  let ?d1 = "d\<lparr>trace := trace d @ [Reg16Write 0xf052 0xffff]\<rparr>"
  obtain p1 where p1: "p1 = fst (snd (ap130x_write_fw_window env ?data ?pll 0 ?d1))" by blast
  from first [of ?d1] obtain ops1 where
    o1: "snd (snd (ap130x_write_fw_window env ?data ?pll 0 ?d1)) = ?d1\<lparr>trace := trace ?d1 @ ops1\<rparr>"
        "list_all is_raw_write ops1" "fw_bytes ops1 = take (unat ?pll) ?data"
    by blast
  have w1: "ap130x_write_fw_window env ?data ?pll 0 ?d1
              = (None, p1, d\<lparr>trace := trace d @ [Reg16Write 0xf052 0xffff] @ ops1\<rparr>)"
    using first [of ?d1] o1(1) p1 by (simp add: prod_eq_iff)
  let ?d3 = "d\<lparr>trace := trace d @ [Reg16Write 0xf052 0xffff] @ ops1 @ [Reg16Write 0x6002 2]\<rparr>"
  have p1': "p1 < 0x2000" using p1lt [of ?d1] p1 by simp
  obtain p2 where p2: "p2 = fst (snd (ap130x_write_fw_window env (drop (unat ?pll) ?data) (?size - ?pll) p1 ?d3))"
    by blast
  from second [OF p1', of ?d3] obtain ops2 where
    o2: "snd (snd (ap130x_write_fw_window env (drop (unat ?pll) ?data) (?size - ?pll) p1 ?d3))
           = ?d3\<lparr>trace := trace ?d3 @ ops2\<rparr>"
        "list_all is_raw_write ops2"
        "fw_bytes ops2 = take (unat (?size - ?pll)) (drop (unat ?pll) ?data)"
    by blast
  have w2: "ap130x_write_fw_window env (drop (unat ?pll) ?data) (?size - ?pll) p1 ?d3
              = (None, p2, d\<lparr>trace := trace d @ [Reg16Write 0xf052 0xffff] @ ops1
                                      @ [Reg16Write 0x6002 2] @ ops2\<rparr>)"
    using second [OF p1', of ?d3] o2(1) p2 by (simp add: prod_eq_iff)
  note run = load_firmware_ok [OF ok w1 w2]
  show "fst (ap130x_load_firmware env d) = None" by (simp add: run)
  have "fw_bytes ops2 = drop (unat ?pll) ?data"
    using o2(3) by (simp only: rest) simp
  then have "fw_bytes ops1 @ fw_bytes ops2 = ?data"
    by (simp only: o1(3) append_take_drop_id)
  then show "fw_bytes (trace (snd (ap130x_load_firmware env d))) = fw_bytes (trace d) @ drop 16 (fw d)"
    by (simp add: run fw_bytes_append) (simp add: fw_bytes_def page_select_def)
  have "unat (fst (snd (ap130x_write_fw_window env (drop (unat ?pll) ?data) (?size - ?pll)
                 (fst (snd (ap130x_write_fw_window env ?data ?pll 0 x))) y)))
        = (unat (fst (snd (ap130x_write_fw_window env ?data ?pll 0 x))) + unat (?size - ?pll)) mod 8192"
    using second [OF p1lt [of x], of y] by blast
  also have "\<dots> = (unat ?pll mod 8192 + (length ?data - unat ?pll)) mod 8192"
    using first [of x] by (simp add: rest)
  also have "\<dots> = (unat ?pll + (length ?data - unat ?pll)) mod 8192"
    by (simp only: mod_add_left_eq)
  also have "unat ?pll + (length ?data - unat ?pll) = length (fw d) - 16"
    using pl by simp
  finally show "unat (fst (snd (ap130x_write_fw_window env
                 (drop (unat ?pll) ?data) (?size - ?pll)
                 (fst (snd (ap130x_write_fw_window env ?data ?pll 0 x))) y)))
         = (length (fw d) - 16) mod 8192" .
qed

lemma load_firmware_scenario:
  assumes ok: "all_ok env"
    and len: "length (fw d) = 10016"
    and pll: "pll_init_size (fw_header (fw d)) = 100"
  shows "ap130x_load_firmware env d =
           (None,
            d\<lparr>reg_page := 0x230000, streaming := False,
              trace := trace d @ [Reg16Write 0xf052 0xffff]
                       @ [RawWrite16 0x8000 100 (take 100 (drop 16 (fw d)))]
                       @ [Reg16Write 0x6002 2]
                       @ [RawWrite16 0x8064 8092 (take 8092 (drop 116 (fw d))),
                          RawWrite16 0x8000 1808 (drop 8208 (fw d))]
                       @ [Reg16Write 0x6002 0xffff, Reg16Write 0x601a 0x8040, Reg16Write 0x601a 0x8140]
                       @ (if reg_page d \<noteq> 0x230000 then [page_select 0x230000] else [])
                       @ [Reg32Write 0xe000 0xc8]\<rparr>)"
proof -
  have rest: "(of_nat (length (fw d)) - 16 - pll_init_size (fw_header (fw d)) :: 32 word) = 9900"
    by (simp add: len pll)
  have last_run: "take 1808 (drop 8092 (drop 100 (drop 16 (fw d)))) = drop 8208 (fw d)"
    by (simp add: len)
  have w1: "ap130x_write_fw_window env (drop 16 (fw d)) (pll_init_size (fw_header (fw d))) 0
               (d\<lparr>trace := trace d @ [Reg16Write 0xf052 0xffff]\<rparr>)
             = (None, 100, d\<lparr>trace := trace d @ [Reg16Write 0xf052 0xffff]
                                    @ [RawWrite16 0x8000 100 (take 100 (drop 16 (fw d)))]\<rparr>)"
    by (simp add: pll window_run_100 [OF ok])
  have w2: "ap130x_write_fw_window env
               (drop (unat (pll_init_size (fw_header (fw d)))) (drop 16 (fw d)))
               (of_nat (length (fw d)) - 16 - pll_init_size (fw_header (fw d))) 100
               (d\<lparr>trace := trace d @ [Reg16Write 0xf052 0xffff]
                      @ [RawWrite16 0x8000 100 (take 100 (drop 16 (fw d)))] @ [Reg16Write 0x6002 2]\<rparr>)
             = (None, 1808, d\<lparr>trace := trace d @ [Reg16Write 0xf052 0xffff]
                      @ [RawWrite16 0x8000 100 (take 100 (drop 16 (fw d)))] @ [Reg16Write 0x6002 2]
                      @ [RawWrite16 0x8064 8092 (take 8092 (drop 116 (fw d))),
                         RawWrite16 0x8000 1808 (drop 8208 (fw d))]\<rparr>)"
    unfolding rest using last_run by (simp add: pll window_run_9900 [OF ok])
  show ?thesis by (rule load_firmware_ok [OF ok w1 w2])
qed

text \<open>
  Claim C1 (windowed firmware write). On a bus where every transfer succeeds:
  \<^item> a window write of \<open>len\<close> bytes of a buffer, from a cursor below the window size,
    returns 0, issues raw writes only, whose blocks concatenated are the first \<open>len\<close>
    bytes of the buffer, and leaves the cursor at \<open>(cursor + len) mod 8192\<close>, which from
    cursor 0 is \<open>len mod 8192\<close>;
  \<^item> loading a validated image (at least the 16-byte header, PLL size within the payload)
    returns 0 and streams exactly the payload; the cursor after the remainder, started
    from the cursor the PLL segment left, is the payload size modulo 8192;
  \<^item> for a payload of 10000 bytes with a PLL segment of 100, the PLL segment is one run of
    100 bytes at \<open>0x8000\<close> (cursor 100), the remainder a run of 8092 bytes at \<open>0x8064\<close>
    and a run of 1808 bytes at \<open>0x8000\<close> (cursor 1808), and these are the raw writes of
    the load, in this order.
\<close>

theorem windowed_firmware_write:
  "(all_ok env \<and> win_pos < AP130X_FW_WINDOW_SIZE \<and> unat len \<le> length buf \<longrightarrow>
      fst (ap130x_write_fw_window env buf len win_pos d) = None \<and>
      unat (fst (snd (ap130x_write_fw_window env buf len win_pos d)))
        = (unat win_pos + unat len) mod unat AP130X_FW_WINDOW_SIZE \<and>
      (\<exists>ops. snd (snd (ap130x_write_fw_window env buf len win_pos d)) = d\<lparr>trace := trace d @ ops\<rparr> \<and>
             list_all is_raw_write ops \<and> fw_bytes ops = take (unat len) buf))
   \<and> (all_ok env \<and> 16 \<le> length (fw d) \<and> length (fw d) < 2 ^ 32 \<and>
       pll_init_size (fw_header (fw d)) \<le> of_nat (length (fw d)) - 16 \<longrightarrow>
      fst (ap130x_load_firmware env d) = None \<and>
      fw_bytes (trace (snd (ap130x_load_firmware env d))) = fw_bytes (trace d) @ drop 16 (fw d) \<and>
      unat (fst (snd (ap130x_write_fw_window env
                 (drop (unat (pll_init_size (fw_header (fw d)))) (drop 16 (fw d)))
                 (of_nat (length (fw d)) - 16 - pll_init_size (fw_header (fw d)))
                 (fst (snd (ap130x_write_fw_window env (drop 16 (fw d))
                         (pll_init_size (fw_header (fw d))) 0 x)))
                 y)))
         = (length (fw d) - 16) mod unat AP130X_FW_WINDOW_SIZE)
   \<and> (all_ok env \<and> length (fw d) = 10016 \<and> pll_init_size (fw_header (fw d)) = 100 \<longrightarrow>
      ap130x_write_fw_window env (drop 16 (fw d)) 100 0 x =
        (None, 100, x\<lparr>trace := trace x @ [RawWrite16 0x8000 100 (take 100 (drop 16 (fw d)))]\<rparr>) \<and>
      ap130x_write_fw_window env (drop 116 (fw d)) 9900 100 y =
        (None, 1808, y\<lparr>trace := trace y @ [RawWrite16 0x8064 8092 (take 8092 (drop 116 (fw d))),
                                             RawWrite16 0x8000 1808 (drop 8208 (fw d))]\<rparr>) \<and>
      filter is_raw_write (drop (length (trace d)) (trace (snd (ap130x_load_firmware env d)))) =
        [RawWrite16 0x8000 100 (take 100 (drop 16 (fw d))),
         RawWrite16 0x8064 8092 (take 8092 (drop 116 (fw d))),
         RawWrite16 0x8000 1808 (drop 8208 (fw d))])"
proof (intro conjI impI)
  assume h: "all_ok env \<and> win_pos < AP130X_FW_WINDOW_SIZE \<and> unat len \<le> length buf"
  then have a: "all_ok env" and b: "win_pos < 0x2000" and c: "unat len \<le> length buf"
    by (simp_all add: AP130X_FW_WINDOW_SIZE_def)
  note s = fw_window_stream [OF a b c, of d]
  show "fst (ap130x_write_fw_window env buf len win_pos d) = None" using s by blast
  show "unat (fst (snd (ap130x_write_fw_window env buf len win_pos d)))
        = (unat win_pos + unat len) mod unat AP130X_FW_WINDOW_SIZE"
    using s by (simp add: AP130X_FW_WINDOW_SIZE_def)
  show "\<exists>ops. snd (snd (ap130x_write_fw_window env buf len win_pos d)) = d\<lparr>trace := trace d @ ops\<rparr> \<and>
             list_all is_raw_write ops \<and> fw_bytes ops = take (unat len) buf"
    using s by blast
next
  assume h: "all_ok env \<and> 16 \<le> length (fw d) \<and> length (fw d) < 2 ^ 32 \<and>
       pll_init_size (fw_header (fw d)) \<le> of_nat (length (fw d)) - 16"
  then have a: "all_ok env" and b: "16 \<le> length (fw d)" and c: "length (fw d) < 2 ^ 32"
    and e: "pll_init_size (fw_header (fw d)) \<le> of_nat (length (fw d)) - 16"
    by blast+
  show "fst (ap130x_load_firmware env d) = None"
    by (rule load_firmware_streams(1) [OF a b c e])
  show "fw_bytes (trace (snd (ap130x_load_firmware env d))) = fw_bytes (trace d) @ drop 16 (fw d)"
    by (rule load_firmware_streams(2) [OF a b c e])
  show "unat (fst (snd (ap130x_write_fw_window env
                 (drop (unat (pll_init_size (fw_header (fw d)))) (drop 16 (fw d)))
                 (of_nat (length (fw d)) - 16 - pll_init_size (fw_header (fw d)))
                 (fst (snd (ap130x_write_fw_window env (drop 16 (fw d))
                         (pll_init_size (fw_header (fw d))) 0 x)))
                 y)))
         = (length (fw d) - 16) mod unat AP130X_FW_WINDOW_SIZE"
    using load_firmware_streams(3) [OF a b c e, of x y] by (simp add: AP130X_FW_WINDOW_SIZE_def)
next
  assume h: "all_ok env \<and> length (fw d) = 10016 \<and> pll_init_size (fw_header (fw d)) = 100"
  then have a: "all_ok env" and b: "length (fw d) = 10016"
    and c: "pll_init_size (fw_header (fw d)) = 100"
    by blast+
  show "ap130x_write_fw_window env (drop 16 (fw d)) 100 0 x =
        (None, 100, x\<lparr>trace := trace x @ [RawWrite16 0x8000 100 (take 100 (drop 16 (fw d)))]\<rparr>)"
    by (rule window_run_100 [OF a])
  have "take 1808 (drop 8092 (drop 116 (fw d))) = drop 8208 (fw d)" by (simp add: b)
  then show "ap130x_write_fw_window env (drop 116 (fw d)) 9900 100 y =
        (None, 1808, y\<lparr>trace := trace y @ [RawWrite16 0x8064 8092 (take 8092 (drop 116 (fw d))),
                                             RawWrite16 0x8000 1808 (drop 8208 (fw d))]\<rparr>)"
    using window_run_9900 [OF a, of "drop 116 (fw d)" y] by simp
  show "filter is_raw_write (drop (length (trace d)) (trace (snd (ap130x_load_firmware env d)))) =
        [RawWrite16 0x8000 100 (take 100 (drop 16 (fw d))),
         RawWrite16 0x8064 8092 (take 8092 (drop 116 (fw d))),
         RawWrite16 0x8000 1808 (drop 8208 (fw d))]"
    by (simp add: load_firmware_scenario [OF a b c] page_select_def)
qed

lemma fw_example_facts:
  "length (fw dev_fw) = 10016" "pll_init_size (fw_header (fw dev_fw)) = 100"
  "drop 16 (fw dev_fw) = replicate 10000 0x5a" "all_ok env_ok" "trace dev_fw = []"
  by (simp_all add: dev_fw_def fw_example_def fw_header_def le32_def byte_at_def all_ok_def
        env_ok_def dev0_def)

theorem windowed_firmware_write_witness:
  "all_ok env_ok \<and> (0 :: 32 word) < AP130X_FW_WINDOW_SIZE \<and> length (fw dev_fw) = 10016
   \<and> unat (100 :: 32 word) \<le> length (drop 16 (fw dev_fw))
   \<and> pll_init_size (fw_header (fw dev_fw)) = 100
   \<and> pll_init_size (fw_header (fw dev_fw)) \<le> of_nat (length (fw dev_fw)) - 16
   \<and> fst (ap130x_load_firmware env_ok dev_fw) = None
   \<and> fw_bytes (trace (snd (ap130x_load_firmware env_ok dev_fw))) = replicate 10000 0x5a
   \<and> ap130x_write_fw_window env_ok (drop 16 (fw dev_fw)) 100 0 dev_fw =
        (None, 100, dev_fw\<lparr>trace := [RawWrite16 0x8000 100 (replicate 100 0x5a)]\<rparr>)
   \<and> filter is_raw_write (trace (snd (ap130x_load_firmware env_ok dev_fw))) =
        [RawWrite16 0x8000 100 (replicate 100 0x5a),
         RawWrite16 0x8064 8092 (replicate 8092 0x5a),
         RawWrite16 0x8000 1808 (replicate 1808 0x5a)]"
  using windowed_firmware_write [where env = env_ok and d = dev_fw and win_pos = 0 and len = 100
          and buf = "drop 16 (fw dev_fw)" and x = dev_fw and y = dev_fw]
  by (simp add: fw_example_facts AP130X_FW_WINDOW_SIZE_def fw_bytes_def)
     (simp add: dev_fw_def fw_example_def)

section \<open>Window bounds\<close>

lemma reg_op_in_window: "is_reg_op op \<Longrightarrow> raw_in_window op"
  by (cases op) simp_all

lemma step_window:
  assumes "evolves P d x" "\<And>op. is_raw_write op \<and> raw_in_window op \<Longrightarrow> P op" "p < 0x2000"
  shows "evolves P d (snd (snd (ap130x_write_fw_window env buf len p x)))"
proof -
  have "evolves (\<lambda>op. is_raw_write op \<and> raw_in_window op) x
          (snd (snd (ap130x_write_fw_window env buf len p x)))"
    using fw_window_bounds [OF assms(3)] by blast
  from evolves_trans [OF assms(1) evolves_mono [OF this assms(2)]] show ?thesis .
qed

lemma load_firmware_in_window:
  "evolves raw_in_window d (snd (ap130x_load_firmware env d))"
proof -
  have cur: "fst (snd (ap130x_write_fw_window env buf len 0 x)) < 0x2000" for buf len x
    using fw_window_bounds [of 0 env buf len x] by simp
  show ?thesis
    unfolding ap130x_load_firmware_def Let_def
    by (auto simp: case_prod_beta reg_op_in_window cur split: option.splits
             intro!: step_streaming step_stall step_write step_window evolves_refl)
qed

text \<open>
  Claim C9 (window write bounds). Whatever the bus answers, a call of the window writer
  with a cursor below the window size issues raw writes only, each starting in
  \<open>[0x8000, 0x8000 + 8192)\<close> and ending no later than \<open>0x8000 + 8192\<close>, and returns a
  cursor below the window size; so every raw write of a whole load attempt, which starts
  the PLL segment at cursor 0 and the remainder at the cursor the PLL segment left, lies
  in the window.
\<close>

theorem window_write_bounds:
  "(win_pos < AP130X_FW_WINDOW_SIZE \<and>
    ap130x_write_fw_window env buf len win_pos d = (r, p', d') \<longrightarrow>
      p' < AP130X_FW_WINDOW_SIZE \<and>
      (\<exists>ops. trace d' = trace d @ ops \<and>
             list_all (\<lambda>op. is_raw_write op \<and> raw_in_window op) ops))
   \<and> (ap130x_load_firmware env d = (r2, d2) \<longrightarrow>
      (\<exists>ops. trace d2 = trace d @ ops \<and> list_all raw_in_window ops))"
proof (intro conjI impI)
  assume h: "win_pos < AP130X_FW_WINDOW_SIZE \<and>
    ap130x_write_fw_window env buf len win_pos d = (r, p', d')"
  then have b: "win_pos < 0x2000" by (simp add: AP130X_FW_WINDOW_SIZE_def)
  from fw_window_bounds [OF b, of env buf len d] h
  show "p' < AP130X_FW_WINDOW_SIZE"
    and "\<exists>ops. trace d' = trace d @ ops \<and>
             list_all (\<lambda>op. is_raw_write op \<and> raw_in_window op) ops"
    by (simp_all add: AP130X_FW_WINDOW_SIZE_def evolves_trace)
next
  assume "ap130x_load_firmware env d = (r2, d2)"
  with load_firmware_in_window [of d env]
  show "\<exists>ops. trace d2 = trace d @ ops \<and> list_all raw_in_window ops"
    by (simp add: evolves_trace)
qed

theorem window_write_bounds_witness:
  "(100 :: 32 word) < AP130X_FW_WINDOW_SIZE
   \<and> ap130x_write_fw_window env_ok (replicate 9900 0x5a) 9900 100 dev0 =
       (None, 1808, dev0\<lparr>trace := [RawWrite16 0x8064 8092 (replicate 8092 0x5a),
                                     RawWrite16 0x8000 1808 (replicate 1808 0x5a)]\<rparr>)
   \<and> (1808 :: 32 word) < AP130X_FW_WINDOW_SIZE
   \<and> list_all (\<lambda>op. is_raw_write op \<and> raw_in_window op)
        [RawWrite16 0x8064 8092 (replicate 8092 0x5a), RawWrite16 0x8000 1808 (replicate 1808 0x5a)]
   \<and> list_all raw_in_window (trace (snd (ap130x_load_firmware env_ok dev_fw)))"
  using window_write_bounds [where env = env_ok and win_pos = 100 and len = 9900
          and buf = "replicate 9900 0x5a" and d = dev0 and r = None and p' = 1808
          and d' = "dev0\<lparr>trace := [RawWrite16 0x8064 8092 (replicate 8092 0x5a),
                                     RawWrite16 0x8000 1808 (replicate 1808 0x5a)]\<rparr>"
          and ?r2.0 = None and ?d2.0 = "snd (ap130x_load_firmware env_ok dev0)"]
        window_write_bounds [where env = env_ok and d = dev_fw and win_pos = 0 and len = 0
          and buf = "[]" and r = None and p' = 0 and d' = dev_fw
          and ?r2.0 = "fst (ap130x_load_firmware env_ok dev_fw)"
          and ?d2.0 = "snd (ap130x_load_firmware env_ok dev_fw)"]
  by (simp add: window_run_9900 [OF fw_example_facts(4)] fw_example_facts
        AP130X_FW_WINDOW_SIZE_def AP130X_FW_WINDOW_OFFSET_def)
     (simp add: dev0_def)

section \<open>Power handling\<close>

lemma power_ok_case:
  "power_ok env \<Longrightarrow> is_power_op op \<Longrightarrow>
   (case respond env h op of Inl e \<Rightarrow> f e | Inr v \<Rightarrow> g) = g"
proof -
  assume "power_ok env" "is_power_op op"
  then obtain v where "respond env h op = Inr v" unfolding power_ok_def by blast
  then show ?thesis by simp
qed

lemma power_ok_ret: "power_ok env \<Longrightarrow> is_power_op op \<Longrightarrow> to_ret (respond env h op) = None"
  unfolding to_ret_def by (rule power_ok_case)

lemma isp_supplies_on_ok:
  "power_ok env \<Longrightarrow> i \<le> 3 \<Longrightarrow>
   isp_supplies_on env i d =
     (None, d\<lparr>trace := trace d @ map (\<lambda>k. RegulatorEnable (IspSupply k)) [i..<3]\<rparr>)"
proof (induction env i d rule: isp_supplies_on.induct)
  case (1 env i d)
  show ?case
  proof (cases "i < 3")
    case False
    with "1.prems" have "i = 3" by simp
    then show ?thesis
      by (subst isp_supplies_on.simps) (simp add: AP130X_NUM_SUPPLIES_def)
  next
    case True
    let ?d1 = "d\<lparr>trace := trace d @ [RegulatorEnable (IspSupply i)]\<rparr>"
    obtain v where v: "respond env (trace d) (RegulatorEnable (IspSupply i)) = Inr v"
      using "1.prems"(1) unfolding power_ok_def by fastforce
    have b: "(Inr v, ?d1) = bus env (RegulatorEnable (IspSupply i)) d"
      by (simp add: bus_def v)
    have lt: "i < AP130X_NUM_SUPPLIES" using True by (simp add: AP130X_NUM_SUPPLIES_def)
    have IH: "isp_supplies_on env (Suc i) ?d1 =
                (None, ?d1\<lparr>trace := trace ?d1 @ map (\<lambda>k. RegulatorEnable (IspSupply k)) [Suc i..<3]\<rparr>)"
      using "1.IH" [OF lt b refl] "1.prems"(1) True by simp
    have "isp_supplies_on env i d = isp_supplies_on env (Suc i) ?d1"
      using lt v by (subst isp_supplies_on.simps) (simp add: bus_def)
    then show ?thesis using IH True by (simp add: upt_conv_Cons)
  qed
qed

lemma power_on_ok:
  assumes "power_ok env"
  shows "ap130x_power_on env d = (None, d\<lparr>trace := trace d @ isp_on_ops (standby_gpio d)\<rparr>)"
  by (simp add: ap130x_power_on_def Let_def emit_def bus_def isp_supplies_on_ok [OF assms]
        power_ok_case [OF assms] isp_on_ops_def)

lemma power_off_trace:
  "ap130x_power_off d = d\<lparr>trace := trace d @ isp_off_ops (standby_gpio d)\<rparr>"
  by (simp add: ap130x_power_off_def Let_def emit_def isp_off_ops_def AP130X_NUM_SUPPLIES_def)



lemma appends_evolves: "appends P d d' \<Longrightarrow> evolves P d d'"
proof -
  assume "appends P d d'"
  then obtain ops where "d' = d\<lparr>trace := trace d @ ops\<rparr>" "list_all P ops"
    unfolding appends_def by blast
  then show ?thesis by (simp add: evolves_ops)
qed







lemma sensor_supplies_on_ok:
  "power_ok env \<Longrightarrow> j \<le> n \<Longrightarrow>
   sensor_supplies_on env i n j d =
     (None, d\<lparr>trace := trace d @ map RegulatorEnable (map (SensorSupply i) [j..<n])\<rparr>)"
proof (induction env i n j d rule: sensor_supplies_on.induct)
  case (1 env i n j d)
  show ?case
  proof (cases "j < n")
    case False
    with "1.prems" have "j = n" by simp
    then show ?thesis by (subst sensor_supplies_on.simps) simp
  next
    case True
    let ?op = "RegulatorEnable (SensorSupply i j)"
    let ?d1 = "d\<lparr>trace := trace d @ [?op]\<rparr>"
    obtain v where v: "respond env (trace d) ?op = Inr v"
      using "1.prems"(1) unfolding power_ok_def by fastforce
    have b: "(Inr v, ?d1) = bus env ?op d" by (simp add: bus_def v)
    have IH: "sensor_supplies_on env i n (Suc j) ?d1 =
                (None, ?d1\<lparr>trace := trace ?d1 @ map RegulatorEnable (map (SensorSupply i) [Suc j..<n])\<rparr>)"
      using "1.IH" [OF True b refl] "1.prems"(1) True by simp
    have "sensor_supplies_on env i n j d = sensor_supplies_on env i n (Suc j) ?d1"
      using True v by (subst sensor_supplies_on.simps) (simp add: bus_def)
    then show ?thesis using IH True by (simp add: upt_conv_Cons)
  qed
qed

lemma sensor_at_trace [simp]: "sensor_at (d\<lparr>trace := t\<rparr>) i = sensor_at d i"
  by (simp add: sensor_at_def)

lemma sensor_rails_trace [simp]: "sensor_rails (d\<lparr>trace := t\<rparr>) i = sensor_rails d i"
  by (simp add: sensor_rails_def)

lemma power_on_sensors_ok:
  assumes "power_ok env"
  shows "ap130x_power_on_sensors env d =
           (None, d\<lparr>trace := trace d @
              (if sensor_supplies d
               then map RegulatorEnable (sensor_rails d 0) @ map RegulatorEnable (sensor_rails d (Suc 0))
               else [])\<rparr>)"
proof (cases "sensor_supplies d")
  case False
  then show ?thesis by (simp add: ap130x_power_on_sensors_def)
next
  case True
  have s: "sensor_supplies_on env i (num_supplies (sensor_at x i)) 0 x =
             (None, x\<lparr>trace := trace x @ map RegulatorEnable (sensor_rails x i)\<rparr>)" for i x
    using sensor_supplies_on_ok [OF assms, of 0 "num_supplies (sensor_at x i)" i x]
    by (simp add: sensor_rails_def)
  have l2: "power_on_sensors_loop env (Suc (Suc 0)) x = (None, x)" for x
    by (subst power_on_sensors_loop.simps) simp
  have l1: "power_on_sensors_loop env (Suc 0) x =
              (None, x\<lparr>trace := trace x @ map RegulatorEnable (sensor_rails x (Suc 0))\<rparr>)" for x
    by (subst power_on_sensors_loop.simps) (simp add: s l2)
  have l0: "power_on_sensors_loop env 0 d =
              (None, d\<lparr>trace := trace d @ map RegulatorEnable (sensor_rails d 0)
                                @ map RegulatorEnable (sensor_rails d (Suc 0))\<rparr>)"
    by (subst power_on_sensors_loop.simps) (simp add: s l1)
  show ?thesis using True by (simp add: ap130x_power_on_sensors_def l0)
qed

lemma power_off_sensors_trace:
  "ap130x_power_off_sensors d =
     d\<lparr>trace := trace d @
        (if sensor_supplies d
         then [RegulatorBulkDisable (sensor_rails d 0), RegulatorBulkDisable (sensor_rails d (Suc 0))]
         else [])\<rparr>"
proof -
  have "[0..<2] = [0, Suc 0]" by (simp add: upt_rec)
  then show ?thesis by (simp add: ap130x_power_off_sensors_def emit_def)
qed







lemma power_cycles_append: "power_cycles (a @ b) = power_cycles a + power_cycles b"
  by (simp add: power_cycles_def)

lemma power_cycles_on: "power_cycles (isp_on_ops s) = 1"
  by (simp add: power_cycles_def isp_on_ops_def)

lemma power_cycles_off: "power_cycles (isp_off_ops s) = 0"
  by (simp add: power_cycles_def isp_off_ops_def)

lemma power_cycles_enable: "power_cycles (map RegulatorEnable rs) = 0"
  by (simp add: power_cycles_def filter_empty_conv)

lemma power_cycles_error_power:
  "power_cycles (trace (error_power d)) = power_cycles (trace d)"
  by (simp add: error_power_def error_power_sensors_def error_firmware_def emit_def
        power_off_sensors_trace power_off_trace power_cycles_append power_cycles_off)
     (simp add: power_cycles_def)

section \<open>Chip detection\<close>

lemma step_detect:
  assumes "evolves P d x" "\<And>op. is_reg_op op \<Longrightarrow> P op"
  shows "evolves P d (snd (ap130x_detect_chip env x))"
  unfolding ap130x_detect_chip_def
  by (auto simp: case_prod_beta assms split: sum.splits intro!: step_read)

lemma step_load:
  assumes "evolves P d x" "\<And>op. is_reg_op op \<Longrightarrow> P op" "\<And>op. is_raw_write op \<Longrightarrow> P op"
  shows "evolves P d (snd (ap130x_load_firmware env x))"
proof -
  have cur: "fst (snd (ap130x_write_fw_window env buf len 0 y)) < 0x2000" for buf len y
    using fw_window_bounds [of 0 env buf len y] by simp
  show ?thesis
    unfolding ap130x_load_firmware_def Let_def
    by (auto simp: case_prod_beta assms cur split: option.splits
             intro!: step_streaming step_stall step_write step_window)
qed

lemma detect_chip_run:
  "ap130x_detect_chip env d =
     (case respond env (trace d) (Reg16Read 0) of
        Inl e \<Rightarrow> (Some e, d\<lparr>trace := trace d @ [Reg16Read 0]\<rparr>)
      | Inr version \<Rightarrow>
        (case respond env (trace d @ [Reg16Read 0]) (Reg16Read 0x50) of
           Inl e \<Rightarrow> (Some e, d\<lparr>trace := trace d @ [Reg16Read 0, Reg16Read 0x50]\<rparr>)
         | Inr revision \<Rightarrow>
             (if version \<noteq> 0x265 then Some EINVAL else None,
              d\<lparr>trace := trace d @ [Reg16Read 0, Reg16Read 0x50]\<rparr>)))"
  by (simp add: ap130x_detect_chip_def read_plain_16 reg_page0 reg16_size reg_addr
        AP130X_CHIP_ID_def split: sum.splits)

lemma request_firmware_ok:
  assumes "fst (ap130x_request_firmware env d) = None"
  shows "\<exists>blob. snd (ap130x_request_firmware env d)
                   = d\<lparr>fw := blob, trace := trace d @ [RequestFirmware (fw_name d)]\<rparr> \<and>
           16 \<le> length blob \<and>
           pll_init_size (fw_header blob) \<le> of_nat (length blob) - 16"
proof (cases "firmware_file env (fw_name d)")
  case (Inl e)
  with assms show ?thesis
    by (simp add: ap130x_request_firmware_def Let_def split: if_splits)
next
  case (Inr blob)
  with assms have "snd (ap130x_request_firmware env d)
                   = d\<lparr>fw := blob, trace := trace d @ [RequestFirmware (fw_name d)]\<rparr> \<and>
           16 \<le> length blob \<and>
           pll_init_size (fw_header blob) \<le> of_nat (length blob) - 16"
    by (simp add: ap130x_request_firmware_def Let_def emit_def not_less split: if_splits)
  then show ?thesis by blast
qed

lemma hw_init_loop_detect_fails:
  assumes "k < MAX_FW_LOAD_RETRIES" "ap130x_power_on env x = (None, x1)"
    and "ap130x_detect_chip env x1 = (Some e, x2)"
  shows "hw_init_loop env k x = (GotoErrorPower e, x2)"
  using assms by (subst hw_init_loop.simps) simp

lemma hw_init_loop_again:
  assumes "k < MAX_FW_LOAD_RETRIES" "ap130x_power_on env x = (None, x1)"
    and "ap130x_detect_chip env x1 = (None, x2)"
    and "ap130x_load_firmware env x2 = (Some EAGAIN, x3)"
  shows "hw_init_loop env k x = hw_init_loop env (Suc k) (ap130x_power_off x3)"
  using assms by (subst hw_init_loop.simps) simp

lemma attempt_start_Suc:
  assumes "attempt_start env (Suc k) d = Some x"
  shows "\<exists>y x1 x2 x3. attempt_start env k d = Some y \<and> k < MAX_FW_LOAD_RETRIES \<and>
           ap130x_power_on env y = (None, x1) \<and> ap130x_detect_chip env x1 = (None, x2) \<and>
           ap130x_load_firmware env x2 = (Some EAGAIN, x3) \<and> x = ap130x_power_off x3"
proof -
  from assms obtain y where y: "attempt_start env k d = Some y"
    by (cases "attempt_start env k d") simp_all
  from assms y have k: "k < MAX_FW_LOAD_RETRIES" by (simp split: if_splits)
  obtain r1 x1 where p: "ap130x_power_on env y = (r1, x1)" by fastforce
  obtain r2 x2 where c: "ap130x_detect_chip env x1 = (r2, x2)" by fastforce
  obtain r3 x3 where l: "ap130x_load_firmware env x2 = (r3, x3)" by fastforce
  from assms y k p have r1: "r1 = None" by (cases r1) simp_all
  from assms y k p r1 c have r2: "r2 = None" by (cases r2) simp_all
  from assms y k p r1 c r2 l have r3: "r3 = Some EAGAIN \<and> x = ap130x_power_off x3"
    by (cases r3) (simp_all split: if_splits)
  from y k p c l r1 r2 r3 show ?thesis by blast
qed

lemma attempt_start_loop:
  "attempt_start env k d = Some x \<Longrightarrow> hw_init_loop env 0 d = hw_init_loop env k x"
proof (induction k arbitrary: x)
  case 0
  then show ?case by simp
next
  case (Suc k)
  from attempt_start_Suc [OF Suc.prems] obtain y x1 x2 x3 where
    y: "attempt_start env k d = Some y" and k: "k < MAX_FW_LOAD_RETRIES"
    and p: "ap130x_power_on env y = (None, x1)" and c: "ap130x_detect_chip env x1 = (None, x2)"
    and l: "ap130x_load_firmware env x2 = (Some EAGAIN, x3)" and x: "x = ap130x_power_off x3"
    by blast
  have "hw_init_loop env 0 d = hw_init_loop env k y" by (rule Suc.IH [OF y])
  also have "\<dots> = hw_init_loop env (Suc k) x"
    unfolding x by (rule hw_init_loop_again [OF k p c l])
  finally show ?case .
qed

text \<open>
  Claim C10 (the diagnostic revision read is load-bearing). Chip detection reads the
  version register, then the revision register, and only then compares the version: when
  the version read succeeds (with any value, the expected one included) and the revision
  read fails, detection returns the revision read's error; a detection that succeeds has
  made both reads, in that order. And the boot is aborted by it: take a boot on device
  \<open>b\<close> whose firmware request and sensor power-on succeeded, and any pass \<open>k\<close> of its retry
  loop, started on device \<open>x\<close> and with the chip powered on as \<open>x1\<close>. If the version read of
  that pass succeeds, with any value, and its revision read fails with \<open>e\<close>, then
  \<^verbatim>\<open>ap130x_hw_init\<close> returns \<open>e\<close>, and the device it leaves is the one of the failed
  revision read unwound through \<^verbatim>\<open>error_power\<close>: there is no further pass.
\<close>

theorem revision_read_load_bearing:
  "(respond env (trace d) (Reg16Read 0) = Inr version \<and>
    respond env (trace d @ [Reg16Read 0]) (Reg16Read 0x50) = Inl e \<longrightarrow>
      ap130x_detect_chip env d = (Some e, d\<lparr>trace := trace d @ [Reg16Read 0, Reg16Read 0x50]\<rparr>))
   \<and> (ap130x_detect_chip env d = (None, d') \<longrightarrow>
        d' = d\<lparr>trace := trace d @ [Reg16Read 0, Reg16Read 0x50]\<rparr> \<and>
        respond env (trace d) (Reg16Read 0) = Inr AP130X_CHIP_ID)
   \<and> (fst (ap130x_request_firmware env b) = None \<and>
       fst (ap130x_power_on_sensors env (snd (ap130x_request_firmware env b))) = None \<and>
       attempt_start env k (snd (ap130x_power_on_sensors env (snd (ap130x_request_firmware env b))))
         = Some x \<and>
       k < MAX_FW_LOAD_RETRIES \<and>
       ap130x_power_on env x = (None, x1) \<and>
       respond env (trace x1) (Reg16Read 0) = Inr version \<and>
       respond env (trace x1 @ [Reg16Read 0]) (Reg16Read 0x50) = Inl e \<longrightarrow>
        ap130x_hw_init env b =
          (Some e, error_power (x1\<lparr>trace := trace x1 @ [Reg16Read 0, Reg16Read 0x50]\<rparr>)))"
proof (intro conjI impI)
  assume "respond env (trace d) (Reg16Read 0) = Inr version \<and>
    respond env (trace d @ [Reg16Read 0]) (Reg16Read 0x50) = Inl e"
  then show "ap130x_detect_chip env d = (Some e, d\<lparr>trace := trace d @ [Reg16Read 0, Reg16Read 0x50]\<rparr>)"
    by (simp add: detect_chip_run)
next
  assume a: "ap130x_detect_chip env d = (None, d')"
  then show "d' = d\<lparr>trace := trace d @ [Reg16Read 0, Reg16Read 0x50]\<rparr>"
    by (auto simp: detect_chip_run split: sum.splits if_splits)
  from a show "respond env (trace d) (Reg16Read 0) = Inr AP130X_CHIP_ID"
    by (auto simp: detect_chip_run AP130X_CHIP_ID_def split: sum.splits if_splits)
next
  define d1 where "d1 = snd (ap130x_request_firmware env b)"
  define d2 where "d2 = snd (ap130x_power_on_sensors env d1)"
  let ?x2 = "x1\<lparr>trace := trace x1 @ [Reg16Read 0, Reg16Read 0x50]\<rparr>"
  assume h: "fst (ap130x_request_firmware env b) = None \<and>
       fst (ap130x_power_on_sensors env (snd (ap130x_request_firmware env b))) = None \<and>
       attempt_start env k (snd (ap130x_power_on_sensors env (snd (ap130x_request_firmware env b))))
         = Some x \<and>
       k < MAX_FW_LOAD_RETRIES \<and>
       ap130x_power_on env x = (None, x1) \<and>
       respond env (trace x1) (Reg16Read 0) = Inr version \<and>
       respond env (trace x1 @ [Reg16Read 0]) (Reg16Read 0x50) = Inl e"
  then have rq: "ap130x_request_firmware env b = (None, d1)"
    and sn: "ap130x_power_on_sensors env d1 = (None, d2)"
    and at: "attempt_start env k d2 = Some x"
    and k: "k < MAX_FW_LOAD_RETRIES"
    and p: "ap130x_power_on env x = (None, x1)"
    and ver: "respond env (trace x1) (Reg16Read 0) = Inr version"
    and rev: "respond env (trace x1 @ [Reg16Read 0]) (Reg16Read 0x50) = Inl e"
    unfolding d1_def d2_def by (simp_all add: prod_eq_iff)
  have det: "ap130x_detect_chip env x1 = (Some e, ?x2)"
    by (simp add: detect_chip_run ver rev)
  have "hw_init_loop env 0 d2 = hw_init_loop env k x"
    by (rule attempt_start_loop [OF at])
  also have "\<dots> = (GotoErrorPower e, ?x2)"
    by (rule hw_init_loop_detect_fails [OF k p det])
  finally have loop: "hw_init_loop env 0 d2 = (GotoErrorPower e, ?x2)" .
  show "ap130x_hw_init env b = (Some e, error_power ?x2)"
    unfolding ap130x_hw_init_def by (simp add: rq sn loop)
qed

lemma request_example:
  assumes "firmware_file env (fw_name dev0) = Inr fw_example"
  shows "ap130x_request_firmware env dev0 =
           (None, dev0\<lparr>fw := fw_example, trace := [RequestFirmware (fw_name dev0)]\<rparr>)"
proof -
  have n: "length (fw_name dev0) < 64"
    by (simp add: fw_name_def dev0_def suffixes_def)
  have l: "length fw_example = 10016" by (simp add: fw_example_def)
  have p: "pll_init_size (fw_header fw_example) = 100"
    by (simp add: fw_example_def fw_header_def le32_def byte_at_def)
  have t: "trace dev0 = []" by (simp add: dev0_def)
  show ?thesis
    using n by (simp add: ap130x_request_firmware_def Let_def assms l p emit_def t)
qed

lemma env_rev_once_facts:
  "power_ok env_rev_once"
  "respond env_rev_once h (Reg16Read 0) = Inr 0x265"
  "Reg16Read 0x50 \<notin> set h \<Longrightarrow> respond env_rev_once h (Reg16Read 0x50) = Inl EIO"
  "firmware_file env_rev_once n = Inr fw_example"
proof -
  show "power_ok env_rev_once"
    unfolding power_ok_def
  proof (intro allI impI)
    fix h :: "bus_op list" and op
    assume "is_power_op op"
    then show "\<exists>v. respond env_rev_once h op = Inr v"
      by (cases op) (simp_all add: env_rev_once_def)
  qed
qed (simp_all add: env_rev_once_def)


lemma env_rev_second_facts:
  "power_ok env_rev_second"
  "respond env_rev_second h (Reg16Read 0) = Inr 0x265"
  "Reg16Read 0x50 \<notin> set h \<Longrightarrow> respond env_rev_second h (Reg16Read 0x50) = Inr 0x265"
  "Reg16Read 0x50 \<in> set h \<Longrightarrow> respond env_rev_second h (Reg16Read 0x50) = Inl EIO"
  "Reg16Write 0xf052 0xffff \<notin> set h \<Longrightarrow>
     respond env_rev_second h (Reg16Write 0xf052 0xffff) = Inl EAGAIN"
  "firmware_file env_rev_second n = Inr fw_example"
proof -
  show "power_ok env_rev_second"
    unfolding power_ok_def
  proof (intro allI impI)
    fix h :: "bus_op list" and op
    assume "is_power_op op"
    then show "\<exists>v. respond env_rev_second h op = Inr v"
      by (cases op) (simp_all add: env_rev_second_def)
  qed
qed (simp_all add: env_rev_second_def)

lemma boot_entry:
  assumes ok: "power_ok env" and f: "firmware_file env (fw_name dev0) = Inr fw_example"
  shows "ap130x_request_firmware env dev0 =
           (None, dev0\<lparr>fw := fw_example, trace := [RequestFirmware (fw_name dev0)]\<rparr>)"
    and "ap130x_power_on_sensors env
           (dev0\<lparr>fw := fw_example, trace := [RequestFirmware (fw_name dev0)]\<rparr>) =
           (None, dev0\<lparr>fw := fw_example,
                       trace := RequestFirmware (fw_name dev0)
                                # map RegulatorEnable (map (SensorSupply 0) [0..<3])\<rparr>)"
    and "ap130x_power_on env
           (dev0\<lparr>fw := fw_example,
                 trace := RequestFirmware (fw_name dev0)
                          # map RegulatorEnable (map (SensorSupply 0) [0..<3])\<rparr>) =
           (None, dev0\<lparr>fw := fw_example,
                       trace := RequestFirmware (fw_name dev0)
                                # map RegulatorEnable (map (SensorSupply 0) [0..<3])
                                @ isp_on_ops True\<rparr>)"
proof -
  show "ap130x_request_firmware env dev0 =
           (None, dev0\<lparr>fw := fw_example, trace := [RequestFirmware (fw_name dev0)]\<rparr>)"
    by (rule request_example [OF f])
  have s: "sensor_supplies dev0" "num_supplies (sensor0 dev0) = 3"
          "num_supplies (sensor1 dev0) = 0" "standby_gpio dev0"
    by (simp_all add: dev0_def)
  show "ap130x_power_on_sensors env
           (dev0\<lparr>fw := fw_example, trace := [RequestFirmware (fw_name dev0)]\<rparr>) =
           (None, dev0\<lparr>fw := fw_example,
                       trace := RequestFirmware (fw_name dev0)
                                # map RegulatorEnable (map (SensorSupply 0) [0..<3])\<rparr>)"
    by (simp add: power_on_sensors_ok [OF ok] sensor_rails_def sensor_at_def s)
  show "ap130x_power_on env
           (dev0\<lparr>fw := fw_example,
                 trace := RequestFirmware (fw_name dev0)
                          # map RegulatorEnable (map (SensorSupply 0) [0..<3])\<rparr>) =
           (None, dev0\<lparr>fw := fw_example,
                       trace := RequestFirmware (fw_name dev0)
                                # map RegulatorEnable (map (SensorSupply 0) [0..<3])
                                @ isp_on_ops True\<rparr>)"
    by (simp add: power_on_ok [OF ok] s)
qed

lemma attempt_start_next:
  assumes "attempt_start env k d = Some y" "k < MAX_FW_LOAD_RETRIES"
    and "ap130x_power_on env y = (None, x1)" "ap130x_detect_chip env x1 = (None, x2)"
    and "ap130x_load_firmware env x2 = (Some EAGAIN, x3)"
  shows "attempt_start env (Suc k) d = Some (ap130x_power_off x3)"
  using assms by simp

lemma rev_second_retry:
  "attempt_start env_rev_second (Suc 0)
     (dev0\<lparr>fw := fw_example,
           trace := RequestFirmware (fw_name dev0)
                    # map RegulatorEnable (map (SensorSupply 0) [0..<3])\<rparr>) =
   Some (dev0\<lparr>fw := fw_example,
               trace := RequestFirmware (fw_name dev0)
                        # map RegulatorEnable (map (SensorSupply 0) [0..<3])
                        @ isp_on_ops True @ [Reg16Read 0, Reg16Read 0x50]
                        @ [Reg16Write 0xf052 0xffff] @ isp_off_ops True\<rparr>)"
proof -
  let ?n = "RequestFirmware (fw_name dev0)"
  let ?s = "map RegulatorEnable (map (SensorSupply 0) [0..<3])"
  let ?d2 = "dev0\<lparr>fw := fw_example, trace := ?n # ?s\<rparr>"
  let ?x1 = "dev0\<lparr>fw := fw_example, trace := ?n # ?s @ isp_on_ops True\<rparr>"
  let ?y2 = "dev0\<lparr>fw := fw_example,
                    trace := ?n # ?s @ isp_on_ops True @ [Reg16Read 0, Reg16Read 0x50]\<rparr>"
  let ?y3 = "dev0\<lparr>fw := fw_example,
                    trace := ?n # ?s @ isp_on_ops True @ [Reg16Read 0, Reg16Read 0x50]
                             @ [Reg16Write 0xf052 0xffff]\<rparr>"
  let ?z = "dev0\<lparr>fw := fw_example,
                   trace := ?n # ?s @ isp_on_ops True @ [Reg16Read 0, Reg16Read 0x50]
                            @ [Reg16Write 0xf052 0xffff] @ isp_off_ops True\<rparr>"
  note g = env_rev_second_facts
  have sb: "standby_gpio dev0" by (simp add: dev0_def)
  have k0: "0 < MAX_FW_LOAD_RETRIES" by (simp add: MAX_FW_LOAD_RETRIES_def)
  have p0: "ap130x_power_on env_rev_second ?d2 = (None, ?x1)"
    by (rule boot_entry(3) [OF g(1) g(6)])
  have no: "Reg16Read 0x50 \<notin> set (trace ?x1 @ [Reg16Read 0])"
    by (auto simp: isp_on_ops_def)
  have c0: "ap130x_detect_chip env_rev_second ?x1 = (None, ?y2)"
    using g(3) [OF no] by (simp add: detect_chip_run g(2))
  have nw: "Reg16Write 0xf052 0xffff \<notin> set (trace ?y2)"
    by (auto simp: isp_on_ops_def)
  have l0: "ap130x_load_firmware env_rev_second ?y2 = (Some EAGAIN, ?y3)"
    using g(5) [OF nw]
    by (simp add: ap130x_load_firmware_def Let_def write_plain_16 reg_page0 reg16_size
          reg_addr to_ret_def)
  have po: "ap130x_power_off ?y3 = ?z"
    by (simp add: power_off_trace sb)
  show ?thesis
    unfolding po [symmetric]
    by (rule attempt_start_next [OF attempt_start.simps(1) k0 p0 c0 l0])
qed

theorem revision_read_load_bearing_witness:
  "ap130x_detect_chip env_rev_once dev0 =
     (Some EIO, dev0\<lparr>trace := [Reg16Read 0, Reg16Read 0x50]\<rparr>)
   \<and> fst (ap130x_hw_init env_rev_once dev0) = Some EIO
   \<and> power_cycles (trace (snd (ap130x_hw_init env_rev_once dev0))) = 1
   \<and> fst (ap130x_hw_init env_rev_second dev0) = Some EIO
   \<and> power_cycles (trace (snd (ap130x_hw_init env_rev_second dev0))) = 2"
proof -
  let ?n = "RequestFirmware (fw_name dev0)"
  let ?s = "map RegulatorEnable (map (SensorSupply 0) [0..<3])"
  let ?d1 = "dev0\<lparr>fw := fw_example, trace := [?n]\<rparr>"
  let ?d2 = "dev0\<lparr>fw := fw_example, trace := ?n # ?s\<rparr>"
  let ?x1 = "dev0\<lparr>fw := fw_example, trace := ?n # ?s @ isp_on_ops True\<rparr>"
  note f = env_rev_once_facts
  have tr: "trace dev0 = []" and sb: "standby_gpio dev0" by (simp_all add: dev0_def)
  have k0: "0 < MAX_FW_LOAD_RETRIES" and k1: "Suc 0 < MAX_FW_LOAD_RETRIES"
    by (simp_all add: MAX_FW_LOAD_RETRIES_def)
  have a: "ap130x_detect_chip env_rev_once dev0 =
             (Some EIO, dev0\<lparr>trace := [Reg16Read 0, Reg16Read 0x50]\<rparr>)"
    using revision_read_load_bearing [where env = env_rev_once and d = dev0 and e = EIO
             and version = "0x265", THEN conjunct1]
    by (simp add: f tr)
  have rq: "ap130x_request_firmware env_rev_once dev0 = (None, ?d1)"
    and sn: "ap130x_power_on_sensors env_rev_once ?d1 = (None, ?d2)"
    and p: "ap130x_power_on env_rev_once ?d2 = (None, ?x1)"
    by (rule boot_entry [OF f(1) f(4)])+
  have no: "Reg16Read 0x50 \<notin> set (trace ?x1 @ [Reg16Read 0])"
    by (auto simp: isp_on_ops_def)
  have h1: "fst (ap130x_request_firmware env_rev_once dev0) = None"
    by (simp add: rq)
  have h2: "fst (ap130x_power_on_sensors env_rev_once
                  (snd (ap130x_request_firmware env_rev_once dev0))) = None"
    by (simp add: rq sn)
  have h3: "attempt_start env_rev_once 0
              (snd (ap130x_power_on_sensors env_rev_once
                     (snd (ap130x_request_firmware env_rev_once dev0)))) = Some ?d2"
    by (simp add: rq sn)
  have b: "ap130x_hw_init env_rev_once dev0 =
             (Some EIO, error_power (?x1\<lparr>trace := trace ?x1 @ [Reg16Read 0, Reg16Read 0x50]\<rparr>))"
    by (rule revision_read_load_bearing [where env = env_rev_once and b = dev0 and k = 0
             and x = ?d2 and ?x1.0 = ?x1 and version = "0x265" and e = EIO,
             THEN conjunct2, THEN conjunct2, THEN mp])
       (intro conjI h1 h2 h3 k0 p f(2) f(3) [OF no])
  have c: "power_cycles (trace (snd (ap130x_hw_init env_rev_once dev0))) = 1"
    unfolding b
    by (simp add: power_cycles_error_power)
       (simp add: power_cycles_def isp_on_ops_def filter_empty_conv)
  note g = env_rev_second_facts
  let ?z = "dev0\<lparr>fw := fw_example,
                   trace := ?n # ?s @ isp_on_ops True @ [Reg16Read 0, Reg16Read 0x50]
                            @ [Reg16Write 0xf052 0xffff] @ isp_off_ops True\<rparr>"
  let ?z1 = "dev0\<lparr>fw := fw_example,
                    trace := ?n # ?s @ isp_on_ops True @ [Reg16Read 0, Reg16Read 0x50]
                             @ [Reg16Write 0xf052 0xffff] @ isp_off_ops True
                             @ isp_on_ops True\<rparr>"
  have rq': "ap130x_request_firmware env_rev_second dev0 = (None, ?d1)"
    and sn': "ap130x_power_on_sensors env_rev_second ?d1 = (None, ?d2)"
    by (rule boot_entry [OF g(1) g(6)])+
  have p1: "ap130x_power_on env_rev_second ?z = (None, ?z1)"
    by (simp add: power_on_ok [OF g(1)] sb)
  have yes: "Reg16Read 0x50 \<in> set (trace ?z1 @ [Reg16Read 0])"
    by simp
  have i1: "fst (ap130x_request_firmware env_rev_second dev0) = None"
    by (simp add: rq')
  have i2: "fst (ap130x_power_on_sensors env_rev_second
                  (snd (ap130x_request_firmware env_rev_second dev0))) = None"
    by (simp add: rq' sn')
  have i3: "attempt_start env_rev_second (Suc 0)
              (snd (ap130x_power_on_sensors env_rev_second
                     (snd (ap130x_request_firmware env_rev_second dev0)))) = Some ?z"
    using rev_second_retry by (simp add: rq' sn')
  have b': "ap130x_hw_init env_rev_second dev0 =
             (Some EIO, error_power (?z1\<lparr>trace := trace ?z1 @ [Reg16Read 0, Reg16Read 0x50]\<rparr>))"
    by (rule revision_read_load_bearing [where env = env_rev_second and b = dev0
             and k = "Suc 0" and x = ?z and ?x1.0 = ?z1 and version = "0x265" and e = EIO,
             THEN conjunct2, THEN conjunct2, THEN mp])
       (intro conjI i1 i2 i3 k1 p1 g(2) g(4) [OF yes])
  have c': "power_cycles (trace (snd (ap130x_hw_init env_rev_second dev0))) = 2"
    unfolding b'
    by (simp add: power_cycles_error_power)
       (simp add: power_cycles_def isp_on_ops_def isp_off_ops_def filter_empty_conv)
  show ?thesis using a b c b' c' by simp
qed

section \<open>The cached page across power transitions\<close>




lemma env_ok_facts: "all_ok env_ok" "power_ok env_ok"
  by (simp_all add: all_ok_def power_ok_def env_ok_def)




section \<open>Streaming\<close>

lemma step_write16:
  assumes "evolves P d x" "AP130X_REG_PAGE reg = 0" "AP130X_REG_SIZE reg = 2"
    and "P (Reg16Write (ucast (AP130X_REG_ADDR reg)) val)"
  shows "evolves P d (snd (snd (ap130x_write env reg val err x)))"
proof -
  obtain r err' x' where w: "ap130x_write env reg val err x = (r, err', x')"
    by (cases "ap130x_write env reg val err x") auto
  from write_plain_16_cases [OF assms(2,3) w]
  have "evolves P x x'"
  proof
    assume "x' = x"
    then show ?thesis by (simp add: evolves_refl)
  next
    assume "x' = x\<lparr>trace := trace x @ [Reg16Write (ucast (AP130X_REG_ADDR reg)) val]\<rparr>"
    then show ?thesis using assms(4) by (simp add: evolves_ops)
  qed
  with assms(1) show ?thesis by (simp add: w evolves_trans)
qed

lemma step_read16:
  assumes "evolves P d x" "AP130X_REG_PAGE reg = 0" "AP130X_REG_SIZE reg = 2"
    and "P (Reg16Read (ucast (AP130X_REG_ADDR reg)))"
  shows "evolves P d (snd (ap130x_read env reg x))"
proof -
  have "snd (ap130x_read env reg x) = x\<lparr>trace := trace x @ [Reg16Read (ucast (AP130X_REG_ADDR reg))]\<rparr>"
    by (simp add: read_plain_16 [OF assms(2,3)])
  then have "evolves P x (snd (ap130x_read env reg x))"
    using assms(4) by (simp add: evolves_ops)
  with assms(1) show ?thesis by (rule evolves_trans)
qed


lemma no_stall_s_ctrl:
  assumes "evolves (\<lambda>op. \<not> is_stall_write op) d x"
  shows "evolves (\<lambda>op. \<not> is_stall_write op) d (snd (ap130x_s_ctrl env cid val x))"
  by (cases cid)
     (auto simp: write_null_def ap130x_set_wb_mode_def ap130x_set_exposure_def Let_def
                 case_prod_beta reg_page0 reg16_size reg_addr assms
           split: sum.splits intro!: step_write16 step_read16)

lemma no_stall_setup:
  "evolves (\<lambda>op. \<not> is_stall_write op) d x \<Longrightarrow>
   evolves (\<lambda>op. \<not> is_stall_write op) d (snd (v4l2_ctrl_handler_setup env cs x))"
proof (induction cs arbitrary: x)
  case Nil
  then show ?case by simp
next
  case (Cons c cs)
  obtain cid val where c: "c = (cid, val)" by (cases c)
  have s: "evolves (\<lambda>op. \<not> is_stall_write op) d (snd (ap130x_s_ctrl env cid val x))"
    by (rule no_stall_s_ctrl [OF Cons.prems])
  show ?case
  proof (cases "fst (ap130x_s_ctrl env cid val x)")
    case None
    then show ?thesis using Cons.IH [OF s] by (simp add: c case_prod_beta)
  next
    case (Some e)
    then show ?thesis using s by (simp add: c case_prod_beta)
  qed
qed

lemma no_stall_configure:
  assumes "evolves (\<lambda>op. \<not> is_stall_write op) d x"
  shows "evolves (\<lambda>op. \<not> is_stall_write op) d (snd (ap130x_configure env x))"
  unfolding ap130x_configure_def
  by (auto simp: case_prod_beta reg_page0 reg16_size reg_addr assms
           split: option.splits intro!: step_write16 no_stall_setup)

lemma stall_false_run:
  "ap130x_stall env False d =
     (to_ret (respond env (trace d) (Reg16Write 0x601a 0x8340)),
      d\<lparr>trace := trace d @ [Reg16Write 0x601a 0x8340]\<rparr>)"
  by (simp add: ap130x_stall_def write_plain_16 reg_page0 reg16_size reg_addr stall_consts)

lemma s_stream_start:
  assumes "\<not> streaming d" "ap130x_s_stream env 1 d = (None, d')"
  shows "\<exists>ops. d' = (snd (ap130x_configure env d))
                      \<lparr>trace := trace d @ ops @ [Reg16Write 0x601a 0x8340], streaming := True\<rparr> \<and>
               trace (snd (ap130x_configure env d)) = trace d @ ops \<and>
               list_all (\<lambda>op. \<not> is_stall_write op) ops"
proof -
  let ?c = "snd (ap130x_configure env d)"
  from assms have c: "fst (ap130x_configure env d) = None"
    by (auto simp: ap130x_s_stream_def case_prod_beta split: option.splits if_splits)
  from assms c have d': "d' = ?c\<lparr>trace := trace ?c @ [Reg16Write 0x601a 0x8340], streaming := True\<rparr>"
    by (auto simp: ap130x_s_stream_def case_prod_beta stall_false_run
             split: option.splits if_splits)
  from evolves_trace [OF no_stall_configure [OF evolves_refl, of d env]] obtain ops where
    ops: "trace ?c = trace d @ ops" "list_all (\<lambda>op. \<not> is_stall_write op) ops" by blast
  from d' ops show ?thesis by simp
qed


lemma stall_writes_append: "stall_writes (a @ b) = stall_writes a + stall_writes b"
  by (simp add: stall_writes_def)

lemma stall_writes_none: "list_all (\<lambda>op. \<not> is_stall_write op) ops \<Longrightarrow> stall_writes ops = 0"
  by (simp add: stall_writes_def list_all_iff filter_empty_conv)

text \<open>
  Claim C8 (stream stall controller idempotence). A start call is \<^verbatim>\<open>ap130x_s_stream\<close>
  with \<^verbatim>\<open>enable = 1\<close>, a stop call with \<^verbatim>\<open>enable = 0\<close>; the stalled state is
  \<^verbatim>\<open>streaming = false\<close>; the stall register is \<^verbatim>\<open>AP130X_SYS_START\<close>.
  \<^item> From the stalled state, a start call that succeeds has configured the output without
    touching the stall register and then written it once (\<open>0x8340\<close>), and has left the
    device streaming; a second start call on the device it leaves returns 0 and changes
    nothing, so the two calls together have issued exactly one stall-register write.
  \<^item> A start call on a streaming device, and a stop call on a stalled device, return 0
    and change nothing: they issue no transfer at all.
  \<^item> A stop call that succeeds on a streaming device leaves it stalled, so a second stop
    call returns 0 and issues no transfer.
\<close>

theorem stream_idempotence:
  "(\<not> streaming d \<and> ap130x_s_stream env 1 d = (None, d') \<longrightarrow>
      (\<exists>ops. trace d' = trace d @ ops @ [Reg16Write 0x601a 0x8340] \<and>
             list_all (\<lambda>op. \<not> is_stall_write op) ops)
      \<and> streaming d'
      \<and> ap130x_s_stream env 1 d' = (None, d')
      \<and> stall_writes (trace (snd (ap130x_s_stream env 1 d'))) = stall_writes (trace d) + 1)
   \<and> (streaming d \<longrightarrow> ap130x_s_stream env 1 d = (None, d))
   \<and> (\<not> streaming d \<longrightarrow> ap130x_s_stream env 0 d = (None, d))
   \<and> (streaming d \<and> ap130x_s_stream env 0 d = (None, d') \<longrightarrow>
        \<not> streaming d' \<and> ap130x_s_stream env 0 d' = (None, d'))"
proof (intro conjI impI)
  assume h: "\<not> streaming d \<and> ap130x_s_stream env 1 d = (None, d')"
  from s_stream_start [OF conjunct1 [OF h] conjunct2 [OF h]] obtain ops where
    d': "d' = (snd (ap130x_configure env d))
                \<lparr>trace := trace d @ ops @ [Reg16Write 0x601a 0x8340], streaming := True\<rparr>"
    and ops: "list_all (\<lambda>op. \<not> is_stall_write op) ops"
    by blast
  have t: "trace d' = trace d @ ops @ [Reg16Write 0x601a 0x8340]" by (simp add: d')
  with ops show "\<exists>ops. trace d' = trace d @ ops @ [Reg16Write 0x601a 0x8340] \<and>
             list_all (\<lambda>op. \<not> is_stall_write op) ops"
    by blast
  show s: "streaming d'" by (simp add: d')
  then show again: "ap130x_s_stream env 1 d' = (None, d')"
    by (simp add: ap130x_s_stream_def)
  show "stall_writes (trace (snd (ap130x_s_stream env 1 d'))) = stall_writes (trace d) + 1"
    unfolding again
    by (simp add: t stall_writes_append stall_writes_none [OF ops]) (simp add: stall_writes_def)
next
  assume "streaming d"
  then show "ap130x_s_stream env 1 d = (None, d)" by (simp add: ap130x_s_stream_def)
next
  assume "\<not> streaming d"
  then show "ap130x_s_stream env 0 d = (None, d)" by (simp add: ap130x_s_stream_def)
next
  assume h: "streaming d \<and> ap130x_s_stream env 0 d = (None, d')"
  then show s: "\<not> streaming d'"
    by (auto simp: ap130x_s_stream_def case_prod_beta split: option.splits)
  then show "ap130x_s_stream env 0 d' = (None, d')" by (simp add: ap130x_s_stream_def)
qed

lemma start_example:
  "ap130x_s_stream env_ok 1 dev0 =
     (None, dev0\<lparr>streaming := True,
                 trace := [Reg16Write 0x2030 0x14, Reg16Write 0x2000 0x500,
                           Reg16Write 0x2002 0x320, Reg16Write 0x2012 0x50,
                           Reg16Write 0x7000 0x100, Reg16Write 0x7002 0x100,
                           Reg16Read 0x5002, Reg16Write 0x5002 0xc,
                           Reg16Write 0x601a 0x8340]\<rparr>)"
proof -
  have d: "\<not> streaming dev0" "trace dev0 = []" "data_lanes dev0 = 4" "fmt_width dev0 = 1280"
    "fmt_height dev0 = 800" "width_factor dev0 = 1" "out_fmt dev0 = 0x50"
    "ctrls dev0 = [(CID_BRIGHTNESS, 0x100), (CID_CONTRAST, 0x100), (CID_EXPOSURE, 0xC)]"
    by (simp_all add: dev0_def)
  have r: "respond env_ok h op = Inr 0" for h op by (simp add: env_ok_def)
  show ?thesis
    by (simp add: ap130x_s_stream_def ap130x_configure_def d write_plain_16 read_plain_16
          reg_page0 reg16_size reg_addr r to_ret_def latch_def write_null_def
          ap130x_set_exposure_def stall_false_run AP130X_PREVIEW_HINF_CTRL_SPOOF_def
          AP130X_AE_CTRL_MODE_MASK_def)
qed

lemma stop_example:
  "ap130x_s_stream env_ok 0 (dev0\<lparr>streaming := True\<rparr>) =
     (None, dev0\<lparr>reg_page := 0x230000,
                 trace := [Reg16Write 0x601a 0x8040, Reg16Write 0x601a 0x8140,
                           Reg32Write 0xf038 0x230000, Reg32Write 0xe000 0xc8]\<rparr>)"
proof -
  have d: "reg_page dev0 = 0" "trace dev0 = []" "streaming dev0 = False"
    by (simp_all add: dev0_def)
  have e: "dev0\<lparr>reg_page := 0x230000, streaming := False, trace := t\<rparr>
           = dev0\<lparr>reg_page := 0x230000, trace := t\<rparr>" for t
    using d(3) by (cases dev0) simp
  show ?thesis
    by (simp add: ap130x_s_stream_def stall_ok [OF env_ok_facts(1)] d page_select_def e)
qed

theorem stream_idempotence_witness:
  "\<not> streaming dev0
   \<and> stall_writes (trace (snd (ap130x_s_stream env_ok 1 (snd (ap130x_s_stream env_ok 1 dev0))))) = 1
   \<and> snd (ap130x_s_stream env_ok 1 (snd (ap130x_s_stream env_ok 1 dev0)))
       = snd (ap130x_s_stream env_ok 1 dev0)
   \<and> ap130x_s_stream env_ok 0 dev0 = (None, dev0)
   \<and> ap130x_s_stream env_ok 0 (snd (ap130x_s_stream env_ok 0 (dev0\<lparr>streaming := True\<rparr>)))
       = (None, snd (ap130x_s_stream env_ok 0 (dev0\<lparr>streaming := True\<rparr>)))"
proof -
  let ?on = "dev0\<lparr>streaming := True,
                 trace := [Reg16Write 0x2030 0x14, Reg16Write 0x2000 0x500,
                           Reg16Write 0x2002 0x320, Reg16Write 0x2012 0x50,
                           Reg16Write 0x7000 0x100, Reg16Write 0x7002 0x100,
                           Reg16Read 0x5002, Reg16Write 0x5002 0xc,
                           Reg16Write 0x601a 0x8340]\<rparr>"
  let ?off = "dev0\<lparr>reg_page := 0x230000,
                 trace := [Reg16Write 0x601a 0x8040, Reg16Write 0x601a 0x8140,
                           Reg32Write 0xf038 0x230000, Reg32Write 0xe000 0xc8]\<rparr>"
  have d: "\<not> streaming dev0" "trace dev0 = []" by (simp_all add: dev0_def)
  have h1: "\<not> streaming dev0 \<and> ap130x_s_stream env_ok 1 dev0 = (None, ?on)"
    using d(1) start_example by simp
  note a = stream_idempotence [where d = dev0 and env = env_ok and d' = ?on,
             THEN conjunct1, THEN mp, OF h1]
  have h2: "streaming (dev0\<lparr>streaming := True\<rparr>) \<and>
            ap130x_s_stream env_ok 0 (dev0\<lparr>streaming := True\<rparr>) = (None, ?off)"
    using stop_example by simp
  note b = stream_idempotence [where d = "dev0\<lparr>streaming := True\<rparr>" and env = env_ok
             and d' = ?off, THEN conjunct2, THEN conjunct2, THEN conjunct2, THEN mp, OF h2]
  note c = stream_idempotence [where d = dev0 and env = env_ok,
             THEN conjunct2, THEN conjunct2, THEN conjunct1, THEN mp, OF d(1)]
  have s: "stall_writes (trace dev0) = 0" by (simp add: d stall_writes_def)
  have on: "snd (ap130x_s_stream env_ok 1 dev0) = ?on" by (simp add: start_example)
  have off: "snd (ap130x_s_stream env_ok 0 (dev0\<lparr>streaming := True\<rparr>)) = ?off"
    by (simp add: stop_example)
  have a3: "ap130x_s_stream env_ok 1 ?on = (None, ?on)"
    by (rule a [THEN conjunct2, THEN conjunct2, THEN conjunct1])
  have a4: "stall_writes (trace (snd (ap130x_s_stream env_ok 1 ?on))) = 1"
    using a [THEN conjunct2, THEN conjunct2, THEN conjunct2] s by simp
  have b2: "ap130x_s_stream env_ok 0 ?off = (None, ?off)"
    by (rule b [THEN conjunct2])
  show ?thesis
    unfolding on off
    by (intro conjI d(1) a4 c b2) (simp add: a3)
qed

end
